(* ===== verification/XPrelude.thy ===== *)
theory XPrelude
  imports Main "HOL-Library.Word" "HOL-Library.Sublist"
begin

text \<open>
  Shared vocabulary of the development: the types that stand for the Go types the program uses
  (byte strings, instants, durations, error results), the functions of package \<open>strings\<close> it
  calls, the outside world a handler reads (random bytes and the clock), and the generic lemmas
  the components share. Nothing here models a file of the repository.

  A Go string is a sequence of bytes, and so is \<^typ>\<open>string\<close>. An instant (\<open>time.Time\<close>) is the
  number of nanoseconds since Go's zero time, so \<open>IsZero\<close> is equality with 0; a \<open>time.Duration\<close>
  is a number of nanoseconds within the range of a signed 64-bit integer.
\<close>

named_theorems go_simps \<open>equations of the modelled standard-library functions\<close>

type_synonym byte = "8 word"
type_synonym time = int
type_synonym duration = int

section \<open>Signed 64-bit arithmetic, instants and durations\<close>

definition maxInt64 :: int where
  "maxInt64 = 9223372036854775807"

definition minInt64 :: int where
  "minInt64 = - 9223372036854775808"

definition wrap64 :: "int \<Rightarrow> int" where
  "wrap64 x = (x + 9223372036854775808) mod 18446744073709551616 - 9223372036854775808"

lemma wrap64_id: "minInt64 \<le> x \<Longrightarrow> x \<le> maxInt64 \<Longrightarrow> wrap64 x = x"
  by (simp add: wrap64_def minInt64_def maxInt64_def)

lemma wrap64_range: "minInt64 \<le> wrap64 x \<and> wrap64 x \<le> maxInt64"
proof -
  have "0 \<le> (x + 9223372036854775808) mod 18446744073709551616"
    and "(x + 9223372036854775808) mod 18446744073709551616 < 18446744073709551616"
    by simp_all
  then show ?thesis by (simp add: wrap64_def minInt64_def maxInt64_def)
qed

abbreviation second :: duration where
  "second \<equiv> 1000000000"

abbreviation minute :: duration where
  "minute \<equiv> 60000000000"

text \<open>\<open>t.Add(d)\<close>, \<open>t.After(u)\<close>, \<open>t.IsZero()\<close> and \<open>t.Sub(u)\<close>; the last one saturates.\<close>

definition time_Add :: "time \<Rightarrow> duration \<Rightarrow> time" where
  [go_simps]: "time_Add t d = t + d"

definition time_After :: "time \<Rightarrow> time \<Rightarrow> bool" where
  [go_simps]: "time_After t u \<longleftrightarrow> u < t"

definition time_IsZero :: "time \<Rightarrow> bool" where
  [go_simps]: "time_IsZero t \<longleftrightarrow> t = 0"

definition time_Sub :: "time \<Rightarrow> time \<Rightarrow> duration" where
  "time_Sub t u = max minInt64 (min maxInt64 (t - u))"

lemma time_Sub_less_iff:
  assumes "d \<le> maxInt64"
  shows "time_Sub t u < d \<longleftrightarrow> t - u < d \<and> minInt64 < d"
  using assms by (auto simp: time_Sub_def minInt64_def maxInt64_def)

lemma time_Sub_greater_iff:
  assumes "minInt64 \<le> d"
  shows "d < time_Sub t u \<longleftrightarrow> d < t - u \<and> d < maxInt64"
  using assms by (auto simp: time_Sub_def minInt64_def maxInt64_def)

text \<open>\<open>int(d.Seconds())\<close>: truncation towards zero of the duration in seconds.\<close>

definition duration_Seconds :: "duration \<Rightarrow> int" where
  "duration_Seconds d = sgn d * (\<bar>d\<bar> div second)"

text \<open>Decimal literals, as \<open>strconv\<close>, \<open>encoding/json\<close> and \<open>time\<close> print them.\<close>

fun nat_lit :: "nat \<Rightarrow> string" where
  "nat_lit n = (if n < 10 then [char_of (48 + n)] else nat_lit (n div 10) @ [char_of (48 + n mod 10)])"

declare nat_lit.simps [simp del]

definition int_lit :: "int \<Rightarrow> string" where
  "int_lit n = (if n < 0 then CHR ''-'' # nat_lit (nat (- n)) else nat_lit (nat n))"

section \<open>Functions of package strings\<close>

definition ascii_upper :: "char \<Rightarrow> char" where
  "ascii_upper c =
     (if 97 \<le> (of_char c :: nat) \<and> (of_char c :: nat) \<le> 122 then char_of ((of_char c :: nat) - 32) else c)"

definition ascii_lower :: "char \<Rightarrow> char" where
  "ascii_lower c =
     (if 65 \<le> (of_char c :: nat) \<and> (of_char c :: nat) \<le> 90 then char_of ((of_char c :: nat) + 32) else c)"

definition is_ascii :: "string \<Rightarrow> bool" where
  "is_ascii s \<longleftrightarrow> list_all (\<lambda>c. (of_char c :: nat) < 128) s"

text \<open>
  \<open>strings.ToUpper\<close> and \<open>strings.ToLower\<close> map an all-ASCII string byte by byte. On a string with
  a byte outside ASCII they map runes through the tables of package \<open>unicode\<close>; the tables are
  data the development does not carry, so that branch is a field of \<open>unicode_tables\<close>, a parameter
  of every definition that changes case.
\<close>

record unicode_tables =
  uni_ToUpper :: "string \<Rightarrow> string"
  uni_ToLower :: "string \<Rightarrow> string"

definition strings_ToUpper :: "unicode_tables \<Rightarrow> string \<Rightarrow> string" where
  "strings_ToUpper u s = (if is_ascii s then map ascii_upper s else uni_ToUpper u s)"

definition strings_ToLower :: "unicode_tables \<Rightarrow> string \<Rightarrow> string" where
  "strings_ToLower u s = (if is_ascii s then map ascii_lower s else uni_ToLower u s)"

text \<open>
  The UTF-8 encodings of the code points for which \<open>unicode.IsSpace\<close> holds. A suffix of a string
  is decoded by \<open>DecodeLastRune\<close> as one of them exactly when the bytes match, as a prefix is by
  \<open>DecodeRune\<close>, so \<open>strings.TrimSpace\<close> strips them from both ends.
\<close>

definition go_spaces :: "string list" where
  "go_spaces =
     [[CHR 0x09], [CHR 0x0A], [CHR 0x0B], [CHR 0x0C], [CHR 0x0D], [CHR 0x20],
      [CHR 0xC2, CHR 0x85], [CHR 0xC2, CHR 0xA0], [CHR 0xE1, CHR 0x9A, CHR 0x80],
      [CHR 0xE2, CHR 0x80, CHR 0x80], [CHR 0xE2, CHR 0x80, CHR 0x81],
      [CHR 0xE2, CHR 0x80, CHR 0x82], [CHR 0xE2, CHR 0x80, CHR 0x83],
      [CHR 0xE2, CHR 0x80, CHR 0x84], [CHR 0xE2, CHR 0x80, CHR 0x85],
      [CHR 0xE2, CHR 0x80, CHR 0x86], [CHR 0xE2, CHR 0x80, CHR 0x87],
      [CHR 0xE2, CHR 0x80, CHR 0x88], [CHR 0xE2, CHR 0x80, CHR 0x89],
      [CHR 0xE2, CHR 0x80, CHR 0x8A], [CHR 0xE2, CHR 0x80, CHR 0xA8],
      [CHR 0xE2, CHR 0x80, CHR 0xA9], [CHR 0xE2, CHR 0x80, CHR 0xAF],
      [CHR 0xE2, CHR 0x81, CHR 0x9F], [CHR 0xE3, CHR 0x80, CHR 0x80]]"

fun strip_one :: "string list \<Rightarrow> string \<Rightarrow> string option" where
  "strip_one [] s = None"
| "strip_one (w # ws) s =
     (if w \<noteq> [] \<and> prefix w s then Some (drop (length w) s) else strip_one ws s)"

lemma strip_one_shorter: "strip_one ws s = Some t \<Longrightarrow> length t < length s"
  by (induction ws s rule: strip_one.induct) (auto simp: prefix_def split: if_splits)

function trim_with :: "string list \<Rightarrow> string \<Rightarrow> string" where
  "trim_with ws s = (case strip_one ws s of None \<Rightarrow> s | Some t \<Rightarrow> trim_with ws t)"
  by pat_completeness auto
termination
  by (relation "measure (\<lambda>(ws, s). length s)") (auto dest: strip_one_shorter)

declare trim_with.simps [simp del]

definition strings_TrimSpace :: "string \<Rightarrow> string" where
  "strings_TrimSpace s = rev (trim_with (map rev go_spaces) (rev (trim_with go_spaces s)))"

text \<open>\<open>strings.Split\<close> and \<open>strings.SplitN(_, _, 2)\<close> for a separator of one byte.\<close>

fun strings_Split :: "char \<Rightarrow> string \<Rightarrow> string list" where
  "strings_Split c [] = [[]]"
| "strings_Split c (x # xs) =
     (if x = c then [] # strings_Split c xs
      else (case strings_Split c xs of [] \<Rightarrow> [[x]] | y # ys \<Rightarrow> (x # y) # ys))"

definition strings_SplitN2 :: "char \<Rightarrow> string \<Rightarrow> string list" where
  "strings_SplitN2 c s =
     (if c \<in> set s then [takeWhile (\<lambda>x. x \<noteq> c) s, tl (dropWhile (\<lambda>x. x \<noteq> c) s)] else [s])"

text \<open>\<open>strings.ReplaceAll(s, "c", "")\<close>, \<open>HasPrefix\<close>, \<open>TrimPrefix\<close>, \<open>TrimRight(s, "c")\<close>.\<close>

definition strings_Remove :: "char \<Rightarrow> string \<Rightarrow> string" where
  "strings_Remove c s = filter (\<lambda>x. x \<noteq> c) s"

definition strings_HasPrefix :: "string \<Rightarrow> string \<Rightarrow> bool" where
  [go_simps]: "strings_HasPrefix s p \<longleftrightarrow> take (length p) s = p"

definition strings_TrimPrefix :: "string \<Rightarrow> string \<Rightarrow> string" where
  [go_simps]: "strings_TrimPrefix s p = (if strings_HasPrefix s p then drop (length p) s else s)"

definition strings_TrimRight :: "char \<Rightarrow> string \<Rightarrow> string" where
  "strings_TrimRight c s = rev (dropWhile (\<lambda>x. x = c) (rev s))"

section \<open>The world outside the process\<close>

text \<open>
  Random bytes and clock readings come from outside. Both are sequences the model reads in
  order: \<open>rand.Read\<close> either fails or fills its whole buffer with the next bytes, \<open>time.Now\<close>
  returns the next reading. A theorem holds for every such sequence.
\<close>

record world =
  w_rand :: "nat \<Rightarrow> byte"
  w_rfail :: "nat \<Rightarrow> bool"
  w_rpos :: nat
  w_clock :: "nat \<Rightarrow> time"
  w_tick :: nat

definition rand_Read :: "nat \<Rightarrow> world \<Rightarrow> byte list option \<times> world" where
  "rand_Read n w =
     (if w_rfail w (w_rpos w) then (None, w\<lparr>w_rpos := Suc (w_rpos w)\<rparr>)
      else (Some (map (\<lambda>i. w_rand w (w_rpos w + i)) [0..<n]), w\<lparr>w_rpos := w_rpos w + n\<rparr>))"

definition time_Now :: "world \<Rightarrow> time \<times> world" where
  "time_Now w = (w_clock w (w_tick w), w\<lparr>w_tick := Suc (w_tick w)\<rparr>)"

lemma rand_Read_length: "rand_Read n w = (Some bs, w') \<Longrightarrow> length bs = n"
  by (auto simp: rand_Read_def split: if_splits)

lemma rand_Read_clock:
  "rand_Read n w = (r, w') \<Longrightarrow> w_clock w' = w_clock w \<and> w_tick w' = w_tick w"
  by (auto simp: rand_Read_def split: if_splits)

section \<open>Shared lemmas\<close>

lemma list_all2_mem2: "list_all2 P xs ys \<Longrightarrow> y \<in> set ys \<Longrightarrow> \<exists>x \<in> set xs. P x y"
  by (induction rule: list_all2_induct) auto

lemma strings_Split_nonempty [simp]: "strings_Split c s \<noteq> []"
  by (cases s) (auto split: list.splits)

lemma strings_Split_no_sep: "h \<in> set (strings_Split c s) \<Longrightarrow> c \<notin> set h"
  by (induction s arbitrary: h) (auto split: if_splits list.splits)

lemma strings_Split_single: "c \<notin> set s \<Longrightarrow> strings_Split c s = [s]"
  by (induction s) auto

lemma strings_Split_append:
  "strings_Split c (s @ c # t) = strings_Split c s @ strings_Split c t"
  by (induction s) (auto simp: append_eq_Cons_conv split: list.splits)

lemma strings_SplitN2_length: "length (strings_SplitN2 c s) = (if c \<in> set s then 2 else 1)"
  by (simp add: strings_SplitN2_def)

lemma strings_TrimRight_last: "strings_TrimRight c s \<noteq> [] \<Longrightarrow> last (strings_TrimRight c s) \<noteq> c"
  using hd_dropWhile [of "\<lambda>x. x = c" "rev s"] by (auto simp: strings_TrimRight_def last_rev)

lemma strip_one_suffix: "strip_one ws s = Some t \<Longrightarrow> suffix t s"
  by (induction ws s rule: strip_one.induct) (auto simp: suffix_drop split: if_splits)

lemma trim_with_suffix: "suffix (trim_with ws s) s"
proof (induction ws s rule: trim_with.induct)
  case (1 ws s)
  show ?case
  proof (cases "strip_one ws s")
    case None
    then show ?thesis by (simp add: trim_with.simps [of ws s])
  next
    case (Some t)
    with 1 strip_one_suffix [OF Some] show ?thesis
      by (auto simp: trim_with.simps [of ws s] intro: suffix_order.trans)
  qed
qed

lemma trim_with_fixed: "strip_one ws (trim_with ws s) = None"
proof (induction ws s rule: trim_with.induct)
  case (1 ws s)
  then show ?case
    by (cases "strip_one ws s") (simp_all add: trim_with.simps [of ws s])
qed

end
