(* ===== verification/GoCrypto.thy ===== *)
theory GoCrypto
  imports XPrelude
begin

unbundle bit_operations_syntax

text \<open>
  The functions of \<open>crypto/sha256\<close>, \<open>crypto/subtle\<close>, \<open>encoding/hex\<close> and \<open>encoding/base64\<close> that
  the program calls, as executable definitions: SHA-256 as in FIPS 180-4, the constant-time
  comparison with its accumulating loop, lower-case hexadecimal and unpadded base64url. The
  lemmas give what the components rely on: a comparison decides equality, and both encodings
  are injective with a known length and alphabet, so comparing encoded digests compares digests.
\<close>

section \<open>Bytes of a string\<close>

definition bytes_of :: "string \<Rightarrow> byte list" where
  "bytes_of s = map (\<lambda>c. word_of_nat (of_char c)) s"

lemma byte_of_char_inject:
  "(word_of_nat (of_char c) :: byte) = word_of_nat (of_char d) \<longleftrightarrow> c = d"
proof
  assume "(word_of_nat (of_char c) :: byte) = word_of_nat (of_char d)"
  then have "unat (word_of_nat (of_char c) :: byte) = unat (word_of_nat (of_char d) :: byte)"
    by simp
  then have "(of_char c :: nat) = of_char d"
    by (simp add: unat_of_nat)
  then show "c = d" by (rule of_char_eq_iff [THEN iffD1])
qed simp

lemma bytes_of_inject [simp]: "bytes_of s = bytes_of t \<longleftrightarrow> s = t"
proof (induction s arbitrary: t)
  case Nil
  then show ?case by (auto simp: bytes_of_def)
next
  case (Cons c s)
  then show ?case by (cases t) (auto simp: bytes_of_def byte_of_char_inject)
qed

lemma length_bytes_of [simp]: "length (bytes_of s) = length s"
  by (simp add: bytes_of_def)

section \<open>crypto/subtle\<close>

fun ct_accumulate :: "byte \<Rightarrow> byte list \<Rightarrow> byte list \<Rightarrow> byte" where
  "ct_accumulate v (x # xs) (y # ys) = ct_accumulate (v OR (x XOR y)) xs ys"
| "ct_accumulate v _ _ = v"

definition subtle_ConstantTimeCompare :: "byte list \<Rightarrow> byte list \<Rightarrow> int" where
  "subtle_ConstantTimeCompare xs ys =
     (if length xs \<noteq> length ys then 0
      else if ct_accumulate 0 xs ys = 0 then 1 else 0)"

lemma word_or_eq_0: "(a OR b = (0 :: 'a::len word)) \<longleftrightarrow> a = 0 \<and> b = 0"
  by (auto simp: bit_eq_iff bit_simps)

lemma word_xor_eq_0: "(a XOR b = (0 :: 'a::len word)) \<longleftrightarrow> a = b"
  by (auto simp: bit_eq_iff bit_simps)

lemma ct_accumulate_eq_0:
  "length xs = length ys \<Longrightarrow> ct_accumulate v xs ys = 0 \<longleftrightarrow> v = 0 \<and> xs = ys"
  by (induction v xs ys rule: ct_accumulate.induct) (auto simp: word_or_eq_0 word_xor_eq_0)

lemma ConstantTimeCompare_iff [simp]: "subtle_ConstantTimeCompare xs ys = 1 \<longleftrightarrow> xs = ys"
  by (auto simp: subtle_ConstantTimeCompare_def ct_accumulate_eq_0)

section \<open>encoding/hex\<close>

definition hex_digits :: string where
  "hex_digits = ''0123456789abcdef''"

definition hex_byte :: "byte \<Rightarrow> string" where
  "hex_byte b = [hex_digits ! (unat b div 16), hex_digits ! (unat b mod 16)]"

definition hex_EncodeToString :: "byte list \<Rightarrow> string" where
  "hex_EncodeToString bs = concat (map hex_byte bs)"

lemma hex_digits_inj: "i < 16 \<Longrightarrow> j < 16 \<Longrightarrow> hex_digits ! i = hex_digits ! j \<longleftrightarrow> i = j"
  by (rule nth_eq_iff_index_eq) (simp_all add: hex_digits_def)

lemma unat_byte_lt: "unat (b :: byte) < 256"
proof -
  have "unat b < 2 ^ LENGTH(8)" by (rule unsigned_less)
  then show ?thesis by simp
qed

lemma hex_byte_inject: "hex_byte a = hex_byte b \<longleftrightarrow> a = b"
proof
  assume "hex_byte a = hex_byte b"
  then have "unat a div 16 = unat b div 16" and "unat a mod 16 = unat b mod 16"
    using unat_byte_lt [of a] unat_byte_lt [of b]
    by (auto simp: hex_byte_def hex_digits_inj less_mult_imp_div_less)
  then have "unat a = unat b" by (metis div_mult_mod_eq)
  then show "a = b" by (rule word_unat_eq_iff [THEN iffD2])
qed simp

lemma length_hex_byte [simp]: "length (hex_byte b) = 2"
  by (simp add: hex_byte_def)

lemma hex_EncodeToString_inject [simp]:
  "hex_EncodeToString as = hex_EncodeToString bs \<longleftrightarrow> as = bs"
proof (induction as arbitrary: bs)
  case Nil
  then show ?case by (cases bs) (auto simp: hex_EncodeToString_def hex_byte_def)
next
  case (Cons a as)
  show ?case
  proof (cases bs)
    case Nil
    then show ?thesis by (simp add: hex_EncodeToString_def hex_byte_def)
  next
    case (Cons b bs')
    have "hex_byte a @ hex_EncodeToString as = hex_byte b @ hex_EncodeToString bs'
      \<longleftrightarrow> hex_byte a = hex_byte b \<and> hex_EncodeToString as = hex_EncodeToString bs'"
      by (simp add: append_eq_append_conv)
    with Cons Cons.IH show ?thesis
      by (simp add: hex_EncodeToString_def hex_byte_inject)
  qed
qed

lemma length_hex_EncodeToString [simp]: "length (hex_EncodeToString bs) = 2 * length bs"
  by (induction bs) (auto simp: hex_EncodeToString_def)

lemma hex_byte_digits: "set (hex_byte b) \<subseteq> set hex_digits"
proof -
  have "unat b div 16 < length hex_digits" "unat b mod 16 < length hex_digits"
    using unat_byte_lt [of b] by (simp_all add: hex_digits_def less_mult_imp_div_less)
  then show ?thesis by (simp add: hex_byte_def)
qed

lemma hex_EncodeToString_digits: "set (hex_EncodeToString bs) \<subseteq> set hex_digits"
  using hex_byte_digits by (fastforce simp: hex_EncodeToString_def)

section \<open>encoding/base64, RawURLEncoding\<close>

definition b64_alphabet :: string where
  "b64_alphabet = ''ABCDEFGHIJKLMNOPQRSTUVWXYZabcdefghijklmnopqrstuvwxyz0123456789-_''"

fun base64_RawURL :: "byte list \<Rightarrow> string" where
  "base64_RawURL [] = []"
| "base64_RawURL [a] =
     [b64_alphabet ! (unat a div 4), b64_alphabet ! (unat a mod 4 * 16)]"
| "base64_RawURL [a, b] =
     [b64_alphabet ! (unat a div 4),
      b64_alphabet ! (unat a mod 4 * 16 + unat b div 16),
      b64_alphabet ! (unat b mod 16 * 4)]"
| "base64_RawURL (a # b # c # rest) =
     [b64_alphabet ! (unat a div 4),
      b64_alphabet ! (unat a mod 4 * 16 + unat b div 16),
      b64_alphabet ! (unat b mod 16 * 4 + unat c div 64),
      b64_alphabet ! (unat c mod 64)] @ base64_RawURL rest"

lemma b64_alphabet_inj:
  assumes "i < 64" and "j < 64"
  shows "b64_alphabet ! i = b64_alphabet ! j \<longleftrightarrow> i = j"
proof (rule nth_eq_iff_index_eq)
  show "distinct b64_alphabet" by (simp add: b64_alphabet_def)
qed (use assms in \<open>simp_all add: b64_alphabet_def\<close>)

lemma length_base64_RawURL: "length (base64_RawURL bs) = (4 * length bs + 2) div 3"
  by (induction bs rule: base64_RawURL.induct) auto

lemma digit_pair_inject:
  assumes "p * k + x = q * k + y" and "x < k" and "y < (k :: nat)"
  shows "p = q \<and> x = y"
proof -
  have "p = (p * k + x) div k" and "q = (q * k + y) div k" using assms(2,3) by simp_all
  moreover have "x = (p * k + x) mod k" and "y = (q * k + y) mod k" using assms(2,3) by simp_all
  ultimately show ?thesis using assms(1) by metis
qed

lemma b64_pair:
  assumes "unat (a :: byte) div 4 = unat (a' :: byte) div 4"
    and "unat a mod 4 * 16 + x = unat a' mod 4 * 16 + x'" and "x < 16" and "x' < (16 :: nat)"
  shows "a = a' \<and> x = x'"
proof -
  have "unat a mod 4 = unat a' mod 4" and "x = x'"
    using digit_pair_inject [OF assms(2-4)] by simp_all
  with assms(1) have "unat a = unat a'" by (metis div_mult_mod_eq)
  with \<open>x = x'\<close> show ?thesis by (simp add: word_unat_eq_iff)
qed

lemma b64_mid:
  assumes "unat (b :: byte) div 16 = unat (b' :: byte) div 16"
    and "unat b mod 16 * 4 + x = unat b' mod 16 * 4 + x'" and "x < 4" and "x' < (4 :: nat)"
  shows "b = b' \<and> x = x'"
proof -
  have "unat b mod 16 = unat b' mod 16" and "x = x'"
    using digit_pair_inject [OF assms(2-4)] by simp_all
  with assms(1) have "unat b = unat b'" by (metis div_mult_mod_eq)
  with \<open>x = x'\<close> show ?thesis by (simp add: word_unat_eq_iff)
qed

lemma b64_low:
  assumes "unat (c :: byte) div 64 = unat (c' :: byte) div 64" and "unat c mod 64 = unat c' mod 64"
  shows "c = c'"
  using assms by (metis div_mult_mod_eq word_unat_eq_iff)

lemma b64_index_bounds:
  "unat (a :: byte) div 4 < 64" "unat a div 16 < 16" "unat a div 64 < 4"
  "unat a mod 4 * 16 + unat (b :: byte) div 16 < 64" "unat a mod 16 * 4 + unat b div 64 < 64"
  "unat a mod 64 < 64" "unat a mod 4 * 16 < 64" "unat a mod 16 * 4 < 64"
proof -
  have "unat b div 16 < 16" "unat b div 64 < 4" "unat a mod 4 < 4" "unat a mod 16 < 16"
    using unat_byte_lt [of b] by (simp_all add: less_mult_imp_div_less)
  then show "unat a mod 4 * 16 + unat b div 16 < 64" "unat a mod 16 * 4 + unat b div 64 < 64"
    "unat a mod 64 < 64" "unat a mod 4 * 16 < 64" "unat a mod 16 * 4 < 64"
    by simp_all
qed (use unat_byte_lt [of a] in \<open>simp_all add: less_mult_imp_div_less\<close>)

lemma base64_RawURL_inject_len:
  "length as = length bs \<Longrightarrow> base64_RawURL as = base64_RawURL bs \<Longrightarrow> as = bs"
proof (induction as arbitrary: bs rule: base64_RawURL.induct)
  case 1
  then show ?case by simp
next
  case (2 a)
  then obtain a' where "bs = [a']" by (cases bs) auto
  with 2 show ?case
    using b64_pair [of a a' 0 0] by (simp add: b64_alphabet_inj b64_index_bounds)
next
  case (3 a b)
  then obtain a' b' where bs: "bs = [a', b']" by (cases bs rule: base64_RawURL.cases) auto
  with 3 have "a = a'" and "unat b div 16 = unat b' div 16" and "unat b mod 16 = unat b' mod 16"
    using b64_pair [of a a' "unat b div 16" "unat b' div 16"]
    by (simp_all add: b64_alphabet_inj b64_index_bounds)
  then show ?case using bs b64_mid [of b b' 0 0] by simp
next
  case (4 a b c rest)
  then obtain a' b' c' rest' where bs: "bs = a' # b' # c' # rest'" and "length rest = length rest'"
    by (cases bs rule: base64_RawURL.cases) auto
  with 4 have r: "rest = rest'" and "a = a'" and q: "unat b div 16 = unat b' div 16"
    and m: "unat b mod 16 * 4 + unat c div 64 = unat b' mod 16 * 4 + unat c' div 64"
    and l: "unat c mod 64 = unat c' mod 64"
    using b64_pair [of a a' "unat b div 16" "unat b' div 16"]
    by (simp_all add: b64_alphabet_inj b64_index_bounds)
  moreover from q m have "b = b'" and "unat c div 64 = unat c' div 64"
    using b64_mid [of b b' "unat c div 64" "unat c' div 64"] by (simp_all add: b64_index_bounds)
  ultimately show ?case using bs b64_low [of c c'] by simp
qed

lemma base64_RawURL_inject [simp]: "base64_RawURL as = base64_RawURL bs \<longleftrightarrow> as = bs"
proof
  assume eq: "base64_RawURL as = base64_RawURL bs"
  then have "(4 * length as + 2) div 3 = (4 * length bs + 2) div 3"
    by (metis length_base64_RawURL)
  then have "length as = length bs" by arith
  then show "as = bs" using eq by (rule base64_RawURL_inject_len)
qed simp

section \<open>crypto/sha256\<close>

type_synonym w32 = "32 word"

definition sha_K :: "w32 list" where
  "sha_K =
     [1116352408, 1899447441, 3049323471, 3921009573, 961987163, 1508970993, 2453635748,
      2870763221, 3624381080, 310598401, 607225278, 1426881987, 1925078388, 2162078206,
      2614888103, 3248222580, 3835390401, 4022224774, 264347078, 604807628, 770255983,
      1249150122, 1555081692, 1996064986, 2554220882, 2821834349, 2952996808, 3210313671,
      3336571891, 3584528711, 113926993, 338241895, 666307205, 773529912, 1294757372,
      1396182291, 1695183700, 1986661051, 2177026350, 2456956037, 2730485921, 2820302411,
      3259730800, 3345764771, 3516065817, 3600352804, 4094571909, 275423344, 430227734,
      506948616, 659060556, 883997877, 958139571, 1322822218, 1537002063, 1747873779,
      1955562222, 2024104815, 2227730452, 2361852424, 2428436474, 2756734187, 3204031479,
      3329325298]"

definition sha_H0 :: "w32 list" where
  "sha_H0 =
     [1779033703, 3144134277, 1013904242, 2773480762,
      1359893119, 2600822924, 528734635, 1541459225]"

definition sha_Ch :: "w32 \<Rightarrow> w32 \<Rightarrow> w32 \<Rightarrow> w32" where
  "sha_Ch x y z = (x AND y) XOR (NOT x AND z)"

definition sha_Maj :: "w32 \<Rightarrow> w32 \<Rightarrow> w32 \<Rightarrow> w32" where
  "sha_Maj x y z = (x AND y) XOR (x AND z) XOR (y AND z)"

definition sha_S0 :: "w32 \<Rightarrow> w32" where
  "sha_S0 x = word_rotr 2 x XOR word_rotr 13 x XOR word_rotr 22 x"

definition sha_S1 :: "w32 \<Rightarrow> w32" where
  "sha_S1 x = word_rotr 6 x XOR word_rotr 11 x XOR word_rotr 25 x"

definition sha_s0 :: "w32 \<Rightarrow> w32" where
  "sha_s0 x = word_rotr 7 x XOR word_rotr 18 x XOR drop_bit 3 x"

definition sha_s1 :: "w32 \<Rightarrow> w32" where
  "sha_s1 x = word_rotr 17 x XOR word_rotr 19 x XOR drop_bit 10 x"

text \<open>Big-endian words of a byte list, and back.\<close>

fun be_words :: "byte list \<Rightarrow> w32 list" where
  "be_words (a # b # c # d # rest) =
     (push_bit 24 (ucast a) OR push_bit 16 (ucast b) OR push_bit 8 (ucast c) OR ucast d)
       # be_words rest"
| "be_words _ = []"

definition be_bytes :: "w32 \<Rightarrow> byte list" where
  "be_bytes w = [ucast (drop_bit 24 w), ucast (drop_bit 16 w), ucast (drop_bit 8 w), ucast w]"

text \<open>The message schedule, newest word first, and the 64 rounds of one block.\<close>

fun sha_schedule :: "nat \<Rightarrow> w32 list \<Rightarrow> w32 list" where
  "sha_schedule 0 ws = ws"
| "sha_schedule (Suc n) ws =
     sha_schedule n ((sha_s1 (ws ! 1) + ws ! 6 + sha_s0 (ws ! 14) + ws ! 15) # ws)"

fun sha_round :: "w32 list \<Rightarrow> w32 \<times> w32 \<Rightarrow> w32 list" where
  "sha_round [a, b, c, d, e, f, g, h] (k, w) =
     (let t1 = h + sha_S1 e + sha_Ch e f g + k + w; t2 = sha_S0 a + sha_Maj a b c
      in [t1 + t2, a, b, c, d + t1, e, f, g])"
| "sha_round st _ = st"

definition sha_block :: "w32 list \<Rightarrow> byte list \<Rightarrow> w32 list" where
  "sha_block h blk =
     map2 (+) h (foldl sha_round h (zip sha_K (rev (sha_schedule 48 (rev (be_words blk))))))"

definition sha_pad :: "byte list \<Rightarrow> byte list" where
  "sha_pad m =
     (let n = length m; len = (word_of_nat (8 * n) :: 64 word)
      in m @ [0x80] @ replicate ((119 - n mod 64) mod 64) 0
           @ map (\<lambda>i. ucast (drop_bit (56 - 8 * i) len)) [0..<8])"

fun sha_blocks :: "nat \<Rightarrow> w32 list \<Rightarrow> byte list \<Rightarrow> w32 list" where
  "sha_blocks 0 h _ = h"
| "sha_blocks (Suc n) h m = sha_blocks n (sha_block h (take 64 m)) (drop 64 m)"

definition sha256_Sum256 :: "byte list \<Rightarrow> byte list" where
  "sha256_Sum256 m =
     (let p = sha_pad m in concat (map be_bytes (sha_blocks (length p div 64) sha_H0 p)))"

lemma length_sha_round: "length h = 8 \<Longrightarrow> length (sha_round h kw) = 8"
  by (induction h kw rule: sha_round.induct) (auto simp: Let_def)

lemma length_foldl_sha_round: "length h = 8 \<Longrightarrow> length (foldl sha_round h kws) = 8"
  by (induction kws arbitrary: h) (auto simp: length_sha_round)

lemma length_sha_blocks: "length h = 8 \<Longrightarrow> length (sha_blocks n h m) = 8"
  by (induction n h m rule: sha_blocks.induct) (auto simp: sha_block_def length_foldl_sha_round)

lemma length_sha256_Sum256 [simp]: "length (sha256_Sum256 m) = 32"
proof -
  have "length (concat (map be_bytes ws)) = 4 * length ws" for ws
    by (induction ws) (auto simp: be_bytes_def)
  then show ?thesis
    by (simp add: sha256_Sum256_def Let_def length_sha_blocks sha_H0_def)
qed

end
