(* ===== verification/Codes.thy ===== *)
theory Codes
  imports GoCrypto
begin

text \<open>
  The two secrets a login compares: the user code typed into the browser (\<open>usercode.go\<close>, check 2)
  and the client's PKCE verifier (\<open>pkce.go\<close>, check 1). The lemmas describe the codes the broker
  generates, show that each of the 32 symbols is equally likely, and characterise both
  comparisons.
\<close>

section \<open>Definitions: usercode.go\<close>

definition userCodeAlphabet :: string where
  "userCodeAlphabet = ''ABCDEFGHJKLMNPQRSTUVWXYZ23456789''"

definition code_symbol :: "byte \<Rightarrow> char" where
  "code_symbol b = userCodeAlphabet ! (unat b mod length userCodeAlphabet)"

definition GenerateUserCode :: "world \<Rightarrow> string option \<times> world" where
  "GenerateUserCode w =
     (case rand_Read 8 w of
        (None, w') \<Rightarrow> (None, w')
      | (Some raw, w') \<Rightarrow>
          let idx = map code_symbol raw in (Some (take 4 idx @ ''-'' @ drop 4 idx), w'))"

definition normalizeUserCode :: "unicode_tables \<Rightarrow> string \<Rightarrow> string" where
  "normalizeUserCode u s =
     (let s1 = strings_ToUpper u (strings_TrimSpace s);
          s2 = strings_Remove (CHR ''-'') s1
      in strings_Remove (CHR '' '') s2)"

definition codesEqual :: "unicode_tables \<Rightarrow> string \<Rightarrow> string \<Rightarrow> bool" where
  "codesEqual u submitted expected =
     (let a = bytes_of (normalizeUserCode u submitted);
          b = bytes_of (normalizeUserCode u expected)
      in if length a \<noteq> length b then False
         else subtle_ConstantTimeCompare a b = 1)"

section \<open>Definitions: pkce.go\<close>

definition verifyClientPKCE :: "string \<Rightarrow> string \<Rightarrow> bool" where
  "verifyClientPKCE verifier challenge =
     (if verifier = '''' \<or> challenge = '''' then False
      else let sum = sha256_Sum256 (bytes_of verifier);
               got = base64_RawURL sum
           in subtle_ConstantTimeCompare (bytes_of got) (bytes_of challenge) = 1)"

text \<open>The S256 challenge of a verifier, the specification of check 1.\<close>

definition S256 :: "string \<Rightarrow> string" where
  "S256 v = base64_RawURL (sha256_Sum256 (bytes_of v))"

section \<open>Lemmas: the comparisons\<close>

lemma codesEqual_iff:
  "codesEqual u s c \<longleftrightarrow> normalizeUserCode u s = normalizeUserCode u c"
  by (auto simp: codesEqual_def Let_def)

lemma length_S256 [simp]: "length (S256 v) = 43"
  by (simp add: S256_def length_base64_RawURL)

lemma S256_nonempty [simp]: "S256 v \<noteq> ''''" "'''' \<noteq> S256 v"
proof -
  have "length (S256 v) \<noteq> 0" by simp
  then show "S256 v \<noteq> ''''" "'''' \<noteq> S256 v" by (metis list.size(3))+
qed

lemma verifyClientPKCE_iff: "verifyClientPKCE v ch \<longleftrightarrow> v \<noteq> '''' \<and> ch = S256 v"
  by (auto simp: verifyClientPKCE_def S256_def [symmetric] Let_def)

section \<open>Lemmas: generated codes\<close>

text \<open>The shape of a user code: two groups of four symbols joined by a dash.\<close>

definition wf_code :: "string \<Rightarrow> bool" where
  "wf_code c \<longleftrightarrow> length c = 9 \<and> c ! 4 = CHR ''-'' \<and>
     (\<forall>i < 9. i \<noteq> 4 \<longrightarrow> c ! i \<in> set userCodeAlphabet)"

lemma length_userCodeAlphabet [simp]: "length userCodeAlphabet = 32"
  by (simp add: userCodeAlphabet_def)

lemma distinct_userCodeAlphabet [simp]: "distinct userCodeAlphabet"
  by (simp add: userCodeAlphabet_def)

lemma code_symbol_in [simp]: "code_symbol b \<in> set userCodeAlphabet"
  by (simp add: code_symbol_def)

lemma wf_codeI:
  assumes "length xs = 4" and "length ys = 4"
    and "set xs \<subseteq> set userCodeAlphabet" and "set ys \<subseteq> set userCodeAlphabet"
  shows "wf_code (xs @ ''-'' @ ys)"
proof -
  have "(xs @ ''-'' @ ys) ! i \<in> set userCodeAlphabet" if "i < 9" "i \<noteq> 4" for i
  proof (cases "i < 4")
    case True
    then have "(xs @ ''-'' @ ys) ! i \<in> set xs" using assms(1) by (simp add: nth_append)
    then show ?thesis using assms(3) by blast
  next
    case False
    then have "(xs @ ''-'' @ ys) ! i = ys ! (i - 5)" and "i - 5 < length ys"
      using that assms(1,2) by (auto simp: nth_append nth_Cons')
    then show ?thesis using assms(4) by (metis nth_mem subsetD)
  qed
  then show ?thesis using assms(1,2) by (simp add: wf_code_def nth_append)
qed

lemma wf_codeE:
  assumes "wf_code c"
  obtains xs ys where "c = xs @ ''-'' @ ys" "length xs = 4" "length ys = 4"
    "set xs \<subseteq> set userCodeAlphabet" "set ys \<subseteq> set userCodeAlphabet"
proof
  have len: "length c = 9" and dash: "c ! 4 = CHR ''-''"
    and sym: "\<And>i. i < 9 \<Longrightarrow> i \<noteq> 4 \<Longrightarrow> c ! i \<in> set userCodeAlphabet"
    using assms by (auto simp: wf_code_def)
  show "c = take 4 c @ ''-'' @ drop 5 c"
    using len dash id_take_nth_drop [of 4 c] by simp
  show "length (take 4 c) = 4" "length (drop 5 c) = 4" using len by simp_all
  show "set (take 4 c) \<subseteq> set userCodeAlphabet"
    using sym len by (auto simp: in_set_conv_nth)
  show "set (drop 5 c) \<subseteq> set userCodeAlphabet"
    using sym len by (auto simp: in_set_conv_nth)
qed

lemma GenerateUserCode_wf: "GenerateUserCode w = (Some c, w') \<Longrightarrow> wf_code c"
proof -
  assume "GenerateUserCode w = (Some c, w')"
  then obtain raw where raw: "rand_Read 8 w = (Some raw, w')"
    and c: "c = take 4 (map code_symbol raw) @ ''-'' @ drop 4 (map code_symbol raw)"
    by (auto simp: GenerateUserCode_def Let_def split: prod.splits option.splits)
  have "length raw = 8" using raw by (rule rand_Read_length)
  then show "wf_code c"
    unfolding c by (intro wf_codeI) (auto simp: take_map drop_map)
qed

lemma unat_symbol_byte: "j < 8 \<Longrightarrow> k < 32 \<Longrightarrow> unat (word_of_nat (32 * j + k) :: byte) = 32 * j + k"
  by (subst unat_of_nat) simp

text \<open>Every symbol has eight of the 256 byte values: 256 is a multiple of the alphabet's size.\<close>

lemma code_symbol_preimage:
  assumes "k < 32"
  shows "{b :: byte. code_symbol b = userCodeAlphabet ! k} = (\<lambda>j. word_of_nat (32 * j + k)) ` {..<8}"
    (is "?L = ?R")
proof
  show "?R \<subseteq> ?L"
  proof
    fix b assume "b \<in> ?R"
    then obtain j where "j < 8" and b: "b = word_of_nat (32 * j + k)" by auto
    then have "unat b = 32 * j + k" using unat_symbol_byte assms by blast
    then show "b \<in> ?L" using assms by (simp add: code_symbol_def)
  qed
  show "?L \<subseteq> ?R"
  proof
    fix b :: byte assume "b \<in> ?L"
    then have "unat b mod 32 = k"
      using assms by (simp add: code_symbol_def nth_eq_iff_index_eq)
    then have "unat b = 32 * (unat b div 32) + k" by (metis mult_div_mod_eq)
    then have "b = word_of_nat (32 * (unat b div 32) + k)" by (metis of_nat_unat ucast_id)
    moreover have "unat b div 32 < 8" using unat_byte_lt [of b] by (simp add: less_mult_imp_div_less)
    ultimately show "b \<in> ?R" by blast
  qed
qed

lemma code_symbol_uniform_idx:
  assumes "k < 32"
  shows "card {b :: byte. code_symbol b = userCodeAlphabet ! k} = 8"
proof -
  have "inj_on (\<lambda>j. word_of_nat (32 * j + k) :: byte) {..<8}"
  proof (rule inj_onI)
    fix i j assume ij: "i \<in> {..<8}" "j \<in> {..<8}"
      and eq: "word_of_nat (32 * i + k) = (word_of_nat (32 * j + k) :: byte)"
    have "unat (word_of_nat (32 * i + k) :: byte) = 32 * i + k"
      "unat (word_of_nat (32 * j + k) :: byte) = 32 * j + k"
      using ij assms unat_symbol_byte by blast+
    with eq show "i = j" by simp
  qed
  then show ?thesis by (simp add: code_symbol_preimage [OF assms] card_image)
qed

section \<open>Lemmas: normalisation of codes\<close>

lemma strip_one_None:
  "s \<noteq> [] \<Longrightarrow> (\<And>w. w \<in> set ws \<Longrightarrow> w \<noteq> [] \<Longrightarrow> hd w \<noteq> hd s) \<Longrightarrow> strip_one ws s = None"
proof (induction ws s rule: strip_one.induct)
  case (2 w ws s)
  from "2.prems"(2) [of w] "2.prems"(1) have "\<not> (w \<noteq> [] \<and> prefix w s)"
    by (cases w; cases s) auto
  with 2 show ?case by auto
qed simp

lemma code_char_not_space:
  assumes "c \<in> set userCodeAlphabet" and "w \<in> set go_spaces"
  shows "hd w \<noteq> c \<and> last w \<noteq> c"
proof -
  have "list_all (\<lambda>w. hd w \<notin> set userCodeAlphabet \<and> last w \<notin> set userCodeAlphabet) go_spaces"
    by code_simp
  with assms show ?thesis by (auto simp: list_all_iff)
qed

definition code_like :: "string \<Rightarrow> bool" where
  "code_like s \<longleftrightarrow> s \<noteq> [] \<and>
     (\<forall>w \<in> set go_spaces. hd w \<noteq> hd s \<and> last w \<noteq> last s)"

lemma TrimSpace_code_like:
  assumes "code_like s"
  shows "strings_TrimSpace s = s"
proof -
  have ne: "s \<noteq> []" and sp: "\<And>w. w \<in> set go_spaces \<Longrightarrow> hd w \<noteq> hd s \<and> last w \<noteq> last s"
    using assms by (auto simp: code_like_def)
  have "strip_one go_spaces s = None" using ne sp by (intro strip_one_None) auto
  then have l: "trim_with go_spaces s = s" by (simp add: trim_with.simps [of go_spaces s])
  have "strip_one (map rev go_spaces) (rev s) = None"
    using ne sp by (intro strip_one_None) (auto simp: hd_rev)
  then have "trim_with (map rev go_spaces) (rev s) = rev s"
    by (simp add: trim_with.simps [of "map rev go_spaces" "rev s"])
  with l show ?thesis by (simp add: strings_TrimSpace_def)
qed

lemma upper_code_symbol:
  "c \<in> set userCodeAlphabet \<Longrightarrow> ascii_upper c = c \<and> ascii_upper (ascii_lower c) = c
     \<and> (of_char c :: nat) < 128 \<and> (of_char (ascii_lower c) :: nat) < 128"
  by (auto simp: userCodeAlphabet_def ascii_upper_def ascii_lower_def)

lemma code_symbol_kept:
  "c \<in> set userCodeAlphabet \<Longrightarrow> c \<noteq> CHR ''-'' \<and> c \<noteq> CHR '' '' "
  by (auto simp: userCodeAlphabet_def)

lemma upper_dash [simp]: "ascii_upper (CHR ''-'') = CHR ''-''" "ascii_lower (CHR ''-'') = CHR ''-''"
  by (simp_all add: ascii_upper_def ascii_lower_def)

lemma normalize_symbols:
  assumes "code_like s" and "is_ascii s"
  shows "normalizeUserCode u s =
    filter (\<lambda>x. x \<noteq> CHR ''-'' \<and> x \<noteq> CHR '' '') (map ascii_upper s)"
  using assms
  by (simp add: normalizeUserCode_def Let_def TrimSpace_code_like strings_ToUpper_def
      strings_Remove_def conj_commute)

lemma code_like_groups:
  assumes "xs \<noteq> []" and "ys \<noteq> []" and "set xs \<subseteq> set userCodeAlphabet"
    and "set ys \<subseteq> set userCodeAlphabet"
  shows "code_like (xs @ zs @ ys)"
proof -
  have "hd xs \<in> set userCodeAlphabet" "last ys \<in> set userCodeAlphabet"
    using assms hd_in_set last_in_set by blast+
  then show ?thesis using assms(1,2) code_char_not_space by (auto simp: code_like_def)
qed

lemma map_upper_symbols: "set xs \<subseteq> set userCodeAlphabet \<Longrightarrow> map ascii_upper xs = xs"
  using upper_code_symbol by (induction xs) auto

lemma filter_symbols:
  "set xs \<subseteq> set userCodeAlphabet \<Longrightarrow> filter (\<lambda>x. x \<noteq> CHR ''-'' \<and> x \<noteq> CHR '' '') xs = xs"
  using code_symbol_kept by (induction xs) auto

lemma ascii_symbols: "set xs \<subseteq> set userCodeAlphabet \<Longrightarrow> is_ascii xs"
  using upper_code_symbol by (auto simp: is_ascii_def list_all_iff)

lemma is_ascii_append [simp]: "is_ascii (xs @ ys) \<longleftrightarrow> is_ascii xs \<and> is_ascii ys"
  by (simp add: is_ascii_def)

lemma normalize_groups:
  assumes "xs \<noteq> []" and "ys \<noteq> []" and "set xs \<subseteq> set userCodeAlphabet"
    and "set ys \<subseteq> set userCodeAlphabet" and "zs = ''-'' \<or> zs = ''''"
  shows "normalizeUserCode u (xs @ zs @ ys) = xs @ ys"
proof -
  have "is_ascii zs" using assms(5) by (auto simp: is_ascii_def)
  then have "is_ascii (xs @ zs @ ys)" using assms(3,4) by (simp add: ascii_symbols)
  moreover have "code_like (xs @ zs @ ys)" using assms(1-4) by (rule code_like_groups)
  ultimately have "normalizeUserCode u (xs @ zs @ ys) =
      filter (\<lambda>x. x \<noteq> CHR ''-'' \<and> x \<noteq> CHR '' '') (map ascii_upper (xs @ zs @ ys))"
    by (intro normalize_symbols)
  also have "\<dots> = xs @ ys"
    using assms(3-5) by (auto simp: map_upper_symbols filter_symbols)
  finally show ?thesis .
qed

lemma normalize_wf_code:
  assumes "wf_code c"
  shows "normalizeUserCode u c = take 4 c @ drop 5 c"
  using assms
proof (rule wf_codeE)
  fix xs ys assume c: "c = xs @ ''-'' @ ys" and len: "length xs = 4" "length ys = 4"
    and "set xs \<subseteq> set userCodeAlphabet" "set ys \<subseteq> set userCodeAlphabet"
  moreover have "xs \<noteq> []" "ys \<noteq> []" using len by auto
  ultimately have "normalizeUserCode u (xs @ ''-'' @ ys) = xs @ ys"
    by (intro normalize_groups) simp_all
  then show ?thesis using c len by simp
qed

lemma lower_not_space:
  assumes "c \<in> set userCodeAlphabet" and "w \<in> set go_spaces"
  shows "hd w \<noteq> ascii_lower c \<and> last w \<noteq> ascii_lower c"
proof -
  have "map ascii_lower userCodeAlphabet = ''abcdefghjklmnpqrstuvwxyz23456789''"
    by (simp add: userCodeAlphabet_def ascii_lower_def char_of_eq_iff)
  then have "ascii_lower c \<in> set ''abcdefghjklmnpqrstuvwxyz23456789''"
    using assms(1) by (metis image_eqI list.set_map)
  moreover have sp: "list_all (\<lambda>w. hd w \<notin> set ''abcdefghjklmnpqrstuvwxyz23456789'' \<and>
      last w \<notin> set ''abcdefghjklmnpqrstuvwxyz23456789'') go_spaces"
    by code_simp
  from sp [unfolded list_all_iff, rule_format, OF assms(2)]
  have "hd w \<notin> set ''abcdefghjklmnpqrstuvwxyz23456789''" "last w \<notin> set ''abcdefghjklmnpqrstuvwxyz23456789''"
    by (rule conjunct1, rule conjunct2)
  ultimately show ?thesis by metis
qed

lemma normalize_lower:
  assumes "wf_code c"
  shows "normalizeUserCode u (map ascii_lower c) = take 4 c @ drop 5 c"
  using assms
proof (rule wf_codeE)
  fix xs ys assume c: "c = xs @ ''-'' @ ys" and len: "length xs = 4" "length ys = 4"
    and sym: "set xs \<subseteq> set userCodeAlphabet" "set ys \<subseteq> set userCodeAlphabet"
  have ne: "xs \<noteq> []" "ys \<noteq> []" using len by auto
  then have "hd xs \<in> set userCodeAlphabet" "last ys \<in> set userCodeAlphabet"
    using sym hd_in_set last_in_set by blast+
  then have "code_like (map ascii_lower c)"
    using ne lower_not_space by (auto simp: c code_like_def hd_map last_map)
  moreover have "is_ascii (map ascii_lower xs)" "is_ascii (map ascii_lower ys)"
    using sym upper_code_symbol by (auto simp: is_ascii_def list_all_iff)
  then have "is_ascii (map ascii_lower c)" by (simp add: c is_ascii_def)
  moreover have "map ascii_upper (map ascii_lower zs) = zs" if "set zs \<subseteq> set userCodeAlphabet" for zs
    using that upper_code_symbol by (induction zs) auto
  ultimately have "normalizeUserCode u (map ascii_lower c) = xs @ ys"
    using sym normalize_symbols [of "map ascii_lower c" u]
    by (simp add: c filter_symbols del: map_map)
  then show ?thesis using c len by simp
qed

lemma card_map_preimage:
  assumes "\<And>y. y \<in> set ys \<Longrightarrow> card {b :: byte. f b = y} = n"
  shows "card {bs. map f bs = ys} = n ^ length ys"
  using assms
proof (induction ys)
  case Nil
  then show ?case by simp
next
  case (Cons y ys)
  have "{bs. map f bs = y # ys} = (\<lambda>(b, bs). b # bs) ` ({b. f b = y} \<times> {bs. map f bs = ys})"
    by (auto simp: map_eq_Cons_conv)
  moreover have "inj_on (\<lambda>(b, bs). b # bs) ({b. f b = y} \<times> {bs. map f bs = ys})"
    by (auto simp: inj_on_def)
  ultimately have "card {bs. map f bs = y # ys} = card {b. f b = y} * card {bs. map f bs = ys}"
    by (simp add: card_image card_cartesian_product)
  then show ?case using Cons by simp
qed

section \<open>Properties\<close>

text \<open>C38: User codes are uniform. Drawing a code succeeds whenever the random source does and gives
  two groups of four symbols joined by a dash; and of the sequences of eight random bytes exactly
  \<open>8 ^ 8\<close> give any one code, so every code is equally likely.\<close>

theorem user_codes_uniform:
  assumes "\<not> w_rfail w (w_rpos w)" and "wf_code c"
  shows "(\<exists>c' w'. GenerateUserCode w = (Some c', w') \<and> wf_code c') \<and>
    card {bs. length bs = 8 \<and>
      fst (GenerateUserCode (w\<lparr>w_rand := (\<lambda>i. bs ! (i - w_rpos w))\<rparr>)) = Some c} = 8 ^ 8"
proof -
  obtain xs ys where c: "c = xs @ ''-'' @ ys" "length xs = 4" "length ys = 4"
    "set xs \<subseteq> set userCodeAlphabet" "set ys \<subseteq> set userCodeAlphabet"
    using assms(2) by (rule wf_codeE)
  have "fst (GenerateUserCode (w\<lparr>w_rand := (\<lambda>i. bs ! (i - w_rpos w))\<rparr>)) = Some c \<longleftrightarrow>
      map code_symbol bs = xs @ ys" if "length bs = 8" for bs
  proof -
    have "map (\<lambda>i. bs ! i) [0..<8] = bs" using that by (metis map_nth)
    then have "fst (GenerateUserCode (w\<lparr>w_rand := (\<lambda>i. bs ! (i - w_rpos w))\<rparr>)) =
        Some (take 4 (map code_symbol bs) @ ''-'' @ drop 4 (map code_symbol bs))"
      using assms(1) by (simp add: GenerateUserCode_def rand_Read_def Let_def)
    moreover have "take 4 (map code_symbol bs) @ ''-'' @ drop 4 (map code_symbol bs) = c \<longleftrightarrow>
        take 4 (map code_symbol bs) = xs \<and> drop 4 (map code_symbol bs) = ys"
      using c(1,2) that by (simp add: append_eq_append_conv)
    moreover have "take 4 (map code_symbol bs) = xs \<and> drop 4 (map code_symbol bs) = ys \<longleftrightarrow>
        map code_symbol bs = xs @ ys"
      using c(2) append_eq_conv_conj [of xs ys "map code_symbol bs"] by auto
    ultimately show ?thesis by simp
  qed
  moreover have "map code_symbol bs = xs @ ys \<Longrightarrow> length bs = 8" for bs
    using c(2,3) by (auto dest: arg_cong [where f = length])
  ultimately have "{bs. length bs = 8 \<and>
      fst (GenerateUserCode (w\<lparr>w_rand := (\<lambda>i. bs ! (i - w_rpos w))\<rparr>)) = Some c} =
      {bs. map code_symbol bs = xs @ ys}"
    by blast
  moreover have "card {bs. map code_symbol bs = xs @ ys} = 8 ^ length (xs @ ys)"
  proof (rule card_map_preimage)
    fix y assume "y \<in> set (xs @ ys)"
    then have "y \<in> set userCodeAlphabet" using c(4,5) by auto
    then obtain k where "k < 32" "y = userCodeAlphabet ! k"
      by (metis in_set_conv_nth length_userCodeAlphabet)
    then show "card {b :: byte. code_symbol b = y} = 8" using code_symbol_uniform_idx by simp
  qed
  moreover have "\<exists>c' w'. GenerateUserCode w = (Some c', w')"
    using assms(1) by (simp add: GenerateUserCode_def rand_Read_def Let_def)
  ultimately show ?thesis using c(2,3) GenerateUserCode_wf by auto
qed

theorem user_codes_uniform_witness:
  "(let w = \<lparr>w_rand = (\<lambda>i. of_nat i), w_rfail = (\<lambda>_. False), w_rpos = 0, w_clock = int, w_tick = 0\<rparr> in
    (\<exists>c' w'. GenerateUserCode w = (Some c', w') \<and> wf_code c') \<and>
    card {bs. length bs = 8 \<and>
      fst (GenerateUserCode (w\<lparr>w_rand := (\<lambda>i. bs ! (i - w_rpos w))\<rparr>)) = Some ''ABCD-2345''} = 8 ^ 8)"
  unfolding Let_def
  by (rule user_codes_uniform) (simp, code_simp)

text \<open>The code comparison is exact on codes and lenient on typing. Two generated codes are accepted
  for each other only if they are equal; the code typed in lower case, or without its dash, is
  accepted.\<close>

theorem code_comparison:
  assumes "wf_code c" and "wf_code c'"
  shows "(codesEqual u c c' \<longleftrightarrow> c = c') \<and> codesEqual u (map ascii_lower c) c \<and>
    codesEqual u (take 4 c @ drop 5 c) c"
proof -
  obtain xs ys where c: "c = xs @ ''-'' @ ys" "length xs = 4" "length ys = 4"
    "set xs \<subseteq> set userCodeAlphabet" "set ys \<subseteq> set userCodeAlphabet"
    using assms(1) by (rule wf_codeE)
  obtain xs' ys' where c': "c' = xs' @ ''-'' @ ys'" "length xs' = 4" "length ys' = 4"
    using assms(2) by (rule wf_codeE)
  have nc: "normalizeUserCode u c = xs @ ys" "normalizeUserCode u c' = xs' @ ys'"
    "normalizeUserCode u (map ascii_lower c) = xs @ ys"
    using normalize_wf_code [OF assms(1), of u] normalize_wf_code [OF assms(2), of u]
      normalize_lower [OF assms(1), of u] c(1-3) c' by simp_all
  have "xs \<noteq> []" "ys \<noteq> []" using c(2,3) by auto
  then have "normalizeUserCode u (xs @ ys) = xs @ ys"
    using normalize_groups [of xs ys "''''" u] c(4,5) by simp
  then have "normalizeUserCode u (take 4 c @ drop 5 c) = xs @ ys"
    using c(1-3) by simp
  then show ?thesis
    unfolding codesEqual_iff nc using c(1,2) c'(1,2) by simp
qed

theorem code_comparison_witness:
  "(codesEqual \<lparr>uni_ToUpper = (\<lambda>s. s), uni_ToLower = (\<lambda>s. s)\<rparr> ''ABCD-2345'' ''ABCD-2346'' \<longleftrightarrow> ''ABCD-2345'' = ''ABCD-2346'') \<and>
    codesEqual \<lparr>uni_ToUpper = (\<lambda>s. s), uni_ToLower = (\<lambda>s. s)\<rparr> (map ascii_lower ''ABCD-2345'') ''ABCD-2345'' \<and>
    codesEqual \<lparr>uni_ToUpper = (\<lambda>s. s), uni_ToLower = (\<lambda>s. s)\<rparr> (take 4 ''ABCD-2345'' @ drop 5 ''ABCD-2345'') ''ABCD-2345''"
  by (rule code_comparison) (code_simp, code_simp)

text \<open>C39: Check 1 is PKCE's S256. Against the challenge of a verifier, a verifier passes exactly when it is not empty and has the
  same SHA-256 digest: nothing is lost in the encoding of the digest. And the digest and its encoding are the ones of
  the standard: the verifier of the example in RFC 7636 passes against the challenge given there.\<close>

theorem pkce_check_compares_digests:
  "(verifyClientPKCE v (S256 v') \<longleftrightarrow> v \<noteq> '''' \<and> sha256_Sum256 (bytes_of v) = sha256_Sum256 (bytes_of v')) \<and>
   verifyClientPKCE ''dBjftJeZ4CVP-mB92K27uhbUJU1p1r_wW1gFWFOEjXk'' ''E9Melhoa2OwvFrEMTJguCHaoeK1t8URWbuGJSstw-cM''"
proof
  show "verifyClientPKCE v (S256 v') \<longleftrightarrow> v \<noteq> '''' \<and> sha256_Sum256 (bytes_of v) = sha256_Sum256 (bytes_of v')"
    by (auto simp: verifyClientPKCE_iff S256_def)
  have "S256 ''dBjftJeZ4CVP-mB92K27uhbUJU1p1r_wW1gFWFOEjXk'' = ''E9Melhoa2OwvFrEMTJguCHaoeK1t8URWbuGJSstw-cM''"
    by code_simp
  then show "verifyClientPKCE ''dBjftJeZ4CVP-mB92K27uhbUJU1p1r_wW1gFWFOEjXk'' ''E9Melhoa2OwvFrEMTJguCHaoeK1t8URWbuGJSstw-cM''"
    by (simp add: verifyClientPKCE_iff)
qed

end
