(* ===== verification/Store.thy ===== *)
theory Store
  imports XPrelude
begin

text \<open>
  Package \<open>internal/store\<close>: the session model (\<open>store.go\<close>), the \<open>Store\<close> interface as a record
  of operations, and the in-memory implementation \<open>Memory\<close>. The locale \<open>session_store\<close> states
  what the broker relies on in a store; \<open>Memory\<close> is interpreted as one, and keeps the sessions
  of an abstract map exactly. The Redis implementation is in theory \<open>Redis\<close>.
\<close>

section \<open>The session model\<close>

text \<open>A Go value of type \<open>any\<close>: decoded JSON, or the \<open>[]string\<close> that package saml stores.\<close>

datatype goany =
    ANil
  | ABool bool
  | AFloat "64 word"
  | AStr string
  | AArr "goany list"
  | AObj "(string \<times> goany) list"
  | AStrs "string list"

type_synonym claims = "string \<rightharpoonup> goany"

datatype state =
    StatePending
  | StateAwaitingApproval
  | StateApproved
  | StateDenied
  | StateExpired

datatype store_error = ErrNotFound | StoreErr string

record identity =
  id_Subject :: string
  id_Value :: string
  id_Claims :: claims

record session =
  s_ID :: string
  s_LoginHint :: string
  s_CodeChallenge :: string
  s_ClientKind :: string
  s_ClientHost :: string
  s_ClientIP :: string
  s_VerifiedClient :: string
  s_Interval :: duration
  s_CreatedAt :: time
  s_ExpiresAt :: time
  s_UserCode :: string
  s_Protocol :: string
  s_IdPState :: string
  s_IdPNonce :: string
  s_IdPPKCEVerifier :: string
  s_SAMLRequestID :: string
  s_Identity :: "identity option"
  s_IdentityAt :: time
  s_ApproveAttempts :: int
  s_CSRFToken :: string
  s_ApprovalBindingHash :: string
  s_LastPollAt :: time
  s_State :: state
  s_Consumed :: bool

section \<open>The Store interface\<close>

text \<open>
  The operations of the Go interface. Each takes the instant at which it runs (an implementation
  may read the clock) and the store's own state; the context argument is not modelled. \<open>Close\<close>
  gives \<open>None\<close> where the Go call panics.
\<close>

record 'st store_ops =
  st_Create :: "session \<Rightarrow> time \<Rightarrow> 'st \<Rightarrow> store_error option \<times> 'st"
  st_Get :: "string \<Rightarrow> time \<Rightarrow> 'st \<Rightarrow> store_error + session"
  st_Update :: "session \<Rightarrow> time \<Rightarrow> 'st \<Rightarrow> store_error option \<times> 'st"
  st_Close :: "'st \<Rightarrow> 'st option"

section \<open>Memory\<close>

record memory =
  m_sessions :: "string \<rightharpoonup> session"
  m_stopped :: bool

definition NewMemory :: memory where
  "NewMemory = \<lparr>m_sessions = Map.empty, m_stopped = False\<rparr>"

text \<open>\<open>sweep\<close> evicts the sessions past twice their own TTL.\<close>

definition sweep_deadline :: "session \<Rightarrow> time" where
  "sweep_deadline s = time_Add (s_ExpiresAt s) (time_Sub (s_ExpiresAt s) (s_CreatedAt s))"

definition memory_sweep :: "time \<Rightarrow> memory \<Rightarrow> memory" where
  "memory_sweep now m =
     m\<lparr>m_sessions := (\<lambda>sid. case m_sessions m sid of
                        None \<Rightarrow> None
                      | Some s \<Rightarrow> if time_After now (sweep_deadline s) then None else Some s)\<rparr>"

text \<open>The goroutine of \<open>NewMemory\<close>: it sweeps on every tick until the stop channel is closed.\<close>

datatype sweep_event = SweepTick time | SweepStop

fun memory_sweepLoop :: "sweep_event list \<Rightarrow> memory \<Rightarrow> memory" where
  "memory_sweepLoop [] m = m"
| "memory_sweepLoop (SweepTick now # es) m = memory_sweepLoop es (memory_sweep now m)"
| "memory_sweepLoop (SweepStop # es) m = m"

definition memory_Create :: "session \<Rightarrow> time \<Rightarrow> memory \<Rightarrow> store_error option \<times> memory" where
  "memory_Create s now m = (None, m\<lparr>m_sessions := (m_sessions m)(s_ID s \<mapsto> s)\<rparr>)"

definition memory_Get :: "string \<Rightarrow> time \<Rightarrow> memory \<Rightarrow> store_error + session" where
  "memory_Get sid now m =
     (case m_sessions m sid of None \<Rightarrow> Inl ErrNotFound | Some s \<Rightarrow> Inr s)"

definition memory_Update :: "session \<Rightarrow> time \<Rightarrow> memory \<Rightarrow> store_error option \<times> memory" where
  "memory_Update s now m =
     (case m_sessions m (s_ID s) of
        None \<Rightarrow> (Some ErrNotFound, m)
      | Some _ \<Rightarrow> (None, m\<lparr>m_sessions := (m_sessions m)(s_ID s \<mapsto> s)\<rparr>))"

text \<open>\<open>Close\<close> closes the stop channel; closing it twice panics.\<close>

definition memory_Close :: "memory \<Rightarrow> memory option" where
  "memory_Close m = (if m_stopped m then None else Some (m\<lparr>m_stopped := True\<rparr>))"

definition Memory :: "memory store_ops" where
  "Memory = \<lparr>st_Create = memory_Create, st_Get = memory_Get,
             st_Update = memory_Update, st_Close = memory_Close\<rparr>"

lemmas memory_defs = memory_Create_def memory_Get_def memory_Update_def Memory_def

section \<open>What the broker relies on in a store\<close>

text \<open>
  \<open>stored\<close> is the content of a store as a map from ids to sessions. A lookup that succeeds
  returns the content at the id, up to the representation \<open>cn\<close> of the claims (JSON does not keep
  the type of a claim). A write that succeeds sets the entry at the session's id and no other;
  an update needs the entry to exist; a write that fails sets that entry or none.
\<close>

definition canon_session :: "(claims \<Rightarrow> claims) \<Rightarrow> session \<Rightarrow> session" where
  "canon_session cn s =
     s\<lparr>s_Identity := map_option (\<lambda>i. i\<lparr>id_Claims := cn (id_Claims i)\<rparr>) (s_Identity s)\<rparr>"

lemma canon_session_id [simp]: "canon_session (\<lambda>c. c) s = s"
  by (simp add: canon_session_def option.map_ident)

locale session_store =
  fixes S :: "'st store_ops"
    and stored :: "'st \<Rightarrow> string \<rightharpoonup> session"
    and cn :: "claims \<Rightarrow> claims"
  assumes get_stored: "st_Get S sid t st = Inr s \<Longrightarrow> stored st sid = Some s"
    and create_ok: "st_Create S s t st = (None, st') \<Longrightarrow>
      stored st' = (stored st)(s_ID s \<mapsto> canon_session cn s)"
    and create_err: "st_Create S s t st = (Some e, st') \<Longrightarrow>
      stored st' = stored st \<or> stored st' = (stored st)(s_ID s \<mapsto> canon_session cn s)"
    and update_ok: "st_Update S s t st = (None, st') \<Longrightarrow>
      s_ID s \<in> dom (stored st) \<and> stored st' = (stored st)(s_ID s \<mapsto> canon_session cn s)"
    and update_err: "st_Update S s t st = (Some e, st') \<Longrightarrow>
      stored st' = stored st \<or> stored st' = (stored st)(s_ID s \<mapsto> canon_session cn s)"
begin

text \<open>A write changes the content at most at the id of the session written.\<close>

lemma create_frame: "sid \<noteq> s_ID s \<Longrightarrow> stored (snd (st_Create S s t st)) sid = stored st sid"
  by (cases "st_Create S s t st"; cases "fst (st_Create S s t st)")
    (auto dest!: create_ok create_err)

lemma update_frame: "sid \<noteq> s_ID s \<Longrightarrow> stored (snd (st_Update S s t st)) sid = stored st sid"
  by (cases "st_Update S s t st"; cases "fst (st_Update S s t st)")
    (auto dest!: update_ok update_err)

lemma create_content:
  "stored (snd (st_Create S s t st)) sid = Some x \<Longrightarrow>
     stored st sid = Some x \<or> (sid = s_ID s \<and> x = canon_session cn s)"
  by (cases "st_Create S s t st"; cases "fst (st_Create S s t st)")
    (auto dest!: create_ok create_err split: if_splits)

lemma update_content:
  "stored (snd (st_Update S s t st)) sid = Some x \<Longrightarrow>
     stored st sid = Some x \<or> (sid = s_ID s \<and> x = canon_session cn s)"
  by (cases "st_Update S s t st"; cases "fst (st_Update S s t st)")
    (auto dest!: update_ok update_err split: if_splits)

text \<open>A property of sessions that every written session has, every stored session has.\<close>

lemma create_all:
  assumes "\<forall>sid x. stored st sid = Some x \<longrightarrow> P sid x" and "P (s_ID s) (canon_session cn s)"
  shows "\<forall>sid x. stored (snd (st_Create S s t st)) sid = Some x \<longrightarrow> P sid x"
  using assms create_content by blast

lemma update_all:
  assumes "\<forall>sid x. stored st sid = Some x \<longrightarrow> P sid x" and "P (s_ID s) (canon_session cn s)"
  shows "\<forall>sid x. stored (snd (st_Update S s t st)) sid = Some x \<longrightarrow> P sid x"
  using assms update_content by blast

end

text \<open>
  A store that does not fail: it keeps the claims as they are, finds what it holds, and writes when
  asked to.
\<close>

locale reliable_store = session_store S stored "\<lambda>c. c"
  for S :: "'st store_ops" and stored :: "'st \<Rightarrow> string \<rightharpoonup> session" +
  assumes get_total: "stored st sid = Some s \<Longrightarrow> st_Get S sid t st = Inr s"
    and create_total: "fst (st_Create S s t st) = None"
    and update_total: "s_ID s \<in> dom (stored st) \<Longrightarrow> fst (st_Update S s t st) = None"
begin

lemma get_iff: "st_Get S sid t st = Inr s \<longleftrightarrow> stored st sid = Some s"
  using get_stored get_total by blast

lemma create_stored: "stored (snd (st_Create S s t st)) = (stored st)(s_ID s \<mapsto> s)"
  using create_ok [of s t st] create_total [of s t st]
  by (cases "st_Create S s t st") simp

lemma update_stored:
  "s_ID s \<in> dom (stored st) \<Longrightarrow> stored (snd (st_Update S s t st)) = (stored st)(s_ID s \<mapsto> s)"
  using update_ok [of s t st] update_total [of s st t]
  by (cases "st_Update S s t st") simp

end

interpretation mem: session_store Memory m_sessions "\<lambda>c. c"
  by unfold_locales (auto simp: memory_defs split: option.splits)

interpretation mem: reliable_store Memory m_sessions
  by unfold_locales (auto simp: memory_defs split: option.splits)

section \<open>Properties\<close>

text \<open>The instants at which the goroutine sweeps: the ticks before the stop.\<close>

fun sweep_times :: "sweep_event list \<Rightarrow> time list" where
  "sweep_times [] = []"
| "sweep_times (SweepTick now # es) = now # sweep_times es"
| "sweep_times (SweepStop # es) = []"

lemma memory_sweep_lookup:
  "m_sessions (memory_sweep now m) sid = Some s \<longleftrightarrow>
     m_sessions m sid = Some s \<and> now \<le> sweep_deadline s"
  by (auto simp: memory_sweep_def time_After_def split: option.splits)

lemma sweepLoop_lookup:
  "m_sessions (memory_sweepLoop es m) sid = Some s \<longleftrightarrow>
     m_sessions m sid = Some s \<and> (\<forall>now \<in> set (sweep_times es). now \<le> sweep_deadline s)"
  by (induction es m rule: memory_sweepLoop.induct) (auto simp: memory_sweep_lookup)

lemma sweep_deadline_ge:
  "s_CreatedAt s \<le> s_ExpiresAt s \<Longrightarrow> s_ExpiresAt s \<le> sweep_deadline s"
  by (simp add: sweep_deadline_def time_Add_def time_Sub_def maxInt64_def minInt64_def)

text \<open>C40: Eviction is invisible. Whatever the ticks of the sweeper, a session that has not expired at
  any of them stays in the store unchanged, sweeping brings no session in, and a session with a
  lifetime of at most 292 years is dropped only once a tick is past twice its lifetime.\<close>

theorem sweep_drops_only_long_expired:
  assumes "m_sessions m sid = Some s" and "s_CreatedAt s \<le> s_ExpiresAt s"
    and "s_ExpiresAt s - s_CreatedAt s \<le> maxInt64"
  shows "((\<forall>now \<in> set (sweep_times es). now \<le> s_ExpiresAt s) \<longrightarrow>
      m_sessions (memory_sweepLoop es m) sid = Some s) \<and>
    m_sessions (memory_sweepLoop es m) \<subseteq>\<^sub>m m_sessions m \<and>
    (m_sessions (memory_sweepLoop es m) sid = None \<longleftrightarrow>
      (\<exists>now \<in> set (sweep_times es). 2 * (s_ExpiresAt s - s_CreatedAt s) < now - s_CreatedAt s))"
proof -
  have keep: "m_sessions (memory_sweepLoop es m) sid = Some s \<longleftrightarrow>
      (\<forall>now \<in> set (sweep_times es). now \<le> sweep_deadline s)"
    using assms(1) by (simp add: sweepLoop_lookup)
  have sub: "m_sessions (memory_sweepLoop es m) \<subseteq>\<^sub>m m_sessions m"
    by (auto simp: map_le_def dom_def sweepLoop_lookup)
  have "m_sessions (memory_sweepLoop es m) sid = None \<longleftrightarrow>
      m_sessions (memory_sweepLoop es m) sid \<noteq> Some s"
    using sub assms(1) by (auto simp: map_le_def dom_def)
  moreover have "sweep_deadline s = s_ExpiresAt s + (s_ExpiresAt s - s_CreatedAt s)"
    using assms(2,3) by (simp add: sweep_deadline_def time_Add_def time_Sub_def minInt64_def)
  ultimately show ?thesis
    using keep sub sweep_deadline_ge [OF assms(2)] by (force simp: not_le)
qed

definition demo_stored :: session where
  "demo_stored = \<lparr>s_ID = ''s1'', s_LoginHint = ''alice'', s_CodeChallenge = ''c'', s_ClientKind = ''cli'',
     s_ClientHost = ''h'', s_ClientIP = ''10.0.0.1'', s_VerifiedClient = '''', s_Interval = 3 * second,
     s_CreatedAt = 1000 * second, s_ExpiresAt = 1300 * second, s_UserCode = ''ABCD-2345'',
     s_Protocol = '''', s_IdPState = '''', s_IdPNonce = '''', s_IdPPKCEVerifier = '''',
     s_SAMLRequestID = '''', s_Identity = None, s_IdentityAt = 0, s_ApproveAttempts = 0,
     s_CSRFToken = '''', s_ApprovalBindingHash = '''', s_LastPollAt = 0, s_State = StatePending,
     s_Consumed = False\<rparr>"

theorem sweep_drops_only_long_expired_witness:
  "(let m = snd (memory_Create demo_stored (1000 * second) NewMemory);
        es = [SweepTick (1060 * second), SweepTick (1601 * second), SweepStop] in
    ((\<forall>now \<in> set (sweep_times es). now \<le> s_ExpiresAt demo_stored) \<longrightarrow>
      m_sessions (memory_sweepLoop es m) ''s1'' = Some demo_stored) \<and>
    m_sessions (memory_sweepLoop es m) \<subseteq>\<^sub>m m_sessions m \<and>
    (m_sessions (memory_sweepLoop es m) ''s1'' = None \<longleftrightarrow>
      (\<exists>now \<in> set (sweep_times es).
         2 * (s_ExpiresAt demo_stored - s_CreatedAt demo_stored) < now - s_CreatedAt demo_stored)))"
  unfolding Let_def
  by (rule sweep_drops_only_long_expired)
    (simp_all add: memory_Create_def NewMemory_def demo_stored_def maxInt64_def)

text \<open>\<open>Memory\<close> behaves as a map. A lookup after a creation or an update finds what was written at
  that id and what was there before at any other; updating an id that is not stored is an error
  that changes nothing; and after an update every id that was stored still is.\<close>

theorem memory_is_a_map:
  "st_Get Memory sid t' (snd (st_Create Memory s t m)) =
     (if sid = s_ID s then Inr s else st_Get Memory sid t' m) \<and>
   st_Get Memory sid t' (snd (st_Update Memory s t m)) =
     (if sid = s_ID s \<and> sid \<in> dom (m_sessions m) then Inr s else st_Get Memory sid t' m) \<and>
   (fst (st_Update Memory s t m) = (if s_ID s \<in> dom (m_sessions m) then None else Some ErrNotFound)) \<and>
   fst (st_Create Memory s t m) = None \<and>
   dom (m_sessions (snd (st_Update Memory s t m))) = dom (m_sessions m)"
  by (auto simp: memory_defs split: option.splits)

end
