(* ===== verification/Session.thy ===== *)
theory Session
  imports Codes Store
begin

text \<open>
  \<open>internal/broker/session.go\<close>: the session state machine and its checks. Each Go function that
  mutates \<open>*store.Session\<close> becomes a function that returns the new session beside its result; the
  clock is an argument, as in the source. Theory \<open>Session_Props\<close> runs the operations in sequence
  and states the properties of whole histories.
\<close>

section \<open>Errors, identity normalisation, random identifiers\<close>

datatype sess_error =
    ErrExpired
  | ErrConsumed
  | ErrWrongState
  | ErrInvalidVerifier
  | ErrIdentityMismatch
  | ErrApprovalNotBound
  | ErrTooManyCodes
  | ErrIncorrectCode
  | ErrRand

type_synonym normalizer = "string \<Rightarrow> string"

definition defaultNormalizer :: "unicode_tables \<Rightarrow> normalizer" where
  "defaultNormalizer u s = strings_ToLower u (strings_TrimSpace s)"

text \<open>The nil check of \<open>bindIdentity\<close>: an unset normalizer means the default one.\<close>

definition normalizer_or_default :: "unicode_tables \<Rightarrow> normalizer option \<Rightarrow> normalizer" where
  "normalizer_or_default u n = (case n of None \<Rightarrow> defaultNormalizer u | Some f \<Rightarrow> f)"

definition random_hex :: "nat \<Rightarrow> world \<Rightarrow> string option \<times> world" where
  "random_hex n w =
     (case rand_Read n w of
        (None, w') \<Rightarrow> (None, w')
      | (Some b, w') \<Rightarrow> (Some (hex_EncodeToString b), w'))"

definition newSessionID :: "world \<Rightarrow> string option \<times> world" where
  "newSessionID w = random_hex 16 w"

definition newCSRFToken :: "world \<Rightarrow> string option \<times> world" where
  "newCSRFToken w = random_hex 24 w"

definition newApprovalSecret :: "world \<Rightarrow> string option \<times> world" where
  "newApprovalSecret w = random_hex 24 w"

definition hashBinding :: "string \<Rightarrow> string" where
  "hashBinding secret = hex_EncodeToString (sha256_Sum256 (bytes_of secret))"

section \<open>Creation and expiry\<close>

record StartParams =
  sp_LoginHint :: string
  sp_CodeChallenge :: string
  sp_ClientKind :: string
  sp_ClientHost :: string
  sp_ClientIP :: string
  sp_VerifiedClient :: string

definition newSession :: "StartParams \<Rightarrow> duration \<Rightarrow> duration \<Rightarrow> world \<Rightarrow> session option \<times> world" where
  "newSession p ttl interval w =
     (case newSessionID w of
        (None, w1) \<Rightarrow> (None, w1)
      | (Some sid, w1) \<Rightarrow>
        (case GenerateUserCode w1 of
           (None, w2) \<Rightarrow> (None, w2)
         | (Some code, w2) \<Rightarrow>
             let (now, w3) = time_Now w2 in
             (Some \<lparr>s_ID = sid,
                    s_LoginHint = sp_LoginHint p,
                    s_CodeChallenge = sp_CodeChallenge p,
                    s_ClientKind = sp_ClientKind p,
                    s_ClientHost = sp_ClientHost p,
                    s_ClientIP = sp_ClientIP p,
                    s_VerifiedClient = sp_VerifiedClient p,
                    s_Interval = interval,
                    s_CreatedAt = now,
                    s_ExpiresAt = time_Add now ttl,
                    s_UserCode = code,
                    s_Protocol = '''',
                    s_IdPState = '''',
                    s_IdPNonce = '''',
                    s_IdPPKCEVerifier = '''',
                    s_SAMLRequestID = '''',
                    s_Identity = None,
                    s_IdentityAt = 0,
                    s_ApproveAttempts = 0,
                    s_CSRFToken = '''',
                    s_ApprovalBindingHash = '''',
                    s_LastPollAt = 0,
                    s_State = StatePending,
                    s_Consumed = False\<rparr>, w3)))"

definition isExpired :: "session \<Rightarrow> time \<Rightarrow> bool" where
  "isExpired s now = time_After now (s_ExpiresAt s)"

fun isTerminal :: "state \<Rightarrow> bool" where
  "isTerminal StateApproved = True"
| "isTerminal StateDenied = True"
| "isTerminal StateExpired = True"
| "isTerminal _ = False"

definition expireIfNeeded :: "session \<Rightarrow> time \<Rightarrow> bool \<times> session" where
  "expireIfNeeded s now =
     (if s_State s = StateExpired then (True, s)
      else if isTerminal (s_State s) then (False, s)
      else if isExpired s now then (True, s\<lparr>s_State := StateExpired\<rparr>)
      else (False, s))"

section \<open>Binding the identity (check 4)\<close>

definition bindIdentity ::
  "unicode_tables \<Rightarrow> normalizer option \<Rightarrow> identity \<Rightarrow> time \<Rightarrow> string \<Rightarrow> session \<Rightarrow> world
     \<Rightarrow> sess_error option \<times> session \<times> world" where
  "bindIdentity u nz ident now approvalBindingHash s0 w =
     (let (expired, s) = expireIfNeeded s0 now in
      if expired then (Some ErrExpired, s, w)
      else if s_State s \<noteq> StatePending then (Some ErrWrongState, s, w)
      else
        let nrm = normalizer_or_default u nz;
            s1 = s\<lparr>s_Identity := Some ident, s_IdentityAt := now\<rparr> in
        if nrm (id_Value ident) \<noteq> nrm (s_LoginHint s1)
        then (Some ErrIdentityMismatch, s1\<lparr>s_State := StateDenied\<rparr>, w)
        else
          (case newCSRFToken w of
             (None, w') \<Rightarrow> (Some ErrRand, s1, w')
           | (Some token, w') \<Rightarrow>
               (None, s1\<lparr>s_CSRFToken := token,
                         s_ApprovalBindingHash := approvalBindingHash,
                         s_State := StateAwaitingApproval\<rparr>, w')))"

section \<open>Approving (check 2)\<close>

definition maxApproveAttempts :: int where
  "maxApproveAttempts = 5"

definition approve ::
  "unicode_tables \<Rightarrow> string \<Rightarrow> bool \<Rightarrow> time \<Rightarrow> string \<Rightarrow> session \<Rightarrow> sess_error option \<times> session" where
  "approve u submittedCode decisionApprove now presentedBinding s0 =
     (let (expired, s) = expireIfNeeded s0 now in
      if expired then (Some ErrExpired, s)
      else if s_State s \<noteq> StateAwaitingApproval then (Some ErrWrongState, s)
      else if s_ApprovalBindingHash s = '''' \<or>
              subtle_ConstantTimeCompare (bytes_of (hashBinding presentedBinding))
                (bytes_of (s_ApprovalBindingHash s)) \<noteq> 1
      then (Some ErrApprovalNotBound, s)
      else if \<not> decisionApprove then (None, s\<lparr>s_State := StateDenied\<rparr>)
      else if codesEqual u submittedCode (s_UserCode s) then (None, s\<lparr>s_State := StateApproved\<rparr>)
      else
        let s1 = s\<lparr>s_ApproveAttempts := wrap64 (s_ApproveAttempts s + 1)\<rparr> in
        if s_ApproveAttempts s1 \<ge> maxApproveAttempts
        then (Some ErrTooManyCodes, s1\<lparr>s_State := StateDenied\<rparr>)
        else (Some ErrIncorrectCode, s1))"

section \<open>Polling (check 1 and single use)\<close>

datatype PollStatus = PollPending | PollApproved | PollDenied | PollExpired | PollSlowDown

record Artifact =
  a_Subject :: string
  a_Identity :: string
  a_Claims :: claims
  a_ApprovedAt :: time
  a_ExpiresAt :: time

record PollResult =
  pr_Status :: PollStatus
  pr_Artifact :: "Artifact option"

text \<open>\<open>poll\<close> dereferences \<open>s.Identity\<close>; on a nil pointer the Go code panics.\<close>

datatype poll_outcome = PollReturn PollResult | PollError sess_error | PollPanic

definition poll_status :: "PollStatus \<Rightarrow> poll_outcome" where
  "poll_status st = PollReturn \<lparr>pr_Status = st, pr_Artifact = None\<rparr>"

definition poll :: "string \<Rightarrow> time \<Rightarrow> duration \<Rightarrow> session \<Rightarrow> poll_outcome \<times> session" where
  "poll codeVerifier now artifactTTL s0 =
     (let (expired, s) = expireIfNeeded s0 now in
      if expired then (poll_status PollExpired, s)
      else if s_State s = StateApproved then
        (if s_Consumed s then (poll_status PollExpired, s)
         else if \<not> verifyClientPKCE codeVerifier (s_CodeChallenge s)
         then (PollError ErrInvalidVerifier, s)
         else
           let s1 = s\<lparr>s_Consumed := True\<rparr> in
           (case s_Identity s1 of
              None \<Rightarrow> (PollPanic, s1)
            | Some ident \<Rightarrow>
                (PollReturn
                   \<lparr>pr_Status = PollApproved,
                    pr_Artifact = Some \<lparr>a_Subject = id_Subject ident,
                                         a_Identity = id_Value ident,
                                         a_Claims = id_Claims ident,
                                         a_ApprovedAt = s_IdentityAt s1,
                                         a_ExpiresAt = time_Add (s_IdentityAt s1) artifactTTL\<rparr>\<rparr>,
                 s1)))
      else if \<not> verifyClientPKCE codeVerifier (s_CodeChallenge s)
      then (PollError ErrInvalidVerifier, s)
      else if \<not> time_IsZero (s_LastPollAt s) \<and> time_Sub now (s_LastPollAt s) < s_Interval s
      then (poll_status PollSlowDown, s)
      else
        let s1 = s\<lparr>s_LastPollAt := now\<rparr> in
        (case s_State s1 of
           StateDenied \<Rightarrow> (poll_status PollDenied, s1)
         | StateExpired \<Rightarrow> (poll_status PollExpired, s1)
         | _ \<Rightarrow> (poll_status PollPending, s1)))"

text \<open>The artifact a poll hands out, if it hands out one.\<close>

definition released :: "poll_outcome \<Rightarrow> Artifact option" where
  "released r = (case r of PollReturn p \<Rightarrow> pr_Artifact p | _ \<Rightarrow> None)"

section \<open>Lemmas: each operation, branch by branch\<close>

lemmas session_defs =
  expireIfNeeded_def bindIdentity_def approve_def poll_def Let_def

lemma length_hashBinding [simp]: "length (hashBinding p) = 64"
  by (simp add: hashBinding_def)

lemma hashBinding_nonempty [simp]: "hashBinding p \<noteq> ''''" "'''' \<noteq> hashBinding p"
proof -
  have "length (hashBinding p) \<noteq> 0" by simp
  then show "hashBinding p \<noteq> ''''" "'''' \<noteq> hashBinding p" by (metis list.size(3))+
qed

lemma random_hex_length: "random_hex n w = (Some t, w') \<Longrightarrow> length t = 2 * n"
  by (auto simp: random_hex_def split: prod.splits option.splits dest: rand_Read_length)

lemma newCSRFToken_nonempty: "newCSRFToken w = (Some t, w') \<Longrightarrow> t \<noteq> ''''"
  by (auto simp: newCSRFToken_def dest: random_hex_length)

lemma newApprovalSecret_nonempty: "newApprovalSecret w = (Some t, w') \<Longrightarrow> t \<noteq> ''''"
  by (auto simp: newApprovalSecret_def dest: random_hex_length)

lemma isTerminal_iff:
  "isTerminal st \<longleftrightarrow> st = StateApproved \<or> st = StateDenied \<or> st = StateExpired"
  by (cases st) auto

lemma expireIfNeeded_cases:
  obtains (already) "s_State s = StateExpired" "expireIfNeeded s now = (True, s)"
  | (terminal) "s_State s = StateApproved \<or> s_State s = StateDenied" "expireIfNeeded s now = (False, s)"
  | (expires) "s_State s = StatePending \<or> s_State s = StateAwaitingApproval" "s_ExpiresAt s < now"
      "expireIfNeeded s now = (True, s\<lparr>s_State := StateExpired\<rparr>)"
  | (live) "s_State s = StatePending \<or> s_State s = StateAwaitingApproval" "now \<le> s_ExpiresAt s"
      "expireIfNeeded s now = (False, s)"
  by (cases "s_State s"; cases "now \<le> s_ExpiresAt s")
    (auto simp: expireIfNeeded_def isExpired_def go_simps)

lemma state_update_same: "s_State s = x \<Longrightarrow> s\<lparr>s_State := x\<rparr> = s"
  by (cases s) simp

text \<open>
  Inversion of the three operations: every way a call can end, with what it requires and what it
  leaves. The proofs about histories and handlers use these instead of the definitions.
\<close>

lemma bindIdentity_cases:
  assumes "bindIdentity u nz ident now h s w = (r, s', w')"
  obtains (expired) "r = Some ErrExpired" "s' = s\<lparr>s_State := StateExpired\<rparr>"
      "s_State s = StateExpired \<or>
       (s_State s = StatePending \<or> s_State s = StateAwaitingApproval) \<and> s_ExpiresAt s < now"
  | (wrong_state) "r = Some ErrWrongState" "s' = s"
      "s_State s = StateAwaitingApproval \<or> s_State s = StateApproved \<or> s_State s = StateDenied"
  | (mismatch) "r = Some ErrIdentityMismatch" "s_State s = StatePending" "now \<le> s_ExpiresAt s"
      "normalizer_or_default u nz (id_Value ident) \<noteq> normalizer_or_default u nz (s_LoginHint s)"
      "s' = s\<lparr>s_Identity := Some ident, s_IdentityAt := now, s_State := StateDenied\<rparr>"
  | (no_token) "r = Some ErrRand" "s_State s = StatePending" "now \<le> s_ExpiresAt s"
      "normalizer_or_default u nz (id_Value ident) = normalizer_or_default u nz (s_LoginHint s)"
      "s' = s\<lparr>s_Identity := Some ident, s_IdentityAt := now\<rparr>"
  | (bound) token where "r = None" "s_State s = StatePending" "now \<le> s_ExpiresAt s"
      "normalizer_or_default u nz (id_Value ident) = normalizer_or_default u nz (s_LoginHint s)"
      "token \<noteq> ''''"
      "s' = s\<lparr>s_Identity := Some ident, s_IdentityAt := now, s_CSRFToken := token,
              s_ApprovalBindingHash := h, s_State := StateAwaitingApproval\<rparr>"
proof (cases rule: expireIfNeeded_cases [of s now])
  case already
  then have "r = Some ErrExpired" "s' = s" using assms by (simp_all add: bindIdentity_def)
  then show ?thesis using already(1) state_update_same [OF already(1)] by (intro expired) simp_all
next
  case terminal
  then have "r = Some ErrWrongState" "s' = s" using assms by (auto simp: bindIdentity_def)
  then show ?thesis using terminal(1) by (intro wrong_state) blast+
next
  case expires
  then have "r = Some ErrExpired" "s' = s\<lparr>s_State := StateExpired\<rparr>"
    using assms by (simp_all add: bindIdentity_def)
  then show ?thesis using expires(1,2) by (intro expired) simp_all
next
  case live
  show ?thesis
  proof (cases "s_State s = StatePending")
    case False
    then have "r = Some ErrWrongState" "s' = s" using live assms by (auto simp: bindIdentity_def)
    then show ?thesis using live(1) False by (intro wrong_state) blast+
  next
    case True
    show ?thesis
    proof (cases "normalizer_or_default u nz (id_Value ident) = normalizer_or_default u nz (s_LoginHint s)")
      case False
      with True live assms show ?thesis
        by (intro mismatch) (simp_all add: bindIdentity_def Let_def)
    next
      case match: True
      show ?thesis
      proof (cases "fst (newCSRFToken w)")
        case None
        with True live match assms show ?thesis
          by (intro no_token) (simp_all add: bindIdentity_def Let_def split: prod.splits)
      next
        case (Some tok)
        then have "tok \<noteq> ''''" using newCSRFToken_nonempty [of w tok] by (cases "newCSRFToken w") simp
        with Some True live match assms show ?thesis
          by (intro bound [of tok]) (simp_all add: bindIdentity_def Let_def split: prod.splits)
      qed
    qed
  qed
qed

lemma approve_cases:
  assumes "approve u c d now p s = (r, s')"
  obtains (expired) "r = Some ErrExpired" "s' = s\<lparr>s_State := StateExpired\<rparr>"
      "s_State s = StateExpired \<or>
       (s_State s = StatePending \<or> s_State s = StateAwaitingApproval) \<and> s_ExpiresAt s < now"
  | (wrong_state) "r = Some ErrWrongState" "s' = s"
      "s_State s = StatePending \<or> s_State s = StateApproved \<or> s_State s = StateDenied"
  | (not_bound) "r = Some ErrApprovalNotBound" "s' = s" "s_State s = StateAwaitingApproval"
      "now \<le> s_ExpiresAt s" "hashBinding p \<noteq> s_ApprovalBindingHash s"
  | (denied) "r = None" "\<not> d" "s_State s = StateAwaitingApproval" "now \<le> s_ExpiresAt s"
      "hashBinding p = s_ApprovalBindingHash s" "s' = s\<lparr>s_State := StateDenied\<rparr>"
  | (approved) "r = None" "d" "s_State s = StateAwaitingApproval" "now \<le> s_ExpiresAt s"
      "hashBinding p = s_ApprovalBindingHash s" "codesEqual u c (s_UserCode s)"
      "s' = s\<lparr>s_State := StateApproved\<rparr>"
  | (too_many) "r = Some ErrTooManyCodes" "d" "s_State s = StateAwaitingApproval"
      "now \<le> s_ExpiresAt s" "hashBinding p = s_ApprovalBindingHash s"
      "\<not> codesEqual u c (s_UserCode s)" "wrap64 (s_ApproveAttempts s + 1) \<ge> maxApproveAttempts"
      "s' = s\<lparr>s_ApproveAttempts := wrap64 (s_ApproveAttempts s + 1), s_State := StateDenied\<rparr>"
  | (incorrect) "r = Some ErrIncorrectCode" "d" "s_State s = StateAwaitingApproval"
      "now \<le> s_ExpiresAt s" "hashBinding p = s_ApprovalBindingHash s"
      "\<not> codesEqual u c (s_UserCode s)" "wrap64 (s_ApproveAttempts s + 1) < maxApproveAttempts"
      "s' = s\<lparr>s_ApproveAttempts := wrap64 (s_ApproveAttempts s + 1)\<rparr>"
proof (cases rule: expireIfNeeded_cases [of s now])
  case already
  then have "r = Some ErrExpired" "s' = s" using assms by (simp_all add: approve_def)
  then show ?thesis using already(1) state_update_same [OF already(1)] by (intro expired) simp_all
next
  case terminal
  then have "r = Some ErrWrongState" "s' = s" using assms by (auto simp: approve_def)
  then show ?thesis using terminal(1) by (intro wrong_state) blast+
next
  case expires
  then have "r = Some ErrExpired" "s' = s\<lparr>s_State := StateExpired\<rparr>"
    using assms by (simp_all add: approve_def)
  then show ?thesis using expires(1,2) by (intro expired) simp_all
next
  case live
  show ?thesis
  proof (cases "s_State s = StateAwaitingApproval")
    case False
    then have "r = Some ErrWrongState" "s' = s" using live assms by (auto simp: approve_def)
    then show ?thesis using live(1) False by (intro wrong_state) blast+
  next
    case True
    show ?thesis
    proof (cases "hashBinding p = s_ApprovalBindingHash s")
      case False
      with True live assms show ?thesis by (intro not_bound) (simp_all add: approve_def)
    next
      case bnd: True
      then have ne: "s_ApprovalBindingHash s \<noteq> ''''" by (metis hashBinding_nonempty(1))
      show ?thesis
      proof (cases "\<not> d \<or> codesEqual u c (s_UserCode s)")
        case right: True
        show ?thesis
        proof (cases d)
          case d: True
          with True live bnd ne right assms show ?thesis by (intro approved) (simp_all add: approve_def)
        next
          case d: False
          with True live bnd ne assms show ?thesis by (intro denied) (simp_all add: approve_def)
        qed
      next
        case wrong: False
        show ?thesis
        proof (cases "wrap64 (s_ApproveAttempts s + 1) \<ge> maxApproveAttempts")
          case many: True
          with True live bnd ne wrong assms show ?thesis
            by (intro too_many) (simp_all add: approve_def)
        next
          case few: False
          with True live bnd ne wrong assms show ?thesis
            by (intro incorrect) (simp_all add: approve_def)
        qed
      qed
    qed
  qed
qed

lemma poll_approved_cases:
  assumes "poll v now ttl s = (r, s')" and app: "s_State s = StateApproved"
  obtains (replay) "r = poll_status PollExpired" "s' = s" "s_Consumed s"
  | (bad_verifier) "r = PollError ErrInvalidVerifier" "s' = s" "\<not> s_Consumed s"
      "\<not> verifyClientPKCE v (s_CodeChallenge s)"
  | (panic) "r = PollPanic" "s' = s\<lparr>s_Consumed := True\<rparr>" "\<not> s_Consumed s" "s_Identity s = None"
      "verifyClientPKCE v (s_CodeChallenge s)"
  | (release) ident where "\<not> s_Consumed s"
      "verifyClientPKCE v (s_CodeChallenge s)" "s_Identity s = Some ident"
      "s' = s\<lparr>s_Consumed := True\<rparr>"
      "r = PollReturn \<lparr>pr_Status = PollApproved,
             pr_Artifact = Some \<lparr>a_Subject = id_Subject ident, a_Identity = id_Value ident,
               a_Claims = id_Claims ident, a_ApprovedAt = s_IdentityAt s,
               a_ExpiresAt = time_Add (s_IdentityAt s) ttl\<rparr>\<rparr>"
proof (cases "s_Consumed s \<or> \<not> verifyClientPKCE v (s_CodeChallenge s)")
  case True
  then show ?thesis
  proof (cases "s_Consumed s")
    case cons: True
    with app assms(1) show ?thesis by (intro replay) (simp_all add: poll_def expireIfNeeded_def)
  next
    case fresh: False
    with True app assms(1) show ?thesis
      by (intro bad_verifier) (simp_all add: poll_def expireIfNeeded_def)
  qed
next
  case ok: False
  show ?thesis
  proof (cases "s_Identity s")
    case None
    with ok app assms(1) show ?thesis by (intro panic) (simp_all add: poll_def expireIfNeeded_def)
  next
    case (Some ident)
    with ok app assms(1) show ?thesis
      by (intro release [of ident]) (simp_all add: poll_def expireIfNeeded_def)
  qed
qed

lemma poll_open_cases:
  assumes "poll v now ttl s = (r, s')" and "expireIfNeeded s now = (False, s)"
    and "s_State s \<noteq> StateApproved"
  obtains (bad_verifier) "r = PollError ErrInvalidVerifier" "s' = s"
      "\<not> verifyClientPKCE v (s_CodeChallenge s)"
  | (slow_down) "r = poll_status PollSlowDown" "s' = s" "verifyClientPKCE v (s_CodeChallenge s)"
      "s_LastPollAt s \<noteq> 0" "time_Sub now (s_LastPollAt s) < s_Interval s"
  | (answer) "verifyClientPKCE v (s_CodeChallenge s)" "s' = s\<lparr>s_LastPollAt := now\<rparr>"
      "r = poll_status (case s_State s of StateDenied \<Rightarrow> PollDenied
                        | StateExpired \<Rightarrow> PollExpired | _ \<Rightarrow> PollPending)"
proof (cases "verifyClientPKCE v (s_CodeChallenge s)")
  case bad: False
  with assms show ?thesis by (intro bad_verifier) (simp_all add: poll_def)
next
  case ok: True
  show ?thesis
  proof (cases "s_LastPollAt s \<noteq> 0 \<and> time_Sub now (s_LastPollAt s) < s_Interval s")
    case slow: True
    with ok assms show ?thesis by (intro slow_down) (simp_all add: poll_def time_IsZero_def)
  next
    case nslow: False
    with ok assms show ?thesis
      by (intro answer) (auto simp: poll_def Let_def time_IsZero_def split: state.splits)
  qed
qed

lemma poll_cases:
  assumes "poll v now ttl s = (r, s')"
  obtains (expired) "r = poll_status PollExpired" "s' = s\<lparr>s_State := StateExpired\<rparr>"
      "s_State s = StateExpired \<or>
       (s_State s = StatePending \<or> s_State s = StateAwaitingApproval) \<and> s_ExpiresAt s < now"
  | (replay) "r = poll_status PollExpired" "s' = s" "s_State s = StateApproved" "s_Consumed s"
  | (bad_verifier) "r = PollError ErrInvalidVerifier" "s' = s"
      "\<not> verifyClientPKCE v (s_CodeChallenge s)"
      "s_State s = StateApproved \<and> \<not> s_Consumed s \<or> s_State s = StateDenied \<or>
       (s_State s = StatePending \<or> s_State s = StateAwaitingApproval) \<and> now \<le> s_ExpiresAt s"
  | (panic) "r = PollPanic" "s' = s\<lparr>s_Consumed := True\<rparr>" "s_State s = StateApproved"
      "\<not> s_Consumed s" "s_Identity s = None" "verifyClientPKCE v (s_CodeChallenge s)"
  | (release) ident where "s_State s = StateApproved" "\<not> s_Consumed s"
      "verifyClientPKCE v (s_CodeChallenge s)" "s_Identity s = Some ident"
      "s' = s\<lparr>s_Consumed := True\<rparr>"
      "r = PollReturn \<lparr>pr_Status = PollApproved,
             pr_Artifact = Some \<lparr>a_Subject = id_Subject ident, a_Identity = id_Value ident,
               a_Claims = id_Claims ident, a_ApprovedAt = s_IdentityAt s,
               a_ExpiresAt = time_Add (s_IdentityAt s) ttl\<rparr>\<rparr>"
  | (slow_down) "r = poll_status PollSlowDown" "s' = s" "verifyClientPKCE v (s_CodeChallenge s)"
      "s_LastPollAt s \<noteq> 0" "time_Sub now (s_LastPollAt s) < s_Interval s"
      "s_State s = StateDenied \<or>
       (s_State s = StatePending \<or> s_State s = StateAwaitingApproval) \<and> now \<le> s_ExpiresAt s"
  | (denied) "r = poll_status PollDenied" "s' = s\<lparr>s_LastPollAt := now\<rparr>"
      "verifyClientPKCE v (s_CodeChallenge s)" "s_State s = StateDenied"
  | (pending) "r = poll_status PollPending" "s' = s\<lparr>s_LastPollAt := now\<rparr>"
      "verifyClientPKCE v (s_CodeChallenge s)"
      "s_State s = StatePending \<or> s_State s = StateAwaitingApproval" "now \<le> s_ExpiresAt s"
proof -
  note bad_rule = bad_verifier and slow_rule = slow_down
    and replay_rule = replay and panic_rule = panic and release_rule = release
  show ?thesis
  proof (cases rule: expireIfNeeded_cases [of s now])
    case already
    then have "r = poll_status PollExpired" "s' = s" using assms by (simp_all add: poll_def)
    then show ?thesis using already(1) state_update_same [OF already(1)] by (intro expired) simp_all
  next
    case expires
    then have "r = poll_status PollExpired" "s' = s\<lparr>s_State := StateExpired\<rparr>"
      using assms by (simp_all add: poll_def)
    then show ?thesis using expires(1,2) by (intro expired) simp_all
  next
    case terminal
    show ?thesis
    proof (cases "s_State s = StateApproved")
      case True
      with assms show ?thesis
      proof (cases rule: poll_approved_cases)
        case replay
        with True show ?thesis by (intro replay_rule) simp_all
      next
        case bad_verifier
        with True show ?thesis by (intro bad_rule) simp_all
      next
        case panic
        with True show ?thesis by (intro panic_rule) simp_all
      next
        case (release ident)
        with True show ?thesis by (intro release_rule [of ident]) simp_all
      qed
    next
      case False
      then have den: "s_State s = StateDenied" using terminal(1) by blast
      from assms terminal(2) False show ?thesis
      proof (cases rule: poll_open_cases)
        case bad_verifier
        with den show ?thesis by (intro bad_rule) simp_all
      next
        case slow_down
        with den show ?thesis by (intro slow_rule) simp_all
      next
        case answer
        with den show ?thesis by (intro denied) simp_all
      qed
    qed
  next
    case live
    then have "s_State s \<noteq> StateApproved" by auto
    with assms live(3) show ?thesis
    proof (cases rule: poll_open_cases)
      case bad_verifier
      with live(1,2) show ?thesis by (intro bad_rule) simp_all
    next
      case slow_down
      with live(1,2) show ?thesis by (intro slow_rule) simp_all
    next
      case answer
      then have "r = poll_status PollPending" using live(1) by auto
      with answer live(1,2) show ?thesis by (intro pending) simp_all
    qed
  qed
qed

end
