(* ===== verification/Json.thy ===== *)
theory Json
  imports XPrelude
begin

text \<open>
  What the program sees of \<open>encoding/json\<close>: documents, the decoding of a document into a struct of string fields, and
  what JSON makes of a string. Theory \<open>JsonText\<close> has the documents as bytes.
\<close>

section \<open>JSON documents\<close>

datatype json =
    JNull
  | JBool bool
  | JNum string
  | JStr string
  | JArr "json list"
  | JObj "(string \<times> json) list"

text \<open>
  \<open>encoding/json\<close> matches an object key to a field name up to case folding. Against ASCII names the
  fold maps lower-case letters to upper case, and the two other code points that fold to ASCII
  letters (long s, Kelvin sign) to that letter.
\<close>

fun json_fold :: "string \<Rightarrow> string" where
  "json_fold (a # b # c # s) =
     (if a = CHR 0xC5 \<and> b = CHR 0xBF then CHR ''S'' # json_fold (c # s)
      else if a = CHR 0xE2 \<and> b = CHR 0x84 \<and> c = CHR 0xAA then CHR ''K'' # json_fold s
      else ascii_upper a # json_fold (b # c # s))"
| "json_fold [a, b] =
     (if a = CHR 0xC5 \<and> b = CHR 0xBF then [CHR ''S''] else [ascii_upper a, ascii_upper b])"
| "json_fold s = map ascii_upper s"

text \<open>
  Decoding a string field from the members of an object, in their order: the last string wins,
  null leaves the field as it is, any other value is an error.
\<close>

fun decode_field :: "string \<Rightarrow> (string \<times> json) list \<Rightarrow> string \<Rightarrow> string option" where
  "decode_field name [] cur = Some cur"
| "decode_field name ((k, v) # ms) cur =
     (if json_fold k = json_fold name then
        (case v of
           JStr s \<Rightarrow> decode_field name ms s
         | JNull \<Rightarrow> decode_field name ms cur
         | _ \<Rightarrow> None)
      else decode_field name ms cur)"

text \<open>The members a document offers to a struct: an object's, or none for null.\<close>

definition json_members :: "json option \<Rightarrow> (string \<times> json) list option" where
  "json_members doc =
     (case doc of Some (JObj ms) \<Rightarrow> Some ms | Some JNull \<Rightarrow> Some [] | _ \<Rightarrow> None)"

definition decode_string :: "string \<Rightarrow> json option \<Rightarrow> string option" where
  "decode_string name doc =
     (case json_members doc of None \<Rightarrow> None | Some ms \<Rightarrow> decode_field name ms '''')"

section \<open>Strings in JSON\<close>

text \<open>
  Go strings hold any bytes, JSON holds characters. The encoder of \<open>encoding/json\<close> writes a replacement character for
  each byte that does not start a UTF-8 sequence (\<open>utf8.DecodeRuneInString\<close>), so \<open>json_string s\<close> is what the other side
  reads for \<open>s\<close>.
\<close>

definition rune_error :: string where
  "rune_error = [CHR 0xEF, CHR 0xBF, CHR 0xBD]"

text \<open>The length of the sequence a first byte announces (0 for none) and the range of the byte after it.\<close>

definition utf8_lead :: "nat \<Rightarrow> nat \<times> nat \<times> nat" where
  "utf8_lead b =
     (if b < 0x80 then (1, 0, 0)
      else if b < 0xC2 then (0, 0, 0)
      else if b < 0xE0 then (2, 0x80, 0xBF)
      else if b = 0xE0 then (3, 0xA0, 0xBF)
      else if b = 0xED then (3, 0x80, 0x9F)
      else if b < 0xF0 then (3, 0x80, 0xBF)
      else if b = 0xF0 then (4, 0x90, 0xBF)
      else if b < 0xF4 then (4, 0x80, 0xBF)
      else if b = 0xF4 then (4, 0x80, 0x8F)
      else (0, 0, 0))"

definition utf8_len :: "string \<Rightarrow> nat" where
  "utf8_len s =
     (case s of [] \<Rightarrow> 0
      | c # t \<Rightarrow>
          (case utf8_lead (of_char c) of (n, lo, hi) \<Rightarrow>
             if n \<le> 1 \<or> n \<le> length s \<and> lo \<le> of_char (s ! 1) \<and> of_char (s ! 1) \<le> hi \<and>
                list_all (\<lambda>d. 0x80 \<le> (of_char d :: nat) \<and> (of_char d :: nat) \<le> 0xBF) (take (n - 2) (drop 2 s))
             then n else 0))"

function json_string :: "string \<Rightarrow> string" where
  "json_string s =
     (if s = [] then []
      else if utf8_len s = 0 then rune_error @ json_string (tl s)
      else take (utf8_len s) s @ json_string (drop (utf8_len s) s))"
  by pat_completeness auto

termination
  by (relation "measure length") auto

declare json_string.simps [simp del]

lemma json_string_Nil [simp]: "json_string [] = []"
  by (simp add: json_string.simps)

lemma json_string_bad: "utf8_len (c # s) = 0 \<Longrightarrow> json_string (c # s) = rune_error @ json_string s"
  by (subst json_string.simps) simp

lemma json_string_good:
  "0 < utf8_len s \<Longrightarrow> json_string s = take (utf8_len s) s @ json_string (drop (utf8_len s) s)"
  by (subst json_string.simps) (auto simp: utf8_len_def)

lemma json_string_empty [simp]: "json_string s = [] \<longleftrightarrow> s = []"
proof (cases s)
  case (Cons c t)
  then show ?thesis
    by (cases "utf8_len s") (simp_all add: json_string_bad json_string_good rune_error_def)
qed simp

lemma json_string_ascii: "list_all (\<lambda>c. of_char c < (128::nat)) s \<Longrightarrow> json_string s = s"
proof (induction s)
  case (Cons c s)
  then have "utf8_len (c # s) = 1" by (simp add: utf8_len_def utf8_lead_def)
  with Cons show ?case by (simp add: json_string_good)
qed simp

text \<open>What was read is UTF-8: sending it again changes nothing.\<close>

lemma utf8_len_bound: "utf8_len s \<le> length s"
  by (auto simp: utf8_len_def split: list.splits prod.splits)

lemma utf8_len_local:
  assumes "0 < utf8_len s"
  shows "utf8_len (take (utf8_len s) s @ t) = utf8_len s"
proof (cases s)
  case (Cons c r)
  obtain n lo hi where l: "utf8_lead (of_char c) = (n, lo, hi)" by (metis prod_cases3)
  have n: "utf8_len s = n" "0 < n" using assms Cons l by (auto simp: utf8_len_def split: if_splits)
  show ?thesis
  proof (cases "n \<le> 1")
    case True
    then have "n = 1" using n by simp
    then show ?thesis using Cons l n by (simp add: utf8_len_def)
  next
    case False
    then obtain k where k: "n = Suc (Suc k)" by (metis One_nat_def Suc_le_eq not_less_eq_eq old.nat.exhaust le_SucI order_refl)
    have ok: "n \<le> length s" "lo \<le> of_char (s ! 1) \<and> of_char (s ! 1) \<le> hi"
      "list_all (\<lambda>d. 0x80 \<le> (of_char d :: nat) \<and> (of_char d :: nat) \<le> 0xBF) (take k (drop 2 s))"
      using n Cons l False k by (auto simp: utf8_len_def split: if_splits)
    obtain d r' where r: "r = d # r'" using ok(1) k Cons by (cases r) auto
    show ?thesis using ok Cons l n k r by (simp add: utf8_len_def)
  qed
qed (use assms in \<open>simp add: utf8_len_def\<close>)

lemma json_string_rune_error: "json_string (rune_error @ t) = rune_error @ json_string t"
proof -
  have "utf8_len (rune_error @ t) = 3" by (simp add: utf8_len_def utf8_lead_def rune_error_def)
  then show ?thesis by (simp add: json_string_good rune_error_def)
qed

lemma json_string_local:
  "0 < utf8_len s \<Longrightarrow> json_string (take (utf8_len s) s @ t) = take (utf8_len s) s @ json_string t"
  using json_string_good [of "take (utf8_len s) s @ t"] utf8_len_local [of s t] utf8_len_bound [of s] by simp

lemma json_string_idem [simp]: "json_string (json_string s) = json_string s"
proof (induction s rule: json_string.induct)
  case (1 s)
  show ?case
  proof (cases "0 < utf8_len s")
    case True
    then have "s \<noteq> []" by (auto simp: utf8_len_def)
    then show ?thesis using 1(2) True json_string_local [OF True] by (simp add: json_string_good [OF True])
  next
    case False
    then show ?thesis using 1(1) by (cases s) (simp_all add: json_string_bad json_string_rune_error)
  qed
qed

text \<open>Only ASCII text is read as ASCII text.\<close>

lemma json_string_reads_ascii:
  "list_all (\<lambda>c. of_char c < (128::nat)) (json_string s) \<Longrightarrow> json_string s = s"
proof (induction s rule: json_string.induct)
  case (1 s)
  show ?case
  proof (cases "0 < utf8_len s")
    case True
    then have "s \<noteq> []" by (auto simp: utf8_len_def)
    then show ?thesis using 1(2,3) True by (simp add: json_string_good [OF True])
  next
    case False
    then show ?thesis using 1(3) by (cases s) (simp_all add: json_string_bad rune_error_def)
  qed
qed

end
