(* ===== verification/GoNet.thy ===== *)
theory GoNet
  imports XPrelude
begin

unbundle bit_operations_syntax

text \<open>
  The parts of \<open>net\<close> and \<open>net/netip\<close> the broker uses to read peer addresses and network lists:
  \<open>net.SplitHostPort\<close>, \<open>netip.ParseAddr\<close> (IPv4, IPv6 with \<open>::\<close>, embedded IPv4 and zones),
  \<open>netip.ParsePrefix\<close> and \<open>Prefix.Contains\<close>, with the failures of each as \<open>None\<close>.
\<close>

section \<open>Searching bytes\<close>

text \<open>\<open>IndexByte\<close> and \<open>LastIndexByte\<close> as splits around the first or last occurrence.\<close>

definition split_first :: "char \<Rightarrow> string \<Rightarrow> (string \<times> string) option" where
  "split_first c s =
     (if c \<in> set s then Some (takeWhile (\<lambda>x. x \<noteq> c) s, tl (dropWhile (\<lambda>x. x \<noteq> c) s)) else None)"

definition split_last :: "char \<Rightarrow> string \<Rightarrow> (string \<times> string) option" where
  "split_last c s =
     (case split_first c (rev s) of None \<Rightarrow> None | Some (a, b) \<Rightarrow> Some (rev b, rev a))"

lemma split_first_Some: "split_first c s = Some (a, b) \<Longrightarrow> s = a @ c # b \<and> c \<notin> set a"
proof -
  assume h: "split_first c s = Some (a, b)"
  then have a: "a = takeWhile (\<lambda>x. x \<noteq> c) s" and b: "b = tl (dropWhile (\<lambda>x. x \<noteq> c) s)"
    and ne: "dropWhile (\<lambda>x. x \<noteq> c) s \<noteq> []"
    by (auto simp: split_first_def split: if_splits)
  then have "dropWhile (\<lambda>x. x \<noteq> c) s = c # b"
    using hd_dropWhile [OF ne] by (metis list.collapse)
  then have "s = a @ c # b" using takeWhile_dropWhile_id [of "\<lambda>x. x \<noteq> c" s] a by simp
  moreover have "c \<notin> set a" using a by (auto dest: set_takeWhileD)
  ultimately show ?thesis by simp
qed

lemma split_last_Some: "split_last c s = Some (a, b) \<Longrightarrow> s = a @ c # b \<and> c \<notin> set b"
proof -
  assume "split_last c s = Some (a, b)"
  then have "split_first c (rev s) = Some (rev b, rev a)"
    by (auto simp: split_last_def split: option.splits)
  then have r: "rev s = rev b @ c # rev a" and "c \<notin> set (rev b)" by (auto dest: split_first_Some)
  moreover have "s = rev (rev b @ c # rev a)" by (metis r rev_rev_ident)
  ultimately show ?thesis by simp
qed

section \<open>net.SplitHostPort\<close>

definition net_SplitHostPort :: "string \<Rightarrow> (string \<times> string) option" where
  "net_SplitHostPort hp =
     (case split_last (CHR '':'') hp of
        None \<Rightarrow> None
      | Some (pre, port) \<Rightarrow>
          if hd hp = CHR ''['' then
            (case split_first (CHR '']'') hp of
               None \<Rightarrow> None
             | Some (bracket, after) \<Rightarrow>
                 if Suc (length bracket) = length pre then
                   (let host = tl bracket in
                    if CHR ''['' \<in> set (tl hp) \<or> CHR '']'' \<in> set after then None
                    else Some (host, port))
                 else None)
          else if CHR '':'' \<in> set pre then None
          else if CHR ''['' \<in> set hp \<or> CHR '']'' \<in> set hp then None
          else Some (pre, port))"

section \<open>netip.ParseAddr\<close>

datatype netip_addr = IP4 "32 word" | IP6 "128 word" string

definition is_digit :: "char \<Rightarrow> bool" where
  "is_digit c \<longleftrightarrow> 48 \<le> (of_char c :: nat) \<and> (of_char c :: nat) \<le> 57"

definition digit_val :: "char \<Rightarrow> nat" where
  "digit_val c = of_char c - 48"

definition parse_digits :: "string \<Rightarrow> int option" where
  "parse_digits ds =
     (if ds \<noteq> [] \<and> list_all is_digit ds
      then Some (fold (\<lambda>d acc. 10 * acc + int (digit_val d)) ds 0) else None)"

text \<open>Decimal literals are read back.\<close>

lemma digit_char: "n < 10 \<Longrightarrow> is_digit (char_of (48 + n)) \<and> digit_val (char_of (48 + n)) = n"
  by (simp add: is_digit_def digit_val_def)

lemma nat_lit_digits: "nat_lit n \<noteq> [] \<and> list_all is_digit (nat_lit n)"
proof (induction n rule: nat_lit.induct)
  case (1 n)
  then show ?case by (subst (1 2) nat_lit.simps) (auto simp: digit_char)
qed

lemma fold_nat_lit: "fold (\<lambda>d acc. 10 * acc + int (digit_val d)) (nat_lit n) 0 = int n"
proof (induction n rule: nat_lit.induct)
  case (1 n)
  show ?case
  proof (cases "n < 10")
    case True
    then show ?thesis by (simp add: nat_lit.simps [of n] digit_char)
  next
    case False
    have "10 * (int n div 10) + int n mod 10 = int n" by simp
    then show ?thesis
      using False 1 by (simp add: nat_lit.simps [of n] digit_char zdiv_int zmod_int)
  qed
qed

lemma parse_nat_lit: "parse_digits (nat_lit n) = Some (int n)"
  using nat_lit_digits [of n] by (simp add: parse_digits_def fold_nat_lit)

definition hex_val :: "char \<Rightarrow> nat option" where
  "hex_val c =
     (let n = (of_char c :: nat) in
      if 48 \<le> n \<and> n \<le> 57 then Some (n - 48)
      else if 97 \<le> n \<and> n \<le> 102 then Some (n - 87)
      else if 65 \<le> n \<and> n \<le> 70 then Some (n - 55)
      else None)"

text \<open>
  \<open>parseIPv4Fields\<close>: \<open>sep\<close> tells that the position is the start or follows a dot, \<open>v\<close> and \<open>n\<close> are
  the value and the digits of the current octet, \<open>fs\<close> the octets read, newest first.
\<close>

fun ip4_fields :: "string \<Rightarrow> bool \<Rightarrow> nat \<Rightarrow> nat \<Rightarrow> nat list \<Rightarrow> nat list option" where
  "ip4_fields [] sep v n fs = (if length fs < 3 then None else Some (rev (v # fs)))"
| "ip4_fields (c # cs) sep v n fs =
     (if is_digit c then
        (if n = 1 \<and> v = 0 then None
         else if v * 10 + digit_val c > 255 then None
         else ip4_fields cs False (v * 10 + digit_val c) (Suc n) fs)
      else if c = CHR ''.'' then
        (if sep \<or> cs = [] then None
         else if length fs = 3 then None
         else ip4_fields cs True 0 0 (v # fs))
      else None)"

definition ip4_octets :: "string \<Rightarrow> nat list option" where
  "ip4_octets s = ip4_fields s True 0 0 []"

definition parse_hex :: "string \<Rightarrow> nat" where
  "parse_hex ds = foldl (\<lambda>acc c. acc * 16 + (case hex_val c of Some d \<Rightarrow> d | None \<Rightarrow> 0)) 0 ds"

abbreviation is_hex :: "char \<Rightarrow> bool" where
  "is_hex c \<equiv> hex_val c \<noteq> None"

text \<open>
  The loop of \<open>parseIPv6\<close>: \<open>gs\<close> are the 16-bit groups read, \<open>el\<close> the group position of \<open>::\<close>. The
  result carries what is left of the string.
\<close>

function ip6_loop :: "string \<Rightarrow> nat list \<Rightarrow> nat option \<Rightarrow> (string \<times> nat list \<times> nat option) option" where
  "ip6_loop s gs el =
     (if length gs \<ge> 8 then Some (s, gs, el)
      else
        let ds = takeWhile is_hex s; rest = dropWhile is_hex s in
        if length ds > 4 \<or> ds = [] then None
        else if rest \<noteq> [] \<and> hd rest = CHR ''.'' then
          (if el = None \<and> length gs \<noteq> 6 then None
           else if length gs > 6 then None
           else (case ip4_octets s of
                   Some [a, b, c, d] \<Rightarrow> Some ([], gs @ [a * 256 + b, c * 256 + d], el)
                 | _ \<Rightarrow> None))
        else
          let gs' = gs @ [parse_hex ds] in
          if rest = [] then Some ([], gs', el)
          else if hd rest \<noteq> CHR '':'' \<or> tl rest = [] then None
          else if hd (tl rest) = CHR '':'' then
            (if el \<noteq> None then None
             else if tl (tl rest) = [] then Some ([], gs', Some (length gs'))
             else ip6_loop (tl (tl rest)) gs' (Some (length gs')))
          else ip6_loop (tl rest) gs' el)"
  by pat_completeness auto
termination
  by (relation "measure (\<lambda>(s, gs, el). 8 - length gs)") auto

declare ip6_loop.simps [simp del]

definition groups_word :: "nat list \<Rightarrow> 128 word" where
  "groups_word gs = foldl (\<lambda>acc g. push_bit 16 acc OR word_of_nat g) 0 gs"

definition ip6_finish :: "string \<Rightarrow> (string \<times> nat list \<times> nat option) option \<Rightarrow> netip_addr option" where
  "ip6_finish zone r =
     (case r of
        None \<Rightarrow> None
      | Some (s, gs, el) \<Rightarrow>
          if s \<noteq> [] then None
          else if length gs < 8 then
            (case el of
               None \<Rightarrow> None
             | Some e \<Rightarrow>
                 Some (IP6 (groups_word (take e gs @ replicate (8 - length gs) 0 @ drop e gs)) zone))
          else if el \<noteq> None then None
          else Some (IP6 (groups_word gs) zone))"

definition parseIPv6 :: "string \<Rightarrow> netip_addr option" where
  "parseIPv6 s0 =
     (case (case split_first (CHR ''%'') s0 of
              None \<Rightarrow> Some (s0, '''')
            | Some (s, zone) \<Rightarrow> if zone = '''' then None else Some (s, zone)) of
        None \<Rightarrow> None
      | Some (s, zone) \<Rightarrow>
          if take 2 s = ''::'' then
            (if drop 2 s = [] then Some (IP6 0 zone)
             else ip6_finish zone (ip6_loop (drop 2 s) [] (Some 0)))
          else ip6_finish zone (ip6_loop s [] None))"

definition parseIPv4 :: "string \<Rightarrow> netip_addr option" where
  "parseIPv4 s =
     (case ip4_octets s of
        Some fs \<Rightarrow> Some (IP4 (foldl (\<lambda>acc f. push_bit 8 acc OR word_of_nat f) 0 fs))
      | None \<Rightarrow> None)"

definition netip_ParseAddr :: "string \<Rightarrow> netip_addr option" where
  "netip_ParseAddr s =
     (case find (\<lambda>c. c = CHR ''.'' \<or> c = CHR '':'' \<or> c = CHR ''%'') s of
        None \<Rightarrow> None
      | Some c \<Rightarrow>
          if c = CHR ''.'' then parseIPv4 s
          else if c = CHR '':'' then parseIPv6 s
          else None)"

section \<open>netip.Prefix\<close>

record netip_prefix =
  pf_addr :: netip_addr
  pf_bits :: nat

text \<open>
  An address of the other family, a zoned address and a prefix longer than its address never
  match; otherwise the leading \<open>bits\<close> bits must agree.
\<close>

definition netip_Contains :: "netip_prefix \<Rightarrow> netip_addr \<Rightarrow> bool" where
  "netip_Contains p ip =
     (case (pf_addr p, ip) of
        (IP4 a, IP4 b) \<Rightarrow> pf_bits p \<le> 32 \<and> drop_bit (32 - pf_bits p) (a XOR b) = 0
      | (IP6 a z, IP6 b zone) \<Rightarrow>
          zone = '''' \<and> pf_bits p \<le> 128 \<and> drop_bit (128 - pf_bits p) (a XOR b) = 0
      | _ \<Rightarrow> False)"

definition parse_bits :: "string \<Rightarrow> nat option" where
  "parse_bits s =
     (if s = [] \<or> \<not> list_all is_digit s \<or> (length s > 1 \<and> hd s = CHR ''0'') then None
      else Some (foldl (\<lambda>acc c. acc * 10 + digit_val c) 0 s))"

definition netip_ParsePrefix :: "string \<Rightarrow> netip_prefix option" where
  "netip_ParsePrefix s =
     (case split_last (CHR ''/'') s of
        None \<Rightarrow> None
      | Some (a, b) \<Rightarrow>
          (case (netip_ParseAddr a, parse_bits b) of
             (Some (IP4 w), Some n) \<Rightarrow>
               if n \<le> 32 then Some \<lparr>pf_addr = IP4 w, pf_bits = n\<rparr> else None
           | (Some (IP6 w zone), Some n) \<Rightarrow>
               if zone = '''' \<and> n \<le> 128 then Some \<lparr>pf_addr = IP6 w zone, pf_bits = n\<rparr> else None
           | _ \<Rightarrow> None))"

lemma ParsePrefix_bits:
  "netip_ParsePrefix s = Some p \<Longrightarrow>
     (case pf_addr p of IP4 _ \<Rightarrow> pf_bits p \<le> 32 | IP6 _ z \<Rightarrow> z = '''' \<and> pf_bits p \<le> 128)"
  by (auto simp: netip_ParsePrefix_def split: option.splits netip_addr.splits prod.splits if_splits)

text \<open>A prefix of length 0 contains every address of its family without a zone.\<close>

lemma Contains_zero_bits:
  "netip_Contains \<lparr>pf_addr = IP4 a, pf_bits = 0\<rparr> (IP4 b)"
  by (simp add: netip_Contains_def drop_bit_eq_zero_iff_not_bit_last bit_eq_iff bit_simps)

end
