(* ===== verification/JsonText.thy ===== *)
theory JsonText
  imports Json GoNet GoCrypto
begin

text \<open>
  JSON documents as bytes: what \<open>json.Marshal\<close>, \<open>Encoder.Encode\<close> and \<open>json.MarshalIndent\<close> write, and what \<open>Decoder.Decode\<close>
  and \<open>json.Unmarshal\<close> read. The main lemma is the round trip: a document that was written is read back, with a
  replacement character for every byte that is not UTF-8, unless it is nested deeper than the reader allows.
\<close>

section \<open>Writing\<close>

text \<open>\<open>appendString\<close> with the escaping of HTML characters, which both encoders do.\<close>

definition esc_char :: "char \<Rightarrow> string" where
  "esc_char c =
     (if c = CHR 0x22 \<or> c = CHR 0x5C then [CHR 0x5C, c]
      else if c = CHR 0x08 then [CHR 0x5C, CHR ''b'']
      else if c = CHR 0x0C then [CHR 0x5C, CHR ''f'']
      else if c = CHR 0x0A then [CHR 0x5C, CHR ''n'']
      else if c = CHR 0x0D then [CHR 0x5C, CHR ''r'']
      else if c = CHR 0x09 then [CHR 0x5C, CHR ''t'']
      else if (of_char c :: nat) < 32 \<or> c = CHR ''<'' \<or> c = CHR ''>'' \<or> c = CHR ''&''
      then [CHR 0x5C, CHR ''u'', CHR ''0'', CHR ''0'', hex_digits ! (of_char c div 16), hex_digits ! (of_char c mod 16)]
      else [c])"

text \<open>The line and paragraph separators U+2028 and U+2029.\<close>

definition separator_text :: "string \<Rightarrow> string option" where
  "separator_text s =
     (if take 3 s = [CHR 0xE2, CHR 0x80, CHR 0xA8] then Some (CHR 0x5C # ''u2028'')
      else if take 3 s = [CHR 0xE2, CHR 0x80, CHR 0xA9] then Some (CHR 0x5C # ''u2029'') else None)"

function quote_body :: "string \<Rightarrow> string" where
  "quote_body s =
     (if s = [] then []
      else if (of_char (hd s) :: nat) < 128 then esc_char (hd s) @ quote_body (tl s)
      else if utf8_len s = 0 then CHR 0x5C # ''ufffd'' @ quote_body (tl s)
      else (case separator_text s of Some esc \<Rightarrow> esc | None \<Rightarrow> take (utf8_len s) s) @ quote_body (drop (utf8_len s) s))"
  by pat_completeness auto

termination
  by (relation "measure length") auto

declare quote_body.simps [simp del]

definition quote :: "string \<Rightarrow> string" where
  "quote s = CHR 0x22 # quote_body s @ [CHR 0x22]"

fun join :: "string \<Rightarrow> string list \<Rightarrow> string" where
  "join sep [] = []"
| "join sep [x] = x"
| "join sep (x # y # xs) = x @ sep @ join sep (y # xs)"

text \<open>A document with the line breaks \<open>lay n\<close> at nesting depth \<open>n\<close> and the space \<open>sp\<close> after a colon.\<close>

fun json_print :: "(nat \<Rightarrow> string) \<Rightarrow> string \<Rightarrow> nat \<Rightarrow> json \<Rightarrow> string" where
  "json_print lay sp n JNull = ''null''"
| "json_print lay sp n (JBool b) = (if b then ''true'' else ''false'')"
| "json_print lay sp n (JNum lit) = lit"
| "json_print lay sp n (JStr s) = quote s"
| "json_print lay sp n (JArr vs) =
     (if vs = [] then ''[]''
      else ''['' @ lay (Suc n) @ join ('','' @ lay (Suc n)) (map (json_print lay sp (Suc n)) vs) @ lay n @ '']'')"
| "json_print lay sp n (JObj ms) =
     (if ms = [] then ''{}''
      else ''{'' @ lay (Suc n) @
        join ('','' @ lay (Suc n)) (map (\<lambda>(k, v). quote k @ '':'' @ sp @ json_print lay sp (Suc n) v) ms) @ lay n @ ''}'')"

text \<open>\<open>json.Marshal\<close>; \<open>Encode\<close> adds a newline; \<open>MarshalIndent(v, "", "  ")\<close>.\<close>

definition json_Marshal :: "json \<Rightarrow> string" where
  "json_Marshal j = json_print (\<lambda>_. []) [] 0 j"

definition json_Encode :: "json \<Rightarrow> string" where
  "json_Encode j = json_Marshal j @ [CHR 0x0A]"

definition json_MarshalIndent :: "json \<Rightarrow> string" where
  "json_MarshalIndent j = json_print (\<lambda>n. CHR 0x0A # replicate (2 * n) (CHR '' '')) '' '' 0 j"

section \<open>Reading\<close>

definition is_json_space :: "char \<Rightarrow> bool" where
  "is_json_space c \<longleftrightarrow> c = CHR '' '' \<or> c = CHR 0x09 \<or> c = CHR 0x0A \<or> c = CHR 0x0D"

definition skip_space :: "string \<Rightarrow> string" where
  "skip_space s = dropWhile is_json_space s"

text \<open>\<open>utf8.AppendRune\<close>, which writes the replacement character for what is no code point.\<close>

definition utf8_encode :: "nat \<Rightarrow> string" where
  "utf8_encode n =
     (if n < 0x80 then [char_of n]
      else if n < 0x800 then [char_of (0xC0 + n div 64), char_of (0x80 + n mod 64)]
      else if 0xD800 \<le> n \<and> n < 0xE000 \<or> 0x10FFFF < n then rune_error
      else if n < 0x10000 then [char_of (0xE0 + n div 4096), char_of (0x80 + n div 64 mod 64), char_of (0x80 + n mod 64)]
      else [char_of (0xF0 + n div 262144), char_of (0x80 + n div 4096 mod 64), char_of (0x80 + n div 64 mod 64),
            char_of (0x80 + n mod 64)])"

text \<open>\<open>getu4\<close>: four hexadecimal digits.\<close>

definition getu4 :: "string \<Rightarrow> nat option" where
  "getu4 s =
     (case s of
        a # b # c # d # r \<Rightarrow>
          (case (hex_val a, hex_val b, hex_val c, hex_val d) of
             (Some i, Some j, Some k, Some l) \<Rightarrow> Some (((i * 16 + j) * 16 + k) * 16 + l)
           | _ \<Rightarrow> None)
      | _ \<Rightarrow> None)"

definition unescape :: "char \<Rightarrow> char option" where
  "unescape e =
     (if e = CHR 0x22 \<or> e = CHR 0x5C \<or> e = CHR ''/'' then Some e
      else if e = CHR ''b'' then Some (CHR 0x08)
      else if e = CHR ''f'' then Some (CHR 0x0C)
      else if e = CHR ''n'' then Some (CHR 0x0A)
      else if e = CHR ''r'' then Some (CHR 0x0D)
      else if e = CHR ''t'' then Some (CHR 0x09) else None)"

text \<open>
  One escape after its backslash: the bytes it stands for and the rest. A high surrogate needs a low one behind it, else
  it stands for the replacement character.
\<close>

definition read_escape :: "string \<Rightarrow> (string \<times> string) option" where
  "read_escape s =
     (case s of
        [] \<Rightarrow> None
      | e # r \<Rightarrow>
          if e = CHR ''u'' then
            (case getu4 r of
               None \<Rightarrow> None
             | Some n \<Rightarrow>
                 let r1 = drop 4 r in
                 if 0xD800 \<le> n \<and> n < 0xE000 then
                   (case if take 2 r1 = [CHR 0x5C, CHR ''u''] then getu4 (drop 2 r1) else None of
                      Some m \<Rightarrow>
                        if n < 0xDC00 \<and> 0xDC00 \<le> m \<and> m < 0xE000
                        then Some (utf8_encode (0x10000 + (n - 0xD800) * 1024 + (m - 0xDC00)), drop 6 r1)
                        else Some (rune_error, r1)
                    | None \<Rightarrow> Some (rune_error, r1))
                 else Some (utf8_encode n, r1))
          else map_option (\<lambda>c. ([c], r)) (unescape e))"

lemma read_escape_shorter: "read_escape s = Some (x, r) \<Longrightarrow> length r < length s"
  by (auto simp: read_escape_def Let_def split: list.splits if_splits option.splits)

text \<open>The inside of a string, up to its closing quote.\<close>

function unquote :: "string \<Rightarrow> (string \<times> string) option" where
  "unquote s =
     (case s of
        [] \<Rightarrow> None
      | c # r \<Rightarrow>
          if c = CHR 0x22 then Some ([], r)
          else if c = CHR 0x5C then
            (case read_escape r of
               None \<Rightarrow> None
             | Some (x, r1) \<Rightarrow> map_option (apfst (append x)) (unquote r1))
          else if (of_char c :: nat) < 32 then None
          else if utf8_len s = 0 then map_option (apfst (append rune_error)) (unquote r)
          else map_option (apfst (append (take (utf8_len s) s))) (unquote (drop (utf8_len s) s)))"
  by pat_completeness auto

termination
  by (relation "measure length") (auto dest: read_escape_shorter)

declare unquote.simps [simp del]

text \<open>Numbers: an optional sign, an integer without leading zeros, a fraction and an exponent.\<close>

definition scan_digits :: "string \<Rightarrow> (string \<times> string) option" where
  "scan_digits s = (if takeWhile is_digit s = [] then None else Some (takeWhile is_digit s, dropWhile is_digit s))"

definition scan_int :: "string \<Rightarrow> (string \<times> string) option" where
  "scan_int s =
     (case s of
        [] \<Rightarrow> None
      | c # r \<Rightarrow> if c = CHR ''0'' then Some ([c], r) else scan_digits s)"

definition scan_sign :: "string \<Rightarrow> (string \<times> string) option" where
  "scan_sign s =
     (case s of
        c # r \<Rightarrow> if c = CHR ''-'' then map_option (apfst (Cons c)) (scan_int r) else scan_int s
      | [] \<Rightarrow> None)"

definition scan_frac :: "string \<Rightarrow> (string \<times> string) option" where
  "scan_frac s =
     (case s of
        c # r \<Rightarrow> if c = CHR ''.'' then map_option (apfst (Cons c)) (scan_digits r) else Some ([], s)
      | [] \<Rightarrow> Some ([], []))"

definition scan_exp :: "string \<Rightarrow> (string \<times> string) option" where
  "scan_exp s =
     (case s of
        e # r \<Rightarrow>
          if e = CHR ''e'' \<or> e = CHR ''E'' then
            (case r of
               g # r1 \<Rightarrow>
                 if g = CHR ''+'' \<or> g = CHR ''-'' then map_option (apfst (\<lambda>ds. e # g # ds)) (scan_digits r1)
                 else map_option (apfst (Cons e)) (scan_digits r)
             | [] \<Rightarrow> None)
          else Some ([], s)
      | [] \<Rightarrow> Some ([], []))"

definition scan_number :: "string \<Rightarrow> (string \<times> string) option" where
  "scan_number s =
     (case scan_sign s of
        None \<Rightarrow> None
      | Some (a, r) \<Rightarrow>
          (case scan_frac r of
             None \<Rightarrow> None
           | Some (b, r1) \<Rightarrow> map_option (apfst (\<lambda>c. a @ b @ c)) (scan_exp r1)))"

text \<open>
  Values, the elements of an array and the members of an object, each with the rest of the input. The number is how much
  deeper arrays and objects may nest. A value takes up some of the input, so that the test of the length always
  succeeds; it is what the recursion terminates by.
\<close>

definition read_key :: "string \<Rightarrow> (string \<times> string) option" where
  "read_key s =
     (case skip_space s of
        c # r \<Rightarrow>
          if c = CHR 0x22 then
            (case unquote r of
               None \<Rightarrow> None
             | Some (k, r1) \<Rightarrow>
                 (case skip_space r1 of
                    c1 # r2 \<Rightarrow> if c1 = CHR '':'' then Some (k, skip_space r2) else None
                  | [] \<Rightarrow> None))
          else None
      | [] \<Rightarrow> None)"

lemma unquote_shorter: "unquote s = Some (x, r) \<Longrightarrow> length r < length s"
proof (induction s arbitrary: x r rule: unquote.induct)
  case (1 s)
  show ?case
  proof (cases s)
    case Nil
    then show ?thesis using 1(4) by (simp add: unquote.simps)
  next
    case (Cons c t)
    note u = 1(4) [unfolded Cons, unfolded unquote.simps [of "c # t"], simplified, folded Cons]
    consider "c = CHR 0x22" | "c = CHR 0x5C" | "c \<noteq> CHR 0x22" "c \<noteq> CHR 0x5C" "\<not> of_char c < (32 :: nat)" "utf8_len s = 0"
      | "c \<noteq> CHR 0x22" "c \<noteq> CHR 0x5C" "\<not> of_char c < (32 :: nat)" "0 < utf8_len s"
      using u by (auto split: if_splits)
    then show ?thesis
    proof cases
      case 1
      then show ?thesis using u Cons by simp
    next
      case 2
      then obtain y r1 z where e: "read_escape t = Some (y, r1)" "unquote r1 = Some (z, r)"
        using u by (auto split: option.splits)
      have "length r < length r1" using 1(1) [OF Cons _ _ e(1) _ e(2)] 2 by simp
      then show ?thesis using read_escape_shorter [OF e(1)] Cons by simp
    next
      case 3
      then obtain z where "unquote t = Some (z, r)" using u by auto
      then show ?thesis using 1(2) [OF Cons _ _ _ _, of z r] 3 Cons by simp
    next
      case 4
      then obtain z where "unquote (drop (utf8_len s) s) = Some (z, r)" using u by auto
      then show ?thesis using 1(3) [OF Cons _ _ _ _, of z r] 4 Cons by simp
    qed
  qed
qed

lemma skip_space_le: "length (skip_space s) \<le> length s"
  by (simp add: skip_space_def length_dropWhile_le)

lemma read_key_shorter: "read_key s = Some (k, r) \<Longrightarrow> length r < length s"
proof -
  assume "read_key s = Some (k, r)"
  then obtain c t r1 c1 r2 where "skip_space s = c # t" "unquote t = Some (k, r1)" "skip_space r1 = c1 # r2" "r = skip_space r2"
    by (auto simp: read_key_def split: list.splits if_splits option.splits)
  then show ?thesis
    using skip_space_le [of s] skip_space_le [of r1] skip_space_le [of r2] unquote_shorter [of t k r1] by simp
qed

function (sequential) parse_value :: "nat \<Rightarrow> string \<Rightarrow> (json \<times> string) option"
  and parse_elems :: "nat \<Rightarrow> string \<Rightarrow> (json list \<times> string) option"
  and parse_members :: "nat \<Rightarrow> string \<Rightarrow> ((string \<times> json) list \<times> string) option"
where
  "parse_value d [] = None"
| "parse_value d (c # r) =
     (if c = CHR 0x22 then map_option (apfst JStr) (unquote r)
      else if c = CHR ''['' then
        (if d = 0 then None
         else if take 1 (skip_space r) = '']'' then Some (JArr [], tl (skip_space r))
         else map_option (apfst JArr) (parse_elems (d - 1) r))
      else if c = CHR ''{'' then
        (if d = 0 then None
         else if take 1 (skip_space r) = ''}'' then Some (JObj [], tl (skip_space r))
         else map_option (apfst JObj) (parse_members (d - 1) r))
      else if take 4 (c # r) = ''null'' then Some (JNull, drop 3 r)
      else if take 4 (c # r) = ''true'' then Some (JBool True, drop 3 r)
      else if take 5 (c # r) = ''false'' then Some (JBool False, drop 4 r)
      else map_option (apfst JNum) (scan_number (c # r)))"
| "parse_elems d s =
     (case parse_value d (skip_space s) of
        None \<Rightarrow> None
      | Some (v, r) \<Rightarrow>
          (case skip_space r of
             c # r1 \<Rightarrow>
               if c = CHR '','' then
                 (if length r1 < length s then map_option (apfst (Cons v)) (parse_elems d r1) else None)
               else if c = CHR '']'' then Some ([v], r1) else None
           | [] \<Rightarrow> None))"
| "parse_members d s =
     (case read_key s of
        None \<Rightarrow> None
      | Some (k, r0) \<Rightarrow>
     (case parse_value d r0 of
        None \<Rightarrow> None
      | Some (v, r) \<Rightarrow>
          (case skip_space r of
             c # r1 \<Rightarrow>
               if c = CHR '','' then
                 (if length r1 < length s then map_option (apfst (Cons (k, v))) (parse_members d r1) else None)
               else if c = CHR ''}'' then Some ([(k, v)], r1) else None
           | [] \<Rightarrow> None)))"
  by pat_completeness auto

termination
proof (relation "measure (case_sum (\<lambda>(d, s). 2 * length s) (case_sum (\<lambda>(d, s). Suc (2 * length s)) (\<lambda>(d, s). Suc (2 * length s))))")
qed (auto simp: less_Suc_eq_le skip_space_le dest: read_key_shorter)

declare parse_elems.simps [simp del] parse_members.simps [simp del]

text \<open>The greatest depth \<open>encoding/json\<close> reads.\<close>

definition maxNestingDepth :: nat where
  "maxNestingDepth = 10000"

text \<open>
  \<open>Decoder.Decode\<close> reads one value and ignores what follows; behind a value that is no array or object it looks at
  one more byte. \<open>Unmarshal\<close> reads all of its input.
\<close>

definition json_Decode :: "string \<Rightarrow> json option" where
  "json_Decode s =
     (case parse_value maxNestingDepth (skip_space s) of
        None \<Rightarrow> None
      | Some (j, r) \<Rightarrow>
          (case j of
             JArr _ \<Rightarrow> Some j
           | JObj _ \<Rightarrow> Some j
           | _ \<Rightarrow> if r = [] \<or> is_json_space (hd r) then Some j else None))"

definition json_Unmarshal :: "string \<Rightarrow> json option" where
  "json_Unmarshal s =
     (case parse_value maxNestingDepth (skip_space s) of
        None \<Rightarrow> None
      | Some (j, r) \<Rightarrow> if skip_space r = [] then Some j else None)"

section \<open>Strings are read back\<close>

lemma hex_val_digit: "n < 16 \<Longrightarrow> hex_val (hex_digits ! n) = Some n"
proof -
  have "list_all (\<lambda>k. hex_val (hex_digits ! k) = Some k) [0..<16]" by code_simp
  then show "n < 16 \<Longrightarrow> ?thesis" by (simp add: list_all_iff)
qed

lemma hex_val_zero: "hex_val (CHR ''0'') = Some 0"
  by (simp add: hex_val_def)

lemma unquote_escape:
  "read_escape (e @ t) = Some (x, t) \<Longrightarrow> unquote (CHR 0x5C # e @ t) = map_option (apfst (append x)) (unquote t)"
  by (subst unquote.simps) simp

lemma unquote_plain:
  assumes "c \<noteq> CHR 0x22" and "c \<noteq> CHR 0x5C" and "32 \<le> (of_char c :: nat)" and "(of_char c :: nat) < 128"
  shows "unquote (c # t) = map_option (apfst (append [c])) (unquote t)"
proof -
  have "utf8_len (c # t) = 1" using assms(4) by (simp add: utf8_len_def utf8_lead_def)
  then show ?thesis using assms by (subst unquote.simps) simp
qed

lemma read_escape_simple: "unescape e = Some c \<Longrightarrow> read_escape (e # t) = Some ([c], t)"
  by (auto simp: read_escape_def unescape_def split: if_splits)

lemma read_escape_u:
  assumes "hex_val a = Some i" "hex_val b = Some j" "hex_val c = Some k" "hex_val d = Some l"
    and "n = ((i * 16 + j) * 16 + k) * 16 + l" and "n < 0xD800 \<or> 0xE000 \<le> n"
  shows "read_escape (CHR ''u'' # a # b # c # d # t) = Some (utf8_encode n, t)"
  using assms by (auto simp: read_escape_def getu4_def)

lemma esc_char_cases:
  obtains e where "esc_char c = [CHR 0x5C, e]" "unescape e = Some c"
  | "esc_char c = [CHR 0x5C, CHR ''u'', CHR ''0'', CHR ''0'', hex_digits ! (of_char c div 16), hex_digits ! (of_char c mod 16)]"
  | "esc_char c = [c]" "c \<noteq> CHR 0x22" "c \<noteq> CHR 0x5C" "32 \<le> (of_char c :: nat)"
proof -
  consider "c = CHR 0x22 \<or> c = CHR 0x5C" | "c = CHR 0x08" | "c = CHR 0x0C" | "c = CHR 0x0A" | "c = CHR 0x0D" | "c = CHR 0x09"
    | "c \<notin> {CHR 0x22, CHR 0x5C, CHR 0x08, CHR 0x0C, CHR 0x0A, CHR 0x0D, CHR 0x09}" by blast
  then show ?thesis
  proof cases
    case 1
    then show ?thesis by (intro that(1) [of c]) (auto simp: esc_char_def unescape_def)
  next
    case 2
    then show ?thesis by (intro that(1) [of "CHR ''b''"]) (simp_all add: esc_char_def unescape_def)
  next
    case 3
    then show ?thesis by (intro that(1) [of "CHR ''f''"]) (simp_all add: esc_char_def unescape_def)
  next
    case 4
    then show ?thesis by (intro that(1) [of "CHR ''n''"]) (simp_all add: esc_char_def unescape_def)
  next
    case 5
    then show ?thesis by (intro that(1) [of "CHR ''r''"]) (simp_all add: esc_char_def unescape_def)
  next
    case 6
    then show ?thesis by (intro that(1) [of "CHR ''t''"]) (simp_all add: esc_char_def unescape_def)
  next
    case 7
    then show ?thesis
      using that(2,3) by (cases "(of_char c :: nat) < 32 \<or> c = CHR ''<'' \<or> c = CHR ''>'' \<or> c = CHR ''&''") (simp_all add: esc_char_def)
  qed
qed

lemma unquote_esc_char:
  assumes "(of_char c :: nat) < 128"
  shows "unquote (esc_char c @ t) = map_option (apfst (append [c])) (unquote t)"
proof -
  have simple: "unquote (CHR 0x5C # e # t) = map_option (apfst (append [c])) (unquote t)" if "unescape e = Some c" for e
    using unquote_escape [of "[e]" t "[c]"] read_escape_simple [OF that] by simp
  have hex: "unquote ([CHR 0x5C, CHR ''u'', CHR ''0'', CHR ''0'', hex_digits ! (of_char c div 16), hex_digits ! (of_char c mod 16)] @ t) =
      map_option (apfst (append [c])) (unquote t)"
  proof -
    have "read_escape (CHR ''u'' # CHR ''0'' # CHR ''0'' # hex_digits ! (of_char c div 16) # hex_digits ! (of_char c mod 16) # t) =
        Some (utf8_encode (of_char c), t)"
      by (rule read_escape_u [where i = 0 and j = 0 and k = "of_char c div 16" and l = "of_char c mod 16"])
        (use assms in \<open>simp_all add: hex_val_digit less_mult_imp_div_less hex_val_zero\<close>)
    then show ?thesis using assms unquote_escape [of "[CHR ''u'', CHR ''0'', CHR ''0'', hex_digits ! (of_char c div 16), hex_digits ! (of_char c mod 16)]" t]
      by (simp add: utf8_encode_def)
  qed
  show ?thesis using assms
  proof (cases rule: esc_char_cases [of c])
    case (1 e)
    then show ?thesis using simple by simp
  next
    case 2
    then show ?thesis using hex by simp
  next
    case 3
    then show ?thesis using unquote_plain assms by simp
  qed
qed

lemma unquote_sequence:
  assumes "128 \<le> (of_char (hd s) :: nat)" and "0 < utf8_len s"
  shows "unquote (take (utf8_len s) s @ t) = map_option (apfst (append (take (utf8_len s) s))) (unquote t)"
proof -
  have s: "s \<noteq> []" using assms(2) by (auto simp: utf8_len_def)
  obtain c r where c: "take (utf8_len s) s @ t = c # r" using s assms(2) by (cases s; cases "utf8_len s") auto
  then have "c = hd s" using s assms(2) by (cases s; cases "utf8_len s") auto
  then have "c \<noteq> CHR 0x22" "c \<noteq> CHR 0x5C" "\<not> (of_char c :: nat) < 32" using assms(1) by auto
  moreover have "utf8_len (c # r) = utf8_len s" using utf8_len_local [OF assms(2), of t] unfolding c .
  moreover have "take (utf8_len s) (c # r) = take (utf8_len s) s" "drop (utf8_len s) (c # r) = t"
    using utf8_len_bound [of s] unfolding c [symmetric] by simp_all
  ultimately show ?thesis unfolding c using assms(2) by (subst unquote.simps) simp
qed

lemma utf8_encodings:
  "utf8_encode 8232 = [CHR 0xE2, CHR 0x80, CHR 0xA8]" "utf8_encode 8233 = [CHR 0xE2, CHR 0x80, CHR 0xA9]"
  "utf8_encode 65533 = rune_error"
  by (simp_all add: utf8_encode_def rune_error_def char_of_eq_iff take_bit_eq_mod)

lemma unquote_separator:
  assumes "separator_text s = Some e"
  shows "unquote (e @ t) = map_option (apfst (append (take (utf8_len s) s))) (unquote t)"
proof -
  have l: "utf8_len s = 3"
  proof -
    obtain x where x: "take 3 s = [CHR 0xE2, CHR 0x80, x]" "x = CHR 0xA8 \<or> x = CHR 0xA9"
      using assms by (auto simp: separator_text_def split: if_splits)
    then obtain r where "s = [CHR 0xE2, CHR 0x80, x] @ r" by (metis append_take_drop_id)
    then show ?thesis using x(2) by (auto simp: utf8_len_def utf8_lead_def)
  qed
  have u: "read_escape (CHR ''u'' # CHR ''2'' # CHR ''0'' # CHR ''2'' # d # t) = Some (utf8_encode n, t)"
    if "hex_val d = Some k" "n = 8224 + k" "k < 16" for d n k
    by (rule read_escape_u [where i = 2 and j = 0 and k = 2]) (use that in \<open>simp_all add: hex_val_def\<close>)
  show ?thesis
    using assms unquote_escape [of "''u2028''" t] unquote_escape [of "''u2029''" t] u [of "CHR ''8''" 8 8232] u [of "CHR ''9''" 9 8233]
    by (auto simp: separator_text_def l hex_val_def utf8_encodings split: if_splits)
qed

lemma unquote_quote_body: "unquote (quote_body s @ CHR 0x22 # t) = Some (json_string s, t)"
proof (induction s rule: quote_body.induct)
  case (1 s)
  let ?rest = "CHR 0x22 # t"
  consider "s = []" | "s \<noteq> []" "(of_char (hd s) :: nat) < 128" | "s \<noteq> []" "128 \<le> (of_char (hd s) :: nat)" "utf8_len s = 0"
    | "s \<noteq> []" "128 \<le> (of_char (hd s) :: nat)" "0 < utf8_len s"
    by fastforce
  then show ?case
  proof cases
    case 1
    then show ?thesis by (simp add: quote_body.simps unquote.simps)
  next
    case 2
    then have "json_string s = hd s # json_string (tl s)"
      by (cases s) (simp_all add: json_string_good utf8_len_def utf8_lead_def)
    then show ?thesis
      using 2 "1.IH"(1) unquote_esc_char [OF 2(2), of "quote_body (tl s) @ ?rest"] by (subst quote_body.simps) simp
  next
    case 3
    have "json_string s = rune_error @ json_string (tl s)" using 3 json_string_bad [of "hd s" "tl s"] by simp
    moreover have "read_escape (''ufffd'' @ quote_body (tl s) @ ?rest) = Some (rune_error, quote_body (tl s) @ ?rest)"
      using read_escape_u [of "CHR ''f''" 15 "CHR ''f''" 15 "CHR ''f''" 15 "CHR ''d''" 13 65533 "quote_body (tl s) @ ?rest"]
      by (simp add: hex_val_def utf8_encodings)
    ultimately show ?thesis
      using 3 "1.IH"(2) unquote_escape [of "''ufffd''" "quote_body (tl s) @ ?rest"] by (subst quote_body.simps) simp
  next
    case 4
    have "json_string s = take (utf8_len s) s @ json_string (drop (utf8_len s) s)" using json_string_good [OF 4(3)] .
    then show ?thesis
      using 4 "1.IH"(3) unquote_sequence [OF 4(2,3), of "quote_body (drop (utf8_len s) s) @ ?rest"]
        unquote_separator [of s _ "quote_body (drop (utf8_len s) s) @ ?rest"]
      by (subst quote_body.simps) (auto split: option.split)
  qed
qed

section \<open>Numbers are read back\<close>

text \<open>What may follow a number.\<close>

definition delim :: "string \<Rightarrow> bool" where
  "delim r \<longleftrightarrow> r = [] \<or> \<not> is_digit (hd r) \<and> hd r \<noteq> CHR ''.'' \<and> hd r \<noteq> CHR ''e'' \<and> hd r \<noteq> CHR ''E''"

definition json_number :: "string \<Rightarrow> bool" where
  "json_number lit \<longleftrightarrow> scan_number lit = Some (lit, [])"

lemma scan_digits_append:
  assumes "scan_digits s = Some (l, t)" and "t = [] \<Longrightarrow> delim r"
  shows "scan_digits (s @ r) = Some (l, t @ r)"
proof -
  have t: "t = dropWhile is_digit s" and l: "l = takeWhile is_digit s" "l \<noteq> []"
    using assms(1) by (auto simp: scan_digits_def split: if_splits)
  show ?thesis
  proof (cases "t = []")
    case True
    then have "\<forall>c \<in> set s. is_digit c" using t by (simp add: dropWhile_eq_Nil_conv)
    moreover have "takeWhile is_digit r = []" "dropWhile is_digit r = r"
      using assms(2) [OF True] by (cases r; simp add: delim_def)+
    ultimately show ?thesis using l True
      by (simp add: scan_digits_def takeWhile_append2 dropWhile_append2 takeWhile_eq_all_conv [THEN iffD2])
  next
    case False
    then obtain x where "x \<in> set s" "\<not> is_digit x" using t by (auto simp: dropWhile_eq_Nil_conv)
    then show ?thesis using t l by (simp add: scan_digits_def)
  qed
qed

lemma scan_int_append:
  "scan_int s = Some (l, t) \<Longrightarrow> (t = [] \<Longrightarrow> delim r) \<Longrightarrow> scan_int (s @ r) = Some (l, t @ r)"
  using scan_digits_append [of s l t r] by (auto simp: scan_int_def split: list.splits if_splits)

lemma scan_sign_append:
  "scan_sign s = Some (l, t) \<Longrightarrow> (t = [] \<Longrightarrow> delim r) \<Longrightarrow> scan_sign (s @ r) = Some (l, t @ r)"
  using scan_int_append [of s l t r] scan_int_append [of "tl s" "tl l" t r]
  by (auto simp: scan_sign_def split: list.splits if_splits)

lemma scan_frac_append:
  "scan_frac s = Some (l, t) \<Longrightarrow> (t = [] \<Longrightarrow> delim r) \<Longrightarrow> scan_frac (s @ r) = Some (l, t @ r)"
  using scan_digits_append [of "tl s" "tl l" t r]
  by (cases s; cases r) (auto simp: scan_frac_def delim_def split: if_splits)

lemma scan_exp_append:
  assumes "scan_exp s = Some (l, t)" and "t = [] \<Longrightarrow> delim r"
  shows "scan_exp (s @ r) = Some (l, t @ r)"
proof (cases s)
  case Nil
  then show ?thesis using assms by (cases r) (auto simp: scan_exp_def delim_def)
next
  case (Cons e s1)
  show ?thesis
  proof (cases "e = CHR ''e'' \<or> e = CHR ''E''")
    case True
    then obtain g s2 where g: "s1 = g # s2" using assms(1) Cons by (auto simp: scan_exp_def split: list.splits)
    show ?thesis
      using assms Cons g True scan_digits_append [of s2 "tl (tl l)" t r] scan_digits_append [of s1 "tl l" t r]
      by (auto simp: scan_exp_def split: if_splits)
  next
    case False
    then show ?thesis using assms(1) Cons by (auto simp: scan_exp_def)
  qed
qed

lemma scan_number_append:
  assumes "scan_number s = Some (l, t)" and "t = [] \<Longrightarrow> delim r"
  shows "scan_number (s @ r) = Some (l, t @ r)"
proof -
  obtain a r1 b r2 c where p: "scan_sign s = Some (a, r1)" "scan_frac r1 = Some (b, r2)" "scan_exp r2 = Some (c, t)" "l = a @ b @ c"
    using assms(1) by (auto simp: scan_number_def split: option.splits)
  have e: "r2 = [] \<Longrightarrow> delim r" using p(3) assms(2) by (auto simp: scan_exp_def)
  have f: "r1 = [] \<Longrightarrow> delim r" using p(2) e by (auto simp: scan_frac_def)
  show ?thesis
    using scan_sign_append [OF p(1) f] scan_frac_append [OF p(2) e] scan_exp_append [OF p(3) assms(2)] p(4)
    by (simp add: scan_number_def)
qed

lemma number_head:
  assumes "json_number lit"
  obtains c t where "lit = c # t" "c = CHR ''-'' \<or> is_digit c"
proof -
  obtain a r where "scan_sign lit = Some (a, r)" using assms by (auto simp: json_number_def scan_number_def split: option.splits)
  then show ?thesis
    using that by (cases lit)
      (auto simp: scan_sign_def scan_int_def scan_digits_def is_digit_def split: if_splits)
qed

lemma int_lit_number: "json_number (int_lit n)"
proof -
  have digits: "scan_int (nat_lit m) = Some (nat_lit m, [])" for m
  proof -
    show ?thesis
    proof (cases "m = 0")
      case True
      moreover have "char_of (48 :: nat) = CHR ''0''" by (simp add: char_of_eq_iff take_bit_eq_mod)
      ultimately show ?thesis by (simp add: nat_lit.simps [of 0] scan_int_def)
    next
      case False
      have "hd (nat_lit m) \<noteq> CHR ''0''" using False
      proof (induction m rule: nat_lit.induct)
        case (1 m)
        then show ?case using nat_lit_digits [of "m div 10"]
          by (cases "m < 10") (auto simp: nat_lit.simps [of m] char_of_eq_iff take_bit_eq_mod)
      qed
      moreover have "takeWhile is_digit (nat_lit m) = nat_lit m" "dropWhile is_digit (nat_lit m) = []"
        using nat_lit_digits [of m] by (auto simp: list_all_iff)
      ultimately show ?thesis using nat_lit_digits [of m] by (cases "nat_lit m") (auto simp: scan_int_def scan_digits_def)
    qed
  qed
  have "scan_sign (int_lit n) = Some (int_lit n, [])"
  proof (cases "n < 0")
    case False
    obtain c t where c: "nat_lit (nat n) = c # t" "is_digit c"
      using nat_lit_digits [of "nat n"] by (cases "nat_lit (nat n)") auto
    then have "c \<noteq> CHR ''-''" by (auto simp: is_digit_def)
    with c show ?thesis using digits [of "nat n"] False by (simp add: int_lit_def scan_sign_def)
  qed (simp add: int_lit_def scan_sign_def digits)
  then show ?thesis by (simp add: json_number_def scan_number_def scan_frac_def scan_exp_def)
qed

section \<open>Documents are read back\<close>

fun norm_json :: "json \<Rightarrow> json" where
  "norm_json (JStr s) = JStr (json_string s)"
| "norm_json (JArr vs) = JArr (map norm_json vs)"
| "norm_json (JObj ms) = JObj (map (\<lambda>(k, v). (json_string k, norm_json v)) ms)"
| "norm_json j = j"

fun json_depth :: "json \<Rightarrow> nat" where
  "json_depth (JArr vs) = Suc (foldr max (map json_depth vs) 0)"
| "json_depth (JObj ms) = Suc (foldr max (map (\<lambda>(k, v). json_depth v) ms) 0)"
| "json_depth j = 0"

fun numbers_ok :: "json \<Rightarrow> bool" where
  "numbers_ok (JNum lit) \<longleftrightarrow> json_number lit"
| "numbers_ok (JArr vs) \<longleftrightarrow> list_all numbers_ok vs"
| "numbers_ok (JObj ms) \<longleftrightarrow> list_all (\<lambda>(k, v). numbers_ok v) ms"
| "numbers_ok j \<longleftrightarrow> True"

abbreviation blank :: "string \<Rightarrow> bool" where
  "blank w \<equiv> list_all is_json_space w"

lemma skip_space_blank: "blank w \<Longrightarrow> skip_space (w @ s) = skip_space s"
  by (simp add: skip_space_def list_all_iff)

lemma skip_space_Cons: "\<not> is_json_space c \<Longrightarrow> skip_space (c # s) = c # s"
  by (simp add: skip_space_def)

lemma delim_blank:
  assumes "blank w" and "c = CHR '','' \<or> c = CHR '']'' \<or> c = CHR ''}''"
  shows "delim (w @ c # r)"
  using assms by (cases w) (auto simp: delim_def is_json_space_def is_digit_def)

lemma foldr_max_le: "foldr max ns 0 \<le> d \<longleftrightarrow> (\<forall>n \<in> set ns. n \<le> (d :: nat))"
  by (induction ns) auto

text \<open>A printed value starts with a character that is no space.\<close>

lemma print_head:
  assumes "numbers_ok j"
  obtains c t where "json_print lay sp n j = c # t" "\<not> is_json_space c" "c \<noteq> CHR '']''" "c \<noteq> CHR ''}''"
proof -
  have "\<exists>c t. json_print lay sp n j = c # t \<and> \<not> is_json_space c \<and> c \<noteq> CHR '']'' \<and> c \<noteq> CHR ''}''"
  proof (cases j)
    case (JNum lit)
    then have "json_number lit" using assms by simp
    then obtain c t where "lit = c # t" "c = CHR ''-'' \<or> is_digit c" by (rule number_head)
    moreover from this(2) have "\<not> is_json_space c" "c \<noteq> CHR '']''" "c \<noteq> CHR ''}''" by (auto simp: is_json_space_def is_digit_def)
    ultimately show ?thesis using JNum by simp
  qed (simp_all add: quote_def is_json_space_def)
  then show ?thesis using that by blast
qed

lemma skip_space_print: "numbers_ok j \<Longrightarrow> skip_space (json_print lay sp n j @ r) = json_print lay sp n j @ r"
  by (rule print_head [of j lay sp n]) (auto simp: skip_space_Cons)

text \<open>The elements of an array and the members of an object, for values that are read back.\<close>

lemma parse_elems_print:
  assumes "vs \<noteq> []" and "blank l1" and "blank l0"
    and "\<And>v r. v \<in> set vs \<Longrightarrow> delim r \<Longrightarrow>
      parse_value d (json_print lay sp n v @ r) = (if json_depth v \<le> d then Some (norm_json v, r) else None)"
    and "\<forall>v \<in> set vs. numbers_ok v"
  shows "parse_elems d (l1 @ join ('','' @ l1) (map (json_print lay sp n) vs) @ l0 @ CHR '']'' # r) =
    (if \<forall>v \<in> set vs. json_depth v \<le> d then Some (map norm_json vs, r) else None)"
  using assms(1,4,5)
proof (induction vs rule: list_nonempty_induct)
  case (single v)
  have "parse_value d (skip_space (l1 @ json_print lay sp n v @ l0 @ CHR '']'' # r)) =
      (if json_depth v \<le> d then Some (norm_json v, l0 @ CHR '']'' # r) else None)"
    using single assms(2,3) by (simp add: skip_space_blank skip_space_print delim_blank)
  then show ?case
    using assms(3) by (simp add: parse_elems.simps skip_space_blank skip_space_Cons is_json_space_def)
next
  case (cons v vs)
  let ?rest = "l1 @ join ('','' @ l1) (map (json_print lay sp n) vs) @ l0 @ CHR '']'' # r"
  obtain w ws where vs: "vs = w # ws" using cons.hyps(1) by (cases vs) auto
  have j: "l1 @ join ('','' @ l1) (map (json_print lay sp n) (v # vs)) @ l0 @ CHR '']'' # r =
      l1 @ json_print lay sp n v @ CHR '','' # ?rest"
    by (simp add: vs)
  have v: "parse_value d (skip_space (l1 @ json_print lay sp n v @ CHR '','' # ?rest)) =
      (if json_depth v \<le> d then Some (norm_json v, CHR '','' # ?rest) else None)"
    using cons.prems assms(2) delim_blank [of "[]" "CHR '',''"] by (simp add: skip_space_blank skip_space_print)
  have IH: "parse_elems d ?rest = (if \<forall>v \<in> set vs. json_depth v \<le> d then Some (map norm_json vs, r) else None)"
    by (rule cons.IH) (use cons.prems in auto)
  show ?case unfolding j
    by (subst parse_elems.simps, subst v) (simp add: IH [simplified] skip_space_Cons is_json_space_def)
qed

lemma read_key_print:
  assumes "blank l1" and "blank sp" and "skip_space s = s"
  shows "read_key (l1 @ quote k @ CHR '':'' # sp @ s) = Some (json_string k, s)"
  using assms unquote_quote_body [of k "CHR '':'' # sp @ s"]
  by (simp add: read_key_def quote_def skip_space_blank skip_space_Cons is_json_space_def)

lemma parse_members_print:
  assumes "ms \<noteq> []" and "blank l1" and "blank l0" and "blank sp"
    and "\<And>k v r. (k, v) \<in> set ms \<Longrightarrow> delim r \<Longrightarrow>
      parse_value d (json_print lay sp n v @ r) = (if json_depth v \<le> d then Some (norm_json v, r) else None)"
    and "\<forall>(k, v) \<in> set ms. numbers_ok v"
  shows "parse_members d (l1 @ join ('','' @ l1) (map (\<lambda>(k, v). quote k @ '':'' @ sp @ json_print lay sp n v) ms) @ l0 @ CHR ''}'' # r) =
    (if \<forall>(k, v) \<in> set ms. json_depth v \<le> d then Some (map (\<lambda>(k, v). (json_string k, norm_json v)) ms, r) else None)"
  using assms(1,5,6)
proof (induction ms rule: list_nonempty_induct)
  case (single m)
  obtain k v where m: "m = (k, v)" by fastforce
  have k: "read_key (l1 @ quote k @ CHR '':'' # sp @ json_print lay sp n v @ l0 @ CHR ''}'' # r) =
      Some (json_string k, json_print lay sp n v @ l0 @ CHR ''}'' # r)"
    by (rule read_key_print) (use assms(2,4) single m in \<open>simp_all add: skip_space_print\<close>)
  have v: "parse_value d (json_print lay sp n v @ l0 @ CHR ''}'' # r) =
      (if json_depth v \<le> d then Some (norm_json v, l0 @ CHR ''}'' # r) else None)"
    using single m assms(3) by (simp add: delim_blank)
  show ?case
    using k v assms(3) m by (simp add: parse_members.simps skip_space_blank skip_space_Cons is_json_space_def)
next
  case (cons m ms)
  obtain k v where m: "m = (k, v)" by fastforce
  let ?rest = "l1 @ join ('','' @ l1) (map (\<lambda>(k, v). quote k @ '':'' @ sp @ json_print lay sp n v) ms) @ l0 @ CHR ''}'' # r"
  obtain w ws where ms: "ms = w # ws" using cons.hyps(1) by (cases ms) auto
  have j: "l1 @ join ('','' @ l1) (map (\<lambda>(k, v). quote k @ '':'' @ sp @ json_print lay sp n v) (m # ms)) @ l0 @ CHR ''}'' # r =
      l1 @ quote k @ CHR '':'' # sp @ json_print lay sp n v @ CHR '','' # ?rest"
    by (simp add: ms m)
  have k: "read_key (l1 @ quote k @ CHR '':'' # sp @ json_print lay sp n v @ CHR '','' # ?rest) =
      Some (json_string k, json_print lay sp n v @ CHR '','' # ?rest)"
    by (rule read_key_print) (use assms(2,4) cons.prems m in \<open>simp_all add: skip_space_print\<close>)
  have v: "parse_value d (json_print lay sp n v @ CHR '','' # ?rest) =
      (if json_depth v \<le> d then Some (norm_json v, CHR '','' # ?rest) else None)"
    using cons.prems(1) [of k v] m delim_blank [of "[]" "CHR '',''"] by simp
  have IH: "parse_members d ?rest =
      (if \<forall>(k, v) \<in> set ms. json_depth v \<le> d then Some (map (\<lambda>(k, v). (json_string k, norm_json v)) ms, r) else None)"
  proof (rule cons.IH)
    show "parse_value d (json_print lay sp n v @ r) = (if json_depth v \<le> d then Some (norm_json v, r) else None)"
      if "(k, v) \<in> set ms" "delim r" for k v r
      using cons.prems(1) [of k v r] that by simp
  qed (use cons.prems(2) in simp)
  show ?case unfolding j
    by (subst parse_members.simps, simp only: k option.case prod.case, subst v) (simp add: IH [simplified] m skip_space_Cons is_json_space_def)
qed

lemma parse_value_print:
  assumes "\<And>n. blank (lay n)" and "blank sp"
  shows "numbers_ok j \<Longrightarrow> delim r \<Longrightarrow>
    parse_value d (json_print lay sp n j @ r) = (if json_depth j \<le> d then Some (norm_json j, r) else None)"
proof (induction j arbitrary: d n r)
  case (JNum lit)
  then have "scan_number (lit @ r) = Some (lit, r)" using scan_number_append [of lit lit "[]" r] by (simp add: json_number_def)
  moreover obtain c t where "lit = c # t" "c = CHR ''-'' \<or> is_digit c" using JNum by (auto elim: number_head)
  moreover from this(2) have "c \<notin> {CHR 0x22, CHR ''['', CHR ''{'', CHR ''n'', CHR ''t'', CHR ''f''}" by (auto simp: is_digit_def)
  ultimately show ?case by simp
next
  case (JStr s)
  then show ?case using unquote_quote_body [of s r] by (simp add: quote_def)
next
  case (JArr vs)
  show ?case
  proof (cases "vs = []")
    case True
    then show ?thesis by (simp add: skip_space_Cons is_json_space_def)
  next
    case False
    let ?rest = "lay (Suc n) @ join ('','' @ lay (Suc n)) (map (json_print lay sp (Suc n)) vs) @ lay n @ CHR '']'' # r"
    have "parse_elems (d - 1) ?rest = (if \<forall>v \<in> set vs. json_depth v \<le> d - 1 then Some (map norm_json vs, r) else None)"
      by (rule parse_elems_print [OF False assms(1,1)]) (use JArr in \<open>auto simp: list_all_iff\<close>)
    moreover have "take 1 (skip_space ?rest) \<noteq> '']''"
    proof -
      obtain v ws where vs: "vs = v # ws" using False by (cases vs) auto
      obtain c t where "json_print lay sp (Suc n) v = c # t" "\<not> is_json_space c" "c \<noteq> CHR '']''"
        using JArr.prems vs by (auto intro: print_head [of v lay sp "Suc n"])
      then show ?thesis using vs by (cases ws) (simp_all add: skip_space_blank assms(1) skip_space_Cons)
    qed
    ultimately show ?thesis using False by (cases d) (auto simp: foldr_max_le)
  qed
next
  case (JObj ms)
  show ?case
  proof (cases "ms = []")
    case True
    then show ?thesis by (simp add: skip_space_Cons is_json_space_def)
  next
    case False
    let ?rest = "lay (Suc n) @ join ('','' @ lay (Suc n)) (map (\<lambda>(k, v). quote k @ '':'' @ sp @ json_print lay sp (Suc n) v) ms) @ lay n @ CHR ''}'' # r"
    have "parse_members (d - 1) ?rest =
        (if \<forall>(k, v) \<in> set ms. json_depth v \<le> d - 1 then Some (map (\<lambda>(k, v). (json_string k, norm_json v)) ms, r) else None)"
      by (rule parse_members_print [OF False assms(1,1,2)]) (use JObj in \<open>fastforce simp: list_all_iff\<close>)+
    moreover have "take 1 (skip_space ?rest) \<noteq> ''}''"
    proof -
      obtain k v ws where "ms = (k, v) # ws" using False by (cases ms) auto
      then show ?thesis by (cases ws) (simp_all add: skip_space_blank assms(1) skip_space_Cons quote_def is_json_space_def)
    qed
    ultimately show ?thesis using False by (cases d) (auto simp: foldr_max_le case_prod_beta)
  qed
qed auto

text \<open>What is written is read back, if it is not nested too deep.\<close>

lemma json_Decode_print:
  assumes "\<And>n. blank (lay n)" and "blank sp" and "numbers_ok j" and "blank r"
  shows "json_Decode (json_print lay sp 0 j @ r) = (if json_depth j \<le> maxNestingDepth then Some (norm_json j) else None)"
    and "json_Unmarshal (json_print lay sp 0 j @ r) = (if json_depth j \<le> maxNestingDepth then Some (norm_json j) else None)"
proof -
  have d: "delim r" using assms(4) by (cases r) (auto simp: delim_def is_json_space_def is_digit_def)
  have r: "r = [] \<or> is_json_space (hd r)" "skip_space r = []"
    using assms(4) skip_space_blank [OF assms(4), of "[]"] by (cases r; simp add: skip_space_def)+
  have p: "parse_value maxNestingDepth (skip_space (json_print lay sp 0 j @ r)) =
      (if json_depth j \<le> maxNestingDepth then Some (norm_json j, r) else None)"
    using parse_value_print [of lay sp, OF assms(1,2,3) d] skip_space_print [OF assms(3)] by simp
  show "json_Decode (json_print lay sp 0 j @ r) = (if json_depth j \<le> maxNestingDepth then Some (norm_json j) else None)"
    using r(1) by (cases "norm_json j") (auto simp: json_Decode_def p)
  show "json_Unmarshal (json_print lay sp 0 j @ r) = (if json_depth j \<le> maxNestingDepth then Some (norm_json j) else None)"
    using r(2) by (simp add: json_Unmarshal_def p)
qed

lemma json_Decode_Marshal:
  "numbers_ok j \<Longrightarrow> json_Decode (json_Marshal j) = (if json_depth j \<le> maxNestingDepth then Some (norm_json j) else None)"
  using json_Decode_print(1) [of "\<lambda>_. []" "[]" j "[]"] by (simp add: json_Marshal_def)

lemma json_Decode_Encode:
  "numbers_ok j \<Longrightarrow> json_Decode (json_Encode j) = (if json_depth j \<le> maxNestingDepth then Some (norm_json j) else None)"
  using json_Decode_print(1) [of "\<lambda>_. []" "[]" j "[CHR 0x0A]"]
  by (simp add: json_Encode_def json_Marshal_def is_json_space_def)

lemma json_Unmarshal_Marshal:
  "numbers_ok j \<Longrightarrow> json_Unmarshal (json_Marshal j) = (if json_depth j \<le> maxNestingDepth then Some (norm_json j) else None)"
  using json_Decode_print(2) [of "\<lambda>_. []" "[]" j "[]"] by (simp add: json_Marshal_def)

lemma json_Unmarshal_MarshalIndent:
  "numbers_ok j \<Longrightarrow> json_Unmarshal (json_MarshalIndent j) = (if json_depth j \<le> maxNestingDepth then Some (norm_json j) else None)"
  using json_Decode_print(2) [of "\<lambda>n. CHR 0x0A # replicate (2 * n) (CHR '' '')" "'' ''" j "[]"]
  by (simp add: json_MarshalIndent_def is_json_space_def list_all_iff)

lemma json_Decode_empty [simp]: "json_Decode [] = None"
  by (simp add: json_Decode_def skip_space_def)

text \<open>A value takes up some of the input.\<close>

lemma scan_digits_le: "scan_digits s = Some (l, r) \<Longrightarrow> length r < length s"
proof -
  assume "scan_digits s = Some (l, r)"
  then have "takeWhile is_digit s \<noteq> []" "r = dropWhile is_digit s" by (auto simp: scan_digits_def split: if_splits)
  then have "length s = length (takeWhile is_digit s) + length r" by (metis length_append takeWhile_dropWhile_id)
  then show ?thesis using \<open>takeWhile is_digit s \<noteq> []\<close> by simp
qed

lemma scan_number_shorter:
  assumes "scan_number s = Some (l, r)"
  shows "length r < length s"
proof -
  obtain a r1 b r2 c where p: "scan_sign s = Some (a, r1)" "scan_frac r1 = Some (b, r2)" "scan_exp r2 = Some (c, r)"
    using assms by (auto simp: scan_number_def split: option.splits)
  have "length r1 < length s"
    using p(1) by (fastforce simp: scan_sign_def scan_int_def dest: scan_digits_le split: list.splits if_splits)
  moreover have "length r2 \<le> length r1"
    using p(2) by (fastforce simp: scan_frac_def dest: scan_digits_le split: list.splits if_splits)
  moreover have "length r \<le> length r2"
    using p(3) by (fastforce simp: scan_exp_def dest: scan_digits_le split: list.splits if_splits)
  ultimately show ?thesis by simp
qed

lemma parse_shorter:
  "parse_value d s = Some (v, r) \<Longrightarrow> length r < length s"
  "parse_elems d s = Some (vs, r) \<Longrightarrow> length r < length s"
  "parse_members d s = Some (ms, r) \<Longrightarrow> length r < length s"
proof (induction d s and d s and d s arbitrary: v r and vs r and ms r rule: parse_value_parse_elems_parse_members.induct)
  case (2 d c t)
  note le = skip_space_le [of t]
  have elems: "length r < length t" if "c = CHR ''[''" "0 < d" "take 1 (skip_space t) \<noteq> '']''" "parse_elems (d - 1) t = Some (a, r)" for a
    using 2(1) [of a r] that by simp
  have members: "length r < length t" if "c = CHR ''{''" "0 < d" "take 1 (skip_space t) \<noteq> ''}''" "parse_members (d - 1) t = Some (a, r)" for a
    using 2(2) [of a r] that by simp
  from 2(3) show ?case
    by (auto simp: le_imp_less_Suc less_SucI dest: elems members unquote_shorter scan_number_shorter
        intro: le_less_trans [OF _ le_imp_less_Suc [OF le]] split: if_splits)
next
  case (3 d s)
  obtain v r0 where v: "parse_value d (skip_space s) = Some (v, r0)" using 3(3) by (auto simp: parse_elems.simps split: option.splits)
  have l: "length (skip_space r0) < length s" using 3(1) [OF v] skip_space_le [of s] skip_space_le [of r0] by simp
  show ?case
    using 3(3) v l 3(2) [OF v refl]
    by (auto simp: parse_elems.simps [of d s] split: list.splits if_splits option.splits) force
next
  case (4 d s)
  obtain k r0 where k: "read_key s = Some (k, r0)" using 4(3) by (auto simp: parse_members.simps split: option.splits)
  obtain v r1 where v: "parse_value d r0 = Some (v, r1)" using 4(3) k by (auto simp: parse_members.simps split: option.splits)
  have l: "length (skip_space r1) < length s"
    using 4(1) [OF k refl v] read_key_shorter [OF k] skip_space_le [of r1] by simp
  show ?case
    using 4(3) k v l 4(2) [OF k refl v refl]
    by (auto simp: parse_members.simps [of d s] split: list.splits if_splits option.splits) force
qed simp

end
