(* ===== verification/Http.thy ===== *)
theory Http
  imports JsonText
begin

text \<open>
  What the program sees of \<open>net/http\<close>: a request with its headers, cookies, parameters and body, and cookies to set.
  Parsing the bytes of a request into headers and forms is left to the library: a request holds the parsed form, and its
  body as bytes.
\<close>

section \<open>Requests\<close>

text \<open>
  \<open>r_TLS\<close> is the connection state: absent on plain HTTP, else the common names of the peer
  certificates. Headers, cookies and parameters are kept in the order received. \<open>r_PathID\<close> is the
  \<open>session_id\<close> parameter of the route.
\<close>

record request =
  r_Method :: string
  r_Path :: string
  r_RemoteAddr :: string
  r_TLS :: "string list option"
  r_Header :: "(string \<times> string) list"
  r_Cookies :: "(string \<times> string) list"
  r_Query :: "(string \<times> string) list"
  r_PostForm :: "(string \<times> string) list"
  r_FormErr :: bool
  r_Body :: string
  r_PathID :: string

definition first_value :: "string \<Rightarrow> (string \<times> string) list \<Rightarrow> string" where
  "first_value k kvs = (case map_of kvs k of None \<Rightarrow> '''' | Some v \<Rightarrow> v)"

definition header_Get :: "request \<Rightarrow> string \<Rightarrow> string" where
  "header_Get r k = first_value k (r_Header r)"

definition query_Get :: "request \<Rightarrow> string \<Rightarrow> string" where
  "query_Get r k = first_value k (r_Query r)"

definition r_FormValue :: "request \<Rightarrow> string \<Rightarrow> string" where
  "r_FormValue r k = first_value k (r_PostForm r @ r_Query r)"

definition r_PostFormValue :: "request \<Rightarrow> string \<Rightarrow> string" where
  "r_PostFormValue r k = first_value k (r_PostForm r)"

definition r_Cookie :: "request \<Rightarrow> string \<Rightarrow> string option" where
  "r_Cookie r name = map_of (r_Cookies r) name"

section \<open>Cookies a response sets\<close>

datatype same_site = SameSiteLaxMode | SameSiteNoneMode

record cookie =
  c_Name :: string
  c_Value :: string
  c_Path :: string
  c_MaxAge :: int
  c_HttpOnly :: bool
  c_Secure :: bool
  c_SameSite :: same_site

end
