(* ===== verification/ClientIP.thy ===== *)
theory ClientIP
  imports Http GoNet
begin

text \<open>
  \<open>internal/broker/clientip.go\<close>: which address a request is attributed to, and the network gate of
  \<open>/auth/start\<close>. The lemmas characterise the answer: it comes from the proxy header only when the
  peer is a trusted proxy, and then it is the rightmost hop that is not one, so nothing a client
  writes to the left of that hop has any effect.
\<close>

section \<open>Definitions\<close>

fun any_contains :: "netip_prefix list \<Rightarrow> netip_addr \<Rightarrow> bool" where
  "any_contains [] addr = False"
| "any_contains (p # ps) addr = (if netip_Contains p addr then True else any_contains ps addr)"

definition isTrustedHost :: "string \<Rightarrow> netip_prefix list \<Rightarrow> bool" where
  "isTrustedHost host trusted =
     (case netip_ParseAddr host of None \<Rightarrow> False | Some addr \<Rightarrow> any_contains trusted addr)"

text \<open>The loop over the hops, from the last to the first: the argument is the reversed list.\<close>

fun last_untrusted :: "netip_prefix list \<Rightarrow> string list \<Rightarrow> string option" where
  "last_untrusted trusted [] = None"
| "last_untrusted trusted (h # hs) =
     (let hop = strings_TrimSpace h in
      if \<not> isTrustedHost hop trusted then Some hop else last_untrusted trusted hs)"

text \<open>The host of the peer: \<open>RemoteAddr\<close> without its port, or as it is when it has none.\<close>

definition peer_host :: "request \<Rightarrow> string" where
  "peer_host r =
     (case net_SplitHostPort (r_RemoteAddr r) of
        None \<Rightarrow> r_RemoteAddr r
      | Some (host, port) \<Rightarrow> host)"

definition resolveClientIP :: "request \<Rightarrow> netip_prefix list \<Rightarrow> string" where
  "resolveClientIP r trusted =
     (let host = peer_host r in
      if \<not> isTrustedHost host trusted then host
      else
        let xff = header_Get r ''X-Forwarded-For'' in
        if xff = '''' then host
        else
          (case last_untrusted trusted (rev (strings_Split (CHR '','') xff)) of
             Some hop \<Rightarrow> hop
           | None \<Rightarrow> host))"

definition isAllowedClient :: "string \<Rightarrow> netip_prefix list \<Rightarrow> bool" where
  "isAllowedClient ip allowed =
     (if length allowed = 0 then True
      else (case netip_ParseAddr ip of None \<Rightarrow> False | Some addr \<Rightarrow> any_contains allowed addr))"

section \<open>Lemmas\<close>

lemma peer_host_frame [simp]: "peer_host (r\<lparr>r_Header := hs\<rparr>) = peer_host r"
  by (simp add: peer_host_def cong: option.case_cong)

lemma any_contains_iff: "any_contains ps a \<longleftrightarrow> (\<exists>p \<in> set ps. netip_Contains p a)"
  by (induction ps) auto

lemma isTrustedHost_Nil [simp]: "\<not> isTrustedHost h []"
  by (simp add: isTrustedHost_def split: option.splits)

lemma last_untrusted_append:
  "last_untrusted t (xs @ ys) =
     (case last_untrusted t xs of Some h \<Rightarrow> Some h | None \<Rightarrow> last_untrusted t ys)"
  by (induction xs) (auto simp: Let_def)

lemma last_untrusted_Some:
  "last_untrusted t hs = Some h \<Longrightarrow> \<not> isTrustedHost h t \<and> h \<in> strings_TrimSpace ` set hs"
  by (induction hs) (auto simp: Let_def split: if_splits)

lemma resolveClientIP_untrusted_peer:
  "\<not> isTrustedHost (peer_host r) t \<Longrightarrow> resolveClientIP r t = peer_host r"
  by (simp add: resolveClientIP_def)

lemma resolveClientIP_trusted_peer:
  assumes "isTrustedHost (peer_host r) t"
  shows "resolveClientIP r t =
    (if header_Get r ''X-Forwarded-For'' = '''' then peer_host r
     else case last_untrusted t (rev (strings_Split (CHR '','') (header_Get r ''X-Forwarded-For''))) of
            Some hop \<Rightarrow> hop | None \<Rightarrow> peer_host r)"
  using assms by (simp add: resolveClientIP_def)

section \<open>Properties\<close>

definition demo_request :: request where
  "demo_request = \<lparr>r_Method = ''POST'', r_Path = ''/auth/start'', r_RemoteAddr = ''192.0.2.7:5123'',
     r_TLS = None, r_Header = [(''X-Forwarded-For'', ''10.9.9.9'')], r_Cookies = [], r_Query = [],
     r_PostForm = [], r_FormErr = False, r_Body = '''', r_PathID = ''''\<rparr>"

text \<open>An untrusted peer cannot choose its address. When the immediate peer is not in the trusted
  list, the resolved address is the peer's own, whatever headers the request carries.\<close>

theorem untrusted_peer_headers_ignored:
  assumes "\<not> isTrustedHost (peer_host r) trusted"
  shows "resolveClientIP (r\<lparr>r_Header := hs\<rparr>) trusted = peer_host r"
  using assms by (simp add: resolveClientIP_untrusted_peer)

theorem untrusted_peer_headers_ignored_witness:
  "resolveClientIP (demo_request\<lparr>r_Header := [(''X-Forwarded-For'', ''1.2.3.4'')]\<rparr>) [] = peer_host demo_request"
  by (rule untrusted_peer_headers_ignored) simp

text \<open>C35: Spoofed hops have no effect. Behind a trusted proxy that appended a hop outside the trusted
  list, the resolved address is the rightmost such hop; whatever a client prepends to the header
  changes nothing.\<close>

theorem spoofed_hops_ignored:
  assumes "isTrustedHost (peer_host r) trusted"
    and "header_Get r ''X-Forwarded-For'' = spoofed @ CHR '','' # appended"
    and "last_untrusted trusted (rev (strings_Split (CHR '','') appended)) = Some hop"
  shows "resolveClientIP r trusted = hop \<and> \<not> isTrustedHost hop trusted"
  using assms last_untrusted_Some [OF assms(3)]
  by (simp add: resolveClientIP_trusted_peer strings_Split_append last_untrusted_append)

theorem spoofed_hops_ignored_witness:
  "resolveClientIP (demo_request\<lparr>r_RemoteAddr := ''10.0.0.1:80'',
       r_Header := [(''X-Forwarded-For'', ''1.2.3.4'' @ CHR '','' # ''203.0.113.5'')]\<rparr>)
     [\<lparr>pf_addr = IP4 0x0A000000, pf_bits = 8\<rparr>] = ''203.0.113.5'' \<and>
   \<not> isTrustedHost ''203.0.113.5'' [\<lparr>pf_addr = IP4 0x0A000000, pf_bits = 8\<rparr>]"
proof (rule spoofed_hops_ignored [where appended = "''203.0.113.5''" and spoofed = "''1.2.3.4''"])
  show "isTrustedHost (peer_host (demo_request\<lparr>r_RemoteAddr := ''10.0.0.1:80'',
       r_Header := [(''X-Forwarded-For'', ''1.2.3.4'' @ CHR '','' # ''203.0.113.5'')]\<rparr>))
     [\<lparr>pf_addr = IP4 0x0A000000, pf_bits = 8\<rparr>]"
    by code_simp
  show "last_untrusted [\<lparr>pf_addr = IP4 0x0A000000, pf_bits = 8\<rparr>]
     (rev (strings_Split (CHR '','') ''203.0.113.5'')) = Some ''203.0.113.5''"
    by code_simp
qed (simp add: header_Get_def first_value_def)

text \<open>The network gate. With an empty list every address may start; with a list, exactly the
  addresses that parse and lie in one of its prefixes may, so anything unparsable is refused.\<close>

theorem isAllowedClient_iff:
  "isAllowedClient ip allowed \<longleftrightarrow>
     allowed = [] \<or>
     (\<exists>addr. netip_ParseAddr ip = Some addr \<and> (\<exists>p \<in> set allowed. netip_Contains p addr))"
  by (auto simp: isAllowedClient_def any_contains_iff split: option.splits)

end
