(* ===== verification/ClientAuth.thy ===== *)
theory ClientAuth
  imports Http GoCrypto
begin

text \<open>
  \<open>internal/broker/clientauth.go\<close>: the optional gate on \<open>/auth/start\<close>. An authenticator maps a
  request to the verified client id, or refuses it (\<open>None\<close> stands for
  \<open>ErrClientNotAuthenticated\<close>). Go visits the entries of the token map in an unspecified order;
  the model takes the entries in the order visited, and the order is shown not to matter.
\<close>

section \<open>Definitions\<close>

type_synonym client_authenticator = "request \<Rightarrow> string option"

record StaticTokenClientAuth =
  sa_Tokens :: "(string \<times> string) list"

fun token_loop :: "string \<Rightarrow> (string \<times> string) list \<Rightarrow> string option" where
  "token_loop token [] = None"
| "token_loop token ((known, cid) # rest) =
     (if subtle_ConstantTimeCompare (bytes_of token) (bytes_of known) = 1 then Some cid
      else token_loop token rest)"

definition static_Authenticate :: "StaticTokenClientAuth \<Rightarrow> client_authenticator" where
  "static_Authenticate a r =
     (let auth = header_Get r ''Authorization'' in
      if \<not> strings_HasPrefix auth ''Bearer '' then None
      else token_loop (strings_TrimPrefix auth ''Bearer '') (sa_Tokens a))"

definition mtls_Authenticate :: client_authenticator where
  "mtls_Authenticate r =
     (case r_TLS r of
        None \<Rightarrow> None
      | Some certs \<Rightarrow> (case certs of [] \<Rightarrow> None | cn # rest \<Rightarrow> Some cn))"

section \<open>Lemmas and properties\<close>

lemma token_loop_map_of: "token_loop t es = map_of es t"
  by (induction es) auto

lemma HasPrefix_iff: "strings_HasPrefix s p \<longleftrightarrow> (\<exists>t. s = p @ t)"
  unfolding strings_HasPrefix_def by (metis append_eq_conv_conj append_take_drop_id)

lemma TrimPrefix_append: "strings_TrimPrefix (p @ t) p = t"
  by (simp add: strings_TrimPrefix_def strings_HasPrefix_def)

text \<open>A static-token client is accepted exactly when its \<open>Authorization\<close> header is \<open>Bearer\<close>, a
  space and one of the configured tokens, and is then given that token's client id; the order in
  which the token map is visited does not matter.\<close>

theorem static_token_auth_iff:
  assumes "map_of entries = tokens" and "distinct (map fst entries)"
  shows "static_Authenticate \<lparr>sa_Tokens = entries\<rparr> r = Some cid \<longleftrightarrow>
    (\<exists>token. header_Get r ''Authorization'' = ''Bearer '' @ token \<and> tokens token = Some cid)"
proof -
  have "static_Authenticate \<lparr>sa_Tokens = entries\<rparr> r = Some cid \<longleftrightarrow>
      strings_HasPrefix (header_Get r ''Authorization'') ''Bearer '' \<and>
      tokens (strings_TrimPrefix (header_Get r ''Authorization'') ''Bearer '') = Some cid"
    using assms(1) by (simp add: static_Authenticate_def token_loop_map_of Let_def)
  then show ?thesis
    by (metis HasPrefix_iff TrimPrefix_append)
qed

theorem static_token_auth_iff_witness:
  "static_Authenticate \<lparr>sa_Tokens = [(''t1'', ''ci''), (''t2'', ''cli'')]\<rparr>
     \<lparr>r_Method = '''', r_Path = '''', r_RemoteAddr = '''', r_TLS = None,
      r_Header = [(''Authorization'', ''Bearer t2'')], r_Cookies = [], r_Query = [],
      r_PostForm = [], r_FormErr = False, r_Body = '''', r_PathID = ''''\<rparr> = Some ''cli''"
  by (subst static_token_auth_iff [OF refl])
    (simp_all add: header_Get_def first_value_def)

end
