(* ===== verification/RateLimit.thy ===== *)
theory RateLimit
  imports Complex_Main XPrelude
begin

text \<open>
  \<open>internal/broker/ratelimit.go\<close>: one token bucket per key. The bucket itself is
  \<open>golang.org/x/time/rate\<close>, which is not part of the repository: it is a parameter, the record
  \<open>rate_ops\<close> of its constructor and its \<open>Allow\<close>, over an abstract state of type \<open>'l\<close>. A
  \<open>rate.Limit\<close> is a rational number of events per second.
\<close>

section \<open>Definitions\<close>

record 'l rate_ops =
  rl_NewLimiter :: "rat \<Rightarrow> int \<Rightarrow> 'l"
  rl_Allow :: "'l \<Rightarrow> time \<Rightarrow> bool \<times> 'l"

record 'l limiterEntry =
  le_limiter :: 'l
  le_lastSeen :: time

record 'l keyedLimiter =
  kl_limit :: rat
  kl_burst :: int
  kl_idleTTL :: duration
  kl_entries :: "string \<rightharpoonup> 'l limiterEntry"

definition newKeyedLimiter :: "rat \<Rightarrow> int \<Rightarrow> duration \<Rightarrow> 'l keyedLimiter" where
  "newKeyedLimiter r burst idleTTL =
     \<lparr>kl_limit = r, kl_burst = burst, kl_idleTTL = idleTTL, kl_entries = Map.empty\<rparr>"

definition sweepLocked :: "time \<Rightarrow> 'l keyedLimiter \<Rightarrow> 'l keyedLimiter" where
  "sweepLocked now k =
     k\<lparr>kl_entries := (\<lambda>key. case kl_entries k key of
                        None \<Rightarrow> None
                      | Some e \<Rightarrow> if time_Sub now (le_lastSeen e) > kl_idleTTL k then None else Some e)\<rparr>"

text \<open>\<open>Allow\<close> reads the clock for the sweep; the bucket's own \<open>Allow\<close> reads it again.\<close>

definition limiter_Allow ::
  "'l rate_ops \<Rightarrow> string \<Rightarrow> 'l keyedLimiter \<Rightarrow> world \<Rightarrow> bool \<times> 'l keyedLimiter \<times> world" where
  "limiter_Allow R key k w =
     (let (now, w1) = time_Now w;
          k1 = sweepLocked now k;
          lim = (case kl_entries k1 key of
                   None \<Rightarrow> rl_NewLimiter R (kl_limit k1) (kl_burst k1)
                 | Some e \<Rightarrow> le_limiter e);
          (now', w2) = time_Now w1;
          (ok, lim') = rl_Allow R lim now'
      in (ok, k1\<lparr>kl_entries := (kl_entries k1)(key \<mapsto> \<lparr>le_limiter = lim', le_lastSeen = now\<rparr>)\<rparr>, w2))"

section \<open>Lemmas and properties\<close>

lemma limiter_Allow_clock:
  "limiter_Allow R key k w = (b, k', w') \<Longrightarrow> w_clock w' = w_clock w \<and> w_rand w' = w_rand w \<and>
     w_rfail w' = w_rfail w \<and> w_rpos w' = w_rpos w"
  by (auto simp: limiter_Allow_def time_Now_def Let_def split: prod.splits)

lemma sweepLocked_config [simp]:
  "kl_limit (sweepLocked now k) = kl_limit k" "kl_burst (sweepLocked now k) = kl_burst k"
  "kl_idleTTL (sweepLocked now k) = kl_idleTTL k"
  by (simp_all add: sweepLocked_def)

lemma sweepLocked_entries:
  "kl_entries (sweepLocked now k) key = Some e \<longleftrightarrow>
     kl_entries k key = Some e \<and> time_Sub now (le_lastSeen e) \<le> kl_idleTTL k"
  by (auto simp: sweepLocked_def split: option.splits)

text \<open>The bucket a request for \<open>key\<close> is decided with: the key's own, or a new one.\<close>

definition bucket_for :: "'l rate_ops \<Rightarrow> string \<Rightarrow> time \<Rightarrow> 'l keyedLimiter \<Rightarrow> 'l" where
  "bucket_for R key now k =
     (case kl_entries (sweepLocked now k) key of
        None \<Rightarrow> rl_NewLimiter R (kl_limit k) (kl_burst k)
      | Some e \<Rightarrow> le_limiter e)"

lemma limiter_Allow_alt:
  "limiter_Allow R key k w =
     (let now = w_clock w (w_tick w);
          res = rl_Allow R (bucket_for R key now k) (w_clock w (Suc (w_tick w)))
      in (fst res,
          (sweepLocked now k)\<lparr>kl_entries := (kl_entries (sweepLocked now k))
             (key \<mapsto> \<lparr>le_limiter = snd res, le_lastSeen = now\<rparr>)\<rparr>,
          w\<lparr>w_tick := Suc (Suc (w_tick w))\<rparr>))"
  unfolding limiter_Allow_def bucket_for_def time_Now_def Let_def sweepLocked_config prod.case
  by (simp add: case_prod_beta)

text \<open>Keys do not share a budget. Asking for one key decides with that key's own bucket (a new one
  if the key is unknown or was idle too long), leaves the bucket of every other key that is still
  kept untouched, and forgets exactly the other keys that were idle longer than the idle time.\<close>

theorem rate_limit_isolation:
  fixes R :: "'l rate_ops" and key other :: string
  assumes "other \<noteq> key"
  shows "fst (limiter_Allow R key k w) =
      fst (rl_Allow R (case kl_entries k key of
             Some e \<Rightarrow> if time_Sub (w_clock w (w_tick w)) (le_lastSeen e) > kl_idleTTL k
                       then rl_NewLimiter R (kl_limit k) (kl_burst k) else le_limiter e
           | None \<Rightarrow> rl_NewLimiter R (kl_limit k) (kl_burst k)) (w_clock w (Suc (w_tick w)))) \<and>
    kl_entries (fst (snd (limiter_Allow R key k w))) other =
      (case kl_entries k other of
         Some e \<Rightarrow> if time_Sub (w_clock w (w_tick w)) (le_lastSeen e) > kl_idleTTL k then None else Some e
       | None \<Rightarrow> None)"
proof -
  have "bucket_for R key (w_clock w (w_tick w)) k = (case kl_entries k key of
             Some e \<Rightarrow> if time_Sub (w_clock w (w_tick w)) (le_lastSeen e) > kl_idleTTL k
                       then rl_NewLimiter R (kl_limit k) (kl_burst k) else le_limiter e
           | None \<Rightarrow> rl_NewLimiter R (kl_limit k) (kl_burst k))"
    by (simp add: bucket_for_def sweepLocked_def split: option.splits)
  then show ?thesis
    using assms(1) by (simp add: limiter_Allow_alt Let_def sweepLocked_def)
qed

theorem rate_limit_isolation_witness:
  "kl_entries (fst (snd (limiter_Allow
       (\<lparr>rl_NewLimiter = (\<lambda>r b. b), rl_Allow = (\<lambda>l t. (0 < l, l - 1))\<rparr> :: int rate_ops)
       ''alice''
       \<lparr>kl_limit = 1 / 5, kl_burst = 5, kl_idleTTL = 100,
        kl_entries = [''bob'' \<mapsto> \<lparr>le_limiter = 2, le_lastSeen = 3\<rparr>]\<rparr>
       \<lparr>w_rand = (\<lambda>_. 0), w_rfail = (\<lambda>_. False), w_rpos = 0, w_clock = int, w_tick = 5\<rparr>))) ''bob'' =
     Some \<lparr>le_limiter = 2, le_lastSeen = 3\<rparr>"
  by (subst rate_limit_isolation [THEN conjunct2]) (simp_all add: time_Sub_def minInt64_def maxInt64_def)

section \<open>The budget of a key\<close>

text \<open>A sequence of calls, with the answer to each.\<close>

fun limiter_run ::
  "'l rate_ops \<Rightarrow> string list \<Rightarrow> 'l keyedLimiter \<Rightarrow> world \<Rightarrow> (string \<times> bool) list \<times> 'l keyedLimiter \<times> world"
where
  "limiter_run R [] k w = ([], k, w)"
| "limiter_run R (key # keys) k w =
     (let (ok, k1, w1) = limiter_Allow R key k w;
          (rest, k2, w2) = limiter_run R keys k1 w1
      in ((key, ok) # rest, k2, w2))"

definition allowed :: "string \<Rightarrow> (string \<times> bool) list \<Rightarrow> nat" where
  "allowed key answers = length (filter (\<lambda>e. e = (key, True)) answers)"

text \<open>
  What \<open>golang.org/x/time/rate\<close> documents of a limiter: a bucket of \<open>cap\<close> tokens, full at first,
  refilled at \<open>r\<close> tokens per second up to \<open>cap\<close>; \<open>Allow\<close> takes one token if there is one.
  \<open>tokens l t\<close> is the content of the bucket \<open>l\<close> at the instant \<open>t\<close>.
\<close>

definition refilled :: "rat \<Rightarrow> time \<Rightarrow> time \<Rightarrow> rat" where
  "refilled r t t' = r * of_int (t' - t) / of_int second"

locale token_bucket =
  fixes R :: "'l rate_ops"
    and tokens :: "'l \<Rightarrow> time \<Rightarrow> rat"
    and r :: rat
    and cap :: int
  assumes new_full: "tokens (rl_NewLimiter R r cap) t = of_int cap"
    and allow_iff: "fst (rl_Allow R l t) \<longleftrightarrow> 1 \<le> tokens l t"
    and refill: "t \<le> t' \<Longrightarrow> tokens (snd (rl_Allow R l t)) t' =
      min (of_int cap)
        (tokens l t - (if fst (rl_Allow R l t) then 1 else 0) + refilled r t t')"
    and rate_nonneg: "0 \<le> r"
    and cap_nonneg: "0 \<le> cap"
begin

text \<open>A bucket last used at \<open>t0\<close> with \<open>b\<close> tokens left.\<close>

definition used :: "'l \<Rightarrow> time \<Rightarrow> bool" where
  "used l t0 \<longleftrightarrow> (\<exists>b\<ge>0. \<forall>t\<ge>t0. tokens l t = min (of_int cap) (b + refilled r t0 t))"

lemma used_after_allow:
  assumes "0 \<le> tokens l t"
  shows "used (snd (rl_Allow R l t)) t"
  unfolding used_def
  by (rule exI [of _ "tokens l t - (if fst (rl_Allow R l t) then 1 else 0)"])
    (use assms allow_iff [of l t] refill in auto)

lemma rate_mono: "t \<le> t' \<Longrightarrow> 0 \<le> refilled r t t'"
  using rate_nonneg by (simp add: refilled_def zero_le_mult_iff)

lemma rate_split:
  "refilled r t t'' =
     refilled r t t' + refilled r t' t''"
  by (simp add: refilled_def field_simps)

lemma used_bounds:
  assumes "used l t0" "t0 \<le> t" "t \<le> t'"
  shows "0 \<le> tokens l t" "tokens l t \<le> of_int cap"
    "tokens l t' \<le> tokens l t + refilled r t t'"
proof -
  obtain b where b: "0 \<le> b" "\<And>t. t0 \<le> t \<Longrightarrow> tokens l t =
      min (of_int cap) (b + refilled r t0 t)"
    using assms(1) by (auto simp: used_def)
  show "0 \<le> tokens l t" "tokens l t \<le> of_int cap"
    using b(1) b(2) [OF assms(2)] rate_mono [OF assms(2)] cap_nonneg by (auto simp: min_def)
  show "tokens l t' \<le> tokens l t + refilled r t t'"
    using b(2) [of t] b(2) [of t'] rate_mono [OF assms(3)] rate_split [of t0 t' t] assms(2,3)
    by (auto simp: min_def)
qed

text \<open>A bucket left alone long enough is full, so replacing it by a new one changes nothing.\<close>

lemma used_full:
  assumes "used l t0" "t0 \<le> t" "of_int cap \<le> refilled r t0 t"
  shows "tokens l t = of_int cap"
  using assms by (auto simp: used_def min_def)

text \<open>
  A keyed limiter at the instant \<open>T\<close>: it has the rate and size of the buckets, and each bucket was
  last used at most \<open>gap\<close> after the reading kept as \<open>lastSeen\<close>.
\<close>

definition limiter_ok :: "duration \<Rightarrow> time \<Rightarrow> 'l keyedLimiter \<Rightarrow> bool" where
  "limiter_ok gap T k \<longleftrightarrow> kl_limit k = r \<and> kl_burst k = cap \<and>
     (\<forall>key e. kl_entries k key = Some e \<longrightarrow>
        (\<exists>t0. le_lastSeen e \<le> t0 \<and> t0 \<le> le_lastSeen e + gap \<and> t0 \<le> T \<and> used (le_limiter e) t0))"

definition potential :: "'l keyedLimiter \<Rightarrow> string \<Rightarrow> time \<Rightarrow> rat" where
  "potential k key t = (case kl_entries k key of None \<Rightarrow> of_int cap | Some e \<Rightarrow> tokens (le_limiter e) t)"

lemma limiter_ok_later: "limiter_ok gap T k \<Longrightarrow> T \<le> T' \<Longrightarrow> limiter_ok gap T' k"
  unfolding limiter_ok_def by (meson order_trans)

lemma potential_bounds:
  assumes "limiter_ok gap T k" "T \<le> t" "t \<le> t'"
  shows "0 \<le> potential k key t" "potential k key t \<le> of_int cap"
    "potential k key t' \<le> potential k key t + refilled r t t'"
proof -
  have "0 \<le> potential k key t \<and> potential k key t \<le> of_int cap \<and>
      potential k key t' \<le> potential k key t + refilled r t t'"
  proof (cases "kl_entries k key")
    case None
    then show ?thesis using cap_nonneg rate_mono [OF assms(3)] by (simp add: potential_def)
  next
    case (Some e)
    then obtain t0 where "used (le_limiter e) t0" "t0 \<le> t"
      using assms(1,2) unfolding limiter_ok_def by (meson order_trans)
    then show ?thesis using used_bounds [of "le_limiter e" t0 t t'] assms(3) Some
      by (simp add: potential_def)
  qed
  then show "0 \<le> potential k key t" "potential k key t \<le> of_int cap"
    "potential k key t' \<le> potential k key t + refilled r t t'" by auto
qed

text \<open>Forgetting idle buckets does not change the tokens anyone has.\<close>

lemma sweep_potential:
  assumes "limiter_ok gap T k" "T \<le> now" "of_int cap \<le> refilled r gap (kl_idleTTL k)"
    "minInt64 \<le> kl_idleTTL k"
  shows "potential (sweepLocked now k) key now = potential k key now"
proof (cases "kl_entries k key")
  case None
  then show ?thesis by (simp add: potential_def sweepLocked_def)
next
  case (Some e)
  then obtain t0 where t0: "t0 \<le> le_lastSeen e + gap" "used (le_limiter e) t0" "t0 \<le> now"
    using assms(1,2) unfolding limiter_ok_def by (meson order_trans)
  show ?thesis
  proof (cases "time_Sub now (le_lastSeen e) > kl_idleTTL k")
    case True
    then have "kl_idleTTL k - gap \<le> now - t0"
      using t0(1) time_Sub_greater_iff [OF assms(4)] by force
    then have "refilled r gap (kl_idleTTL k) \<le> refilled r t0 now"
      using rate_nonneg unfolding refilled_def
      by (intro divide_right_mono mult_left_mono) simp_all
    then have "tokens (le_limiter e) now = of_int cap"
      using used_full [OF t0(2,3)] assms(3) by linarith
    then show ?thesis using True Some by (simp add: potential_def sweepLocked_def)
  next
    case False
    then show ?thesis using Some by (simp add: potential_def sweepLocked_def)
  qed
qed

lemma bucket_for_tokens:
  assumes "kl_limit k = r" "kl_burst k = cap"
  shows "tokens (bucket_for R key now k) t = potential (sweepLocked now k) key t"
  using assms new_full by (simp add: bucket_for_def potential_def split: option.splits)

lemma sweep_ok: "limiter_ok gap T k \<Longrightarrow> limiter_ok gap T (sweepLocked now k)"
  unfolding limiter_ok_def sweepLocked_entries sweepLocked_config by blast

text \<open>One call: what it grants is paid for by the tokens of its key.\<close>

lemma allow_step:
  assumes ok: "limiter_ok gap now k" and now: "now = w_clock w (w_tick w)"
    and t: "t = w_clock w (Suc (w_tick w))" "now \<le> t" "t \<le> now + gap"
    and idle: "of_int cap \<le> refilled r gap (kl_idleTTL k)" "minInt64 \<le> kl_idleTTL k"
    and res: "limiter_Allow R key k w = (b, k', w')"
  shows "limiter_ok gap t k'"
    and "(if key' = key \<and> b then 1 else 0) + potential k' key' t \<le> potential k key' now + refilled r now t"
proof -
  define l where "l = bucket_for R key now k"
  have cfg: "kl_limit k = r" "kl_burst k = cap" using ok by (simp_all add: limiter_ok_def)
  have k': "k' = (sweepLocked now k)\<lparr>kl_entries := (kl_entries (sweepLocked now k))
      (key \<mapsto> \<lparr>le_limiter = snd (rl_Allow R l t), le_lastSeen = now\<rparr>)\<rparr>" and b: "b = fst (rl_Allow R l t)"
    using res by (simp_all add: limiter_Allow_alt Let_def l_def now t(1))
  have sw: "limiter_ok gap t (sweepLocked now k)"
    using limiter_ok_later [OF sweep_ok [OF ok] t(2)] .
  have pot: "potential (sweepLocked now k) x t \<le> potential k x now + refilled r now t" for x
    using potential_bounds(3) [OF sweep_ok [OF ok] order_refl t(2)]
      sweep_potential [OF ok order_refl idle] by metis
  have l: "tokens l t = potential (sweepLocked now k) key t"
    unfolding l_def by (rule bucket_for_tokens [OF cfg])
  have u: "used (snd (rl_Allow R l t)) t"
    by (rule used_after_allow) (use potential_bounds(1) [OF sw order_refl order_refl] l in simp)
  show "limiter_ok gap t k'"
    using sw u t(2,3) unfolding k' limiter_ok_def by (auto split: if_splits)
  have "tokens (snd (rl_Allow R l t)) t \<le> tokens l t - (if b then 1 else 0)"
    using refill [of t t l] by (simp add: b refilled_def)
  then show "(if key' = key \<and> b then 1 else 0) + potential k' key' t \<le>
      potential k key' now + refilled r now t"
    using pot [of key'] l by (cases "key' = key") (auto simp: k' potential_def)
qed

lemma allow_config: "limiter_Allow R key k w = (b, k', w') \<Longrightarrow>
    kl_idleTTL k' = kl_idleTTL k \<and> w_clock w' = w_clock w \<and> w_tick w' = Suc (Suc (w_tick w))"
  by (auto simp: limiter_Allow_alt Let_def)

lemma run_budget:
  assumes "mono (w_clock w)"
    and "\<forall>i. w_clock w (w_tick w + 2 * i + 1) \<le> w_clock w (w_tick w + 2 * i) + gap"
    and "limiter_ok gap (w_clock w (w_tick w)) k"
    and "of_int cap \<le> refilled r gap (kl_idleTTL k)" "minInt64 \<le> kl_idleTTL k"
    and "limiter_run R keys k w = (answers, k', w')"
  shows "of_nat (allowed key answers) + potential k' key (w_clock w' (w_tick w')) \<le>
      potential k key (w_clock w (w_tick w)) + refilled r (w_clock w (w_tick w)) (w_clock w' (w_tick w'))
    \<and> limiter_ok gap (w_clock w' (w_tick w')) k'"
  using assms
proof (induction keys arbitrary: k w answers)
  case Nil
  then show ?case by (simp add: allowed_def refilled_def)
next
  case (Cons x keys)
  obtain b k1 w1 where step: "limiter_Allow R x k w = (b, k1, w1)" by (metis prod_cases3)
  obtain rest k2 w2 where run: "limiter_run R keys k1 w1 = (rest, k2, w2)" by (metis prod_cases3)
  then have rest: "limiter_run R keys k1 w1 = (rest, k', w')" "answers = (x, b) # rest"
    using Cons.prems(6) step by simp_all
  define t where "t = w_clock w (Suc (w_tick w))"
  define T1 where "T1 = w_clock w1 (w_tick w1)"
  note w1 = allow_config [OF step]
  have m: "w_clock w (w_tick w) \<le> t" "t \<le> T1"
    unfolding t_def T1_def using monoD [OF Cons.prems(1)] w1 by simp_all
  have "t \<le> w_clock w (w_tick w) + gap" using Cons.prems(2) [THEN spec, of 0] by (simp add: t_def)
  note a = allow_step [OF Cons.prems(3) refl t_def m(1) this Cons.prems(4,5) step]
  have gaps: "\<forall>i. w_clock w1 (w_tick w1 + 2 * i + 1) \<le> w_clock w1 (w_tick w1 + 2 * i) + gap"
  proof
    fix i
    show "w_clock w1 (w_tick w1 + 2 * i + 1) \<le> w_clock w1 (w_tick w1 + 2 * i) + gap"
      using Cons.prems(2) [THEN spec, of "Suc i"] w1 by simp
  qed
  have mono1: "mono (w_clock w1)" and ok1: "limiter_ok gap (w_clock w1 (w_tick w1)) k1"
    and idle1: "of_int cap \<le> refilled r gap (kl_idleTTL k1)" "minInt64 \<le> kl_idleTTL k1"
    using Cons.prems(1,4,5) w1 limiter_ok_later [OF a(1) m(2)] by (simp_all add: T1_def)
  have "of_nat (allowed key rest) + potential k' key (w_clock w' (w_tick w')) \<le>
      potential k1 key T1 + refilled r T1 (w_clock w' (w_tick w')) \<and>
      limiter_ok gap (w_clock w' (w_tick w')) k'"
    using Cons.IH [OF mono1 gaps ok1 idle1 rest(1)] by (simp add: T1_def)
  moreover have "potential k1 key T1 \<le> potential k1 key t + refilled r t T1"
    by (rule potential_bounds(3) [OF a(1) order_refl m(2)])
  moreover note a(2) [of key] rate_split [of "w_clock w (w_tick w)" T1 t]
    rate_split [of "w_clock w (w_tick w)" "w_clock w' (w_tick w')" T1]
  ultimately show ?case by (auto simp: rest(2) allowed_def split: if_splits)
qed

lemma new_budget:
  assumes "mono (w_clock w)"
    and "\<forall>i. w_clock w (w_tick w + 2 * i + 1) \<le> w_clock w (w_tick w + 2 * i) + gap"
    and "of_int cap \<le> refilled r gap idleTTL" "minInt64 \<le> idleTTL"
    and "limiter_run R keys (newKeyedLimiter r cap idleTTL) w = (answers, k', w')"
  shows "of_nat (allowed key answers) \<le>
    of_int cap + refilled r (w_clock w (w_tick w)) (w_clock w' (w_tick w'))"
proof -
  have ok: "limiter_ok gap (w_clock w (w_tick w)) (newKeyedLimiter r cap idleTTL)"
    by (simp add: limiter_ok_def newKeyedLimiter_def)
  have i: "kl_idleTTL (newKeyedLimiter r cap idleTTL) = idleTTL"
    by (simp add: newKeyedLimiter_def)
  note run = run_budget [OF assms(1,2) ok _ _ assms(5), unfolded i, OF assms(3,4), of key]
  then have "0 \<le> potential k' key (w_clock w' (w_tick w'))"
    using potential_bounds(1) by blast
  then show ?thesis using run by (auto simp: potential_def newKeyedLimiter_def)
qed

end

text \<open>C36: The budget of a key. If the bucket of \<open>golang.org/x/time/rate\<close> behaves as documented,
  the clock does not run backwards, the two readings of one call are at most \<open>gap\<close> apart, and a
  bucket refills completely within the idle time less \<open>gap\<close>, then in any sequence of calls for any
  keys a key is allowed at most \<open>cap\<close> times plus what its bucket is refilled with meanwhile:
  forgetting idle keys never gives a key more than its bucket would have.\<close>

theorem rate_limit_budget:
  fixes R :: "'l rate_ops"
  assumes "token_bucket R tokens r cap"
    and "mono (w_clock w)"
    and "\<forall>i. w_clock w (w_tick w + 2 * i + 1) \<le> w_clock w (w_tick w + 2 * i) + gap"
    and "of_int cap \<le> refilled r gap idleTTL" and "minInt64 \<le> idleTTL"
    and "limiter_run R keys (newKeyedLimiter r cap idleTTL) w = (answers, k', w')"
  shows "of_nat (allowed key answers) \<le>
    of_int cap + refilled r (w_clock w (w_tick w)) (w_clock w' (w_tick w'))"
  by (rule token_bucket.new_budget [OF assms])

text \<open>A bucket of one token every five seconds and size five, as the default configuration asks for.\<close>

definition ref_tokens :: "rat \<times> time \<Rightarrow> time \<Rightarrow> rat" where
  "ref_tokens l t = min 5 (fst l + refilled (1 / 5) (snd l) (max (snd l) t))"

definition ref_bucket :: "(rat \<times> time) rate_ops" where
  "ref_bucket = \<lparr>rl_NewLimiter = (\<lambda>r b. (of_int b, 0)),
     rl_Allow = (\<lambda>l t. (1 \<le> ref_tokens l t,
       (ref_tokens l t - (if 1 \<le> ref_tokens l t then 1 else 0), t)))\<rparr>"

interpretation ref: token_bucket ref_bucket ref_tokens "1 / 5" 5
  by unfold_locales (auto simp: ref_bucket_def ref_tokens_def refilled_def max_def)

theorem rate_limit_budget_witness:
  "(let w = \<lparr>w_rand = (\<lambda>_. 0), w_rfail = (\<lambda>_. False), w_rpos = 0, w_clock = int, w_tick = 0\<rparr>;
        k = newKeyedLimiter (1 / 5) 5 (20 * minute);
        run = limiter_run ref_bucket [''alice'', ''bob''] k w
    in fst run = [(''alice'', True), (''bob'', True)] \<and>
       of_nat (allowed ''alice'' (fst run)) \<le> of_int 5 + refilled (1 / 5) 0 4)"
proof -
  let ?w = "\<lparr>w_rand = (\<lambda>_. 0), w_rfail = (\<lambda>_. False), w_rpos = 0, w_clock = int, w_tick = 0\<rparr>"
  let ?run = "limiter_run ref_bucket [''alice'', ''bob''] (newKeyedLimiter (1 / 5) 5 (20 * minute)) ?w"
  have run: "fst ?run = [(''alice'', True), (''bob'', True)]"
    "w_clock (snd (snd ?run)) (w_tick (snd (snd ?run))) = 4"
    by (simp_all add: limiter_Allow_alt Let_def bucket_for_def sweepLocked_def newKeyedLimiter_def
        ref_bucket_def ref_tokens_def refilled_def time_Sub_def maxInt64_def minInt64_def)
  have "of_nat (allowed ''alice'' (fst ?run)) \<le>
      of_int 5 + refilled (1 / 5) (w_clock ?w (w_tick ?w)) (w_clock (snd (snd ?run)) (w_tick (snd (snd ?run))))"
    by (rule rate_limit_budget [OF ref.token_bucket_axioms, where gap = 1 and idleTTL = "20 * minute"
          and keys = "[''alice'', ''bob'']" and k' = "fst (snd ?run)"])
      (simp_all del: limiter_run.simps add: mono_def refilled_def minInt64_def)
  then show ?thesis using run by (simp add: Let_def)
qed

end
