(* ===== verification/Detect.thy ===== *)
theory Detect
  imports XPrelude
begin

text \<open>
  \<open>internal/broker/detect.go\<close>: the abuse detector and its webhook. \<open>Observe\<close> returns the events it
  hands to the callback, in order; the callback itself (\<open>onSecurityEvent\<close>) is part of the broker.
\<close>

section \<open>Definitions\<close>

record SecurityEvent =
  ev_Kind :: string
  ev_SessionID :: string
  ev_Key :: string
  ev_At :: time

definition EventWrongCode :: string where "EventWrongCode = ''wrong_code''"
definition EventRepeatedStart :: string where "EventRepeatedStart = ''repeated_start''"
definition EventConsumedReplay :: string where "EventConsumedReplay = ''consumed_replay''"
definition EventIdentityMismatch :: string where "EventIdentityMismatch = ''identity_mismatch''"
definition EventSuspectedAbuse :: string where "EventSuspectedAbuse = ''suspected_abuse''"

lemmas event_kinds = EventWrongCode_def EventRepeatedStart_def EventConsumedReplay_def
  EventIdentityMismatch_def EventSuspectedAbuse_def

record abuseThresholds =
  at_WrongCode :: int
  at_RepeatedStart :: int
  at_IdentityMismatch :: int
  at_Window :: duration

definition defaultAbuseThresholds :: abuseThresholds where
  "defaultAbuseThresholds = \<lparr>at_WrongCode = 3, at_RepeatedStart = 5, at_IdentityMismatch = 3,
     at_Window = 5 * minute\<rparr>"

record counterEntry =
  ce_count :: int
  ce_windowEnd :: time

record detector =
  d_counts :: "string \<rightharpoonup> counterEntry"
  d_thresholds :: abuseThresholds
  d_onEvent :: bool

definition newDetector :: "abuseThresholds \<Rightarrow> bool \<Rightarrow> detector" where
  "newDetector thresholds onEvent =
     \<lparr>d_counts = Map.empty, d_thresholds = thresholds, d_onEvent = onEvent\<rparr>"

definition thresholdFor :: "string \<Rightarrow> detector \<Rightarrow> int" where
  "thresholdFor kind d =
     (if kind = EventWrongCode then at_WrongCode (d_thresholds d)
      else if kind = EventRepeatedStart then at_RepeatedStart (d_thresholds d)
      else if kind = EventIdentityMismatch then at_IdentityMismatch (d_thresholds d)
      else 0)"

definition tripped :: "string \<Rightarrow> string \<Rightarrow> int \<Rightarrow> time \<Rightarrow> detector \<Rightarrow> bool \<times> detector" where
  "tripped kind key threshold now d =
     (let mapKey = kind @ ''|'' @ key;
          fresh = \<lparr>ce_count = 0, ce_windowEnd = time_Add now (at_Window (d_thresholds d))\<rparr>;
          e = (case d_counts d mapKey of
                 None \<Rightarrow> fresh
               | Some e \<Rightarrow> if time_After now (ce_windowEnd e) then fresh else e);
          e' = e\<lparr>ce_count := wrap64 (ce_count e + 1)\<rparr>
      in (ce_count e' = threshold, d\<lparr>d_counts := (d_counts d)(mapKey \<mapsto> e')\<rparr>))"

definition Observe ::
  "string \<Rightarrow> string \<Rightarrow> string \<Rightarrow> time \<Rightarrow> detector \<Rightarrow> SecurityEvent list \<times> detector" where
  "Observe kind key sessionID now d =
     (let evs1 = (if d_onEvent d
                  then [\<lparr>ev_Kind = kind, ev_SessionID = sessionID, ev_Key = key, ev_At = now\<rparr>] else []);
          threshold = thresholdFor kind d
      in if threshold \<le> 0 then (evs1, d)
         else
           let (trip, d') = tripped kind key threshold now d in
           (evs1 @ (if trip \<and> d_onEvent d
                    then [\<lparr>ev_Kind = EventSuspectedAbuse, ev_SessionID = sessionID,
                           ev_Key = kind @ '':'' @ key, ev_At = now\<rparr>] else []), d'))"

text \<open>
  The webhook: a POST of the event to the configured URL. Building the request fails on a URL
  that does not parse (\<open>aw_valid\<close>); delivery happens in its own goroutine and its outcome is
  ignored, so the model records the request sent.
\<close>

record abuseWebhook =
  aw_url :: string
  aw_valid :: bool

definition webhook_fire :: "abuseWebhook \<Rightarrow> SecurityEvent \<Rightarrow> (string \<times> SecurityEvent) list" where
  "webhook_fire h evt = (if aw_valid h then [(aw_url h, evt)] else [])"

section \<open>Lemmas\<close>

lemmas observe_defs = Observe_def tripped_def thresholdFor_def Let_def

lemma kind_key_inject:
  "c \<notin> set k1 \<Longrightarrow> c \<notin> set k2 \<Longrightarrow> k1 @ c # x = k2 @ c # y \<longleftrightarrow> k1 = k2 \<and> x = y"
  by (induction k1 arbitrary: k2; case_tac k2) auto

lemma Observe_thresholds [simp]:
  "d_thresholds (snd (Observe kind key sid now d)) = d_thresholds d"
  "d_onEvent (snd (Observe kind key sid now d)) = d_onEvent d"
  by (auto simp: observe_defs)

lemma Observe_frame:
  "mk \<noteq> kind @ ''|'' @ key \<Longrightarrow> d_counts (snd (Observe kind key sid now d)) mk = d_counts d mk"
  by (auto simp: observe_defs)

lemma Observe_in_window:
  assumes "0 < thresholdFor kind d" and "d_onEvent d"
    and "d_counts d (kind @ ''|'' @ key) = Some e" and "now \<le> ce_windowEnd e"
    and "0 \<le> ce_count e" and "ce_count e < maxInt64"
  shows "d_counts (snd (Observe kind key sid now d)) (kind @ ''|'' @ key) =
      Some (e\<lparr>ce_count := ce_count e + 1\<rparr>) \<and>
    fst (Observe kind key sid now d) =
      \<lparr>ev_Kind = kind, ev_SessionID = sid, ev_Key = key, ev_At = now\<rparr> #
      (if ce_count e + 1 = thresholdFor kind d
       then [\<lparr>ev_Kind = EventSuspectedAbuse, ev_SessionID = sid, ev_Key = kind @ '':'' @ key,
              ev_At = now\<rparr>] else [])"
proof -
  have "wrap64 (ce_count e + 1) = ce_count e + 1"
    using assms(5,6) by (intro wrap64_id) (simp_all add: minInt64_def)
  then show ?thesis using assms by (simp add: Observe_def tripped_def Let_def time_After_def)
qed

lemma Observe_new_window:
  assumes "0 < thresholdFor kind d" and "d_onEvent d"
    and "case d_counts d (kind @ ''|'' @ key) of None \<Rightarrow> True | Some e \<Rightarrow> ce_windowEnd e < now"
  shows "d_counts (snd (Observe kind key sid now d)) (kind @ ''|'' @ key) =
      Some \<lparr>ce_count = 1, ce_windowEnd = now + at_Window (d_thresholds d)\<rparr> \<and>
    fst (Observe kind key sid now d) =
      \<lparr>ev_Kind = kind, ev_SessionID = sid, ev_Key = key, ev_At = now\<rparr> #
      (if thresholdFor kind d = 1
       then [\<lparr>ev_Kind = EventSuspectedAbuse, ev_SessionID = sid, ev_Key = kind @ '':'' @ key,
              ev_At = now\<rparr>] else [])"
proof -
  have "wrap64 1 = 1" by (rule wrap64_id) (simp_all add: minInt64_def maxInt64_def)
  then show ?thesis using assms
    by (auto simp: Observe_def tripped_def Let_def time_After_def time_Add_def split: option.splits)
qed

section \<open>Runs of observations\<close>

text \<open>An observation is a kind, a key, a session id and an instant.\<close>

type_synonym observation = "string \<times> string \<times> string \<times> time"

fun observe_run :: "observation list \<Rightarrow> detector \<Rightarrow> SecurityEvent list \<times> detector" where
  "observe_run [] d = ([], d)"
| "observe_run ((kind, key, sid, now) # obs) d =
     (let (evs, d1) = Observe kind key sid now d; (rest, d2) = observe_run obs d1 in (evs @ rest, d2))"

definition own :: "string \<Rightarrow> string \<Rightarrow> observation list \<Rightarrow> observation list" where
  "own kind key obs = filter (\<lambda>(k, ky, sid, now). k = kind \<and> ky = key) obs"

definition suspicions :: "string \<Rightarrow> string \<Rightarrow> SecurityEvent list \<Rightarrow> nat" where
  "suspicions kind key evs =
     length (filter (\<lambda>e. ev_Kind e = EventSuspectedAbuse \<and> ev_Key e = kind @ '':'' @ key) evs)"

lemma suspicions_append: "suspicions kind key (xs @ ys) = suspicions kind key xs + suspicions kind key ys"
  by (simp add: suspicions_def)

lemma counted_kinds:
  "0 < thresholdFor kind d \<Longrightarrow>
     kind = EventWrongCode \<or> kind = EventRepeatedStart \<or> kind = EventIdentityMismatch"
  by (auto simp: thresholdFor_def split: if_splits)

lemma counted_kind_chars:
  "0 < thresholdFor kind d \<Longrightarrow> CHR '':'' \<notin> set kind \<and> CHR ''|'' \<notin> set kind \<and> kind \<noteq> EventSuspectedAbuse"
  by (drule counted_kinds) (auto simp: event_kinds)

lemma threshold_cong: "d_thresholds d' = d_thresholds d \<Longrightarrow> thresholdFor kind d' = thresholdFor kind d"
  by (simp add: thresholdFor_def)

lemma suspicions_Cons:
  "suspicions kind key (fst (observe_run ((k, ky, sid, now) # obs) d)) =
     suspicions kind key (fst (Observe k ky sid now d)) +
     suspicions kind key (fst (observe_run obs (snd (Observe k ky sid now d))))"
  by (simp add: suspicions_append split: prod.splits)

text \<open>An observation of another kind or key touches neither the counter nor the reports.\<close>

lemma Observe_other:
  assumes "0 < thresholdFor kind d" and "(k, ky) \<noteq> (kind, key)" and "k \<noteq> EventSuspectedAbuse"
  shows "d_counts (snd (Observe k ky sid now d)) (kind @ ''|'' @ key) = d_counts d (kind @ ''|'' @ key) \<and>
    suspicions kind key (fst (Observe k ky sid now d)) = 0"
proof -
  have uncounted: ?thesis if "thresholdFor k d \<le> 0"
    using that assms(3) by (simp add: Observe_def Let_def suspicions_def)
  have counted: ?thesis if th: "0 < thresholdFor k d"
  proof -
    note c = counted_kind_chars [OF assms(1)] counted_kind_chars [OF th]
    have "kind @ ''|'' @ key \<noteq> k @ ''|'' @ ky" "k @ '':'' @ ky \<noteq> kind @ '':'' @ key"
      using c assms(2) kind_key_inject [of _ kind k key ky] kind_key_inject [of _ k kind ky key] by auto
    then show ?thesis
      using assms(3) Observe_frame by (auto simp: Observe_def Let_def suspicions_def split: prod.splits)
  qed
  show ?thesis using uncounted counted by linarith
qed

lemma open_window_run:
  assumes "0 < thresholdFor kind d" and "d_onEvent d"
    and "d_counts d (kind @ ''|'' @ key) = Some e" and "0 \<le> ce_count e"
    and "\<forall>(k, ky, sid, now) \<in> set obs. k \<noteq> EventSuspectedAbuse"
    and "\<forall>(k, ky, sid, now) \<in> set (own kind key obs). now \<le> ce_windowEnd e"
    and "ce_count e + int (length (own kind key obs)) \<le> maxInt64"
  shows "suspicions kind key (fst (observe_run obs d)) =
    (if ce_count e < thresholdFor kind d \<and>
        thresholdFor kind d \<le> ce_count e + int (length (own kind key obs)) then 1 else 0)"
  using assms
proof (induction obs arbitrary: d e)
  case Nil
  then show ?case by (simp add: suspicions_def own_def)
next
  case (Cons ob obs)
  obtain k ky sid now where ob: "ob = (k, ky, sid, now)" by (metis prod_cases4)
  define d1 where "d1 = snd (Observe k ky sid now d)"
  have run: "suspicions kind key (fst (observe_run (ob # obs) d)) =
      suspicions kind key (fst (Observe k ky sid now d)) + suspicions kind key (fst (observe_run obs d1))"
    by (simp only: ob d1_def suspicions_Cons)
  have d1: "thresholdFor kind d1 = thresholdFor kind d" "d_onEvent d1"
    using Cons.prems(2) by (auto simp: d1_def intro: threshold_cong)
  show ?case
  proof (cases "k = kind \<and> ky = key")
    case True
    then have o: "own kind key (ob # obs) = ob # own kind key obs" by (simp add: own_def ob)
    have lt: "now \<le> ce_windowEnd e" "ce_count e < maxInt64" using Cons.prems(6,7) o ob by auto
    note w = Observe_in_window [OF Cons.prems(1-3) lt(1) Cons.prems(4) lt(2), of sid]
    have "suspicions kind key (fst (observe_run obs d1)) =
      (if ce_count e + 1 < thresholdFor kind d \<and>
        thresholdFor kind d \<le> ce_count e + 1 + int (length (own kind key obs)) then 1 else 0)"
      using Cons.IH [of d1 "e\<lparr>ce_count := ce_count e + 1\<rparr>"] d1 w True Cons.prems o
      by (simp add: d1_def algebra_simps)
    moreover have "suspicions kind key (fst (Observe k ky sid now d)) =
      (if ce_count e + 1 = thresholdFor kind d then 1 else 0)"
      using w True counted_kind_chars [OF Cons.prems(1)] by (simp add: suspicions_def)
    ultimately show ?thesis using run o by simp
  next
    case False
    then have o: "own kind key (ob # obs) = own kind key obs" by (auto simp: own_def ob)
    note other = Observe_other [OF Cons.prems(1), of k ky key sid now]
    have "k \<noteq> EventSuspectedAbuse" using Cons.prems(5) ob by simp
    then show ?thesis
      using Cons.IH [of d1 e] d1 other False Cons.prems o run by (simp add: d1_def)
  qed
qed

section \<open>Properties\<close>

text \<open>C37: One report per window. When an observation opens a window for a kind and key, then among
  it and the later ones of the window, whatever is observed for other kinds and keys in between, \<open>suspected_abuse\<close> is reported
  for that kind and key once if their number reaches the threshold, and never otherwise.\<close>

theorem abuse_reported_once_per_window:
  assumes "0 < thresholdFor kind d" and "d_onEvent d"
    and "case d_counts d (kind @ ''|'' @ key) of None \<Rightarrow> True | Some e \<Rightarrow> ce_windowEnd e < t0"
    and "\<forall>(k, ky, s, now) \<in> set obs. k \<noteq> EventSuspectedAbuse"
    and "\<forall>(k, ky, s, now) \<in> set (own kind key obs). now \<le> t0 + at_Window (d_thresholds d)"
    and "int (length obs) < maxInt64"
  shows "suspicions kind key (fst (observe_run ((kind, key, sid, t0) # obs) d)) =
    (if thresholdFor kind d \<le> 1 + int (length (own kind key obs)) then 1 else 0)"
proof -
  define d1 where "d1 = snd (Observe kind key sid t0 d)"
  note w = Observe_new_window [OF assms(1-3), of sid]
  have d1: "thresholdFor kind d1 = thresholdFor kind d" "d_onEvent d1"
    using assms(2) by (auto simp: d1_def intro: threshold_cong)
  have "length (own kind key obs) \<le> length obs" by (simp add: own_def)
  then have "suspicions kind key (fst (observe_run obs d1)) =
      (if 1 < thresholdFor kind d \<and> thresholdFor kind d \<le> 1 + int (length (own kind key obs)) then 1 else 0)"
    using open_window_run [of kind d1 key "\<lparr>ce_count = 1, ce_windowEnd = t0 + at_Window (d_thresholds d)\<rparr>" obs]
      d1 w assms by (simp add: d1_def)
  moreover have "suspicions kind key (fst (Observe kind key sid t0 d)) =
      (if thresholdFor kind d = 1 then 1 else 0)"
    using w counted_kind_chars [OF assms(1)] by (simp add: suspicions_def)
  ultimately show ?thesis
    using assms(1) by (simp only: d1_def suspicions_Cons) simp
qed

theorem abuse_reported_once_per_window_witness:
  "suspicions EventWrongCode ''10.0.0.9''
     (fst (observe_run ((EventWrongCode, ''10.0.0.9'', ''s'', 0) #
        [(EventWrongCode, ''10.0.0.9'', ''s'', 1), (EventRepeatedStart, ''alice'', '''', 2),
         (EventWrongCode, ''10.0.0.9'', ''s'', 3), (EventWrongCode, ''10.0.0.9'', ''s'', 4)])
        (newDetector defaultAbuseThresholds True))) = 1"
  by (subst abuse_reported_once_per_window)
    (simp_all add: newDetector_def defaultAbuseThresholds_def thresholdFor_def event_kinds own_def maxInt64_def)

text \<open>A replay of a consumed session is reported, but it is never counted: with any thresholds and
  any number of replays no \<open>suspected_abuse\<close> follows, although the threat model says they count
  towards it.\<close>

theorem consumed_replay_never_counted:
  "observe_run (map (\<lambda>(key, sid, now). (EventConsumedReplay, key, sid, now)) rs) d =
     (if d_onEvent d
      then map (\<lambda>(key, sid, now).
             \<lparr>ev_Kind = EventConsumedReplay, ev_SessionID = sid, ev_Key = key, ev_At = now\<rparr>) rs
      else [], d)"
  by (induction rs) (auto simp: Observe_def thresholdFor_def event_kinds)

text \<open>Counters are never dropped: an observation keeps every counter there was, so the table
  holds one entry for each counted kind and key ever seen, however old.\<close>

theorem detector_entries_never_evicted:
  "dom (d_counts (snd (observe_run obs d))) =
     dom (d_counts d) \<union> {k @ ''|'' @ ky |k ky sid now. (k, ky, sid, now) \<in> set obs \<and> 0 < thresholdFor k d}"
proof (induction obs arbitrary: d)
  case Nil
  then show ?case by simp
next
  case (Cons ob obs)
  obtain k ky sid now where ob: "ob = (k, ky, sid, now)" by (metis prod_cases4)
  define d1 where "d1 = snd (Observe k ky sid now d)"
  have "thresholdFor x d1 = thresholdFor x d" for x by (auto simp: d1_def intro: threshold_cong)
  moreover have "dom (d_counts d1) = dom (d_counts d) \<union> (if 0 < thresholdFor k d then {k @ ''|'' @ ky} else {})"
    by (auto simp: d1_def Observe_def tripped_def Let_def)
  moreover have "snd (observe_run (ob # obs) d) = snd (observe_run obs d1)"
    by (simp add: ob d1_def split: prod.splits)
  ultimately show ?case using Cons.IH [of d1] by (auto simp: ob)
qed

end
