(* ===== verification/Broker.thy ===== *)
theory Broker
  imports Session Http ClientIP ClientAuth RateLimit Detect
begin

text \<open>
  The broker itself: its configuration and construction (\<open>broker.go\<close>), the identity-provider
  interface (\<open>idp.go\<close>), the log (\<open>log.go\<close>), the pages (\<open>templates.go\<close>), and the helpers of
  \<open>handlers.go\<close> that read and set cookies and write responses. The handlers are in theory
  \<open>Handlers\<close>.
\<close>

section \<open>Configuration\<close>

text \<open>The logger is not a field: the model keeps what is logged in the broker's state.\<close>

record config =
  cfg_BaseURL :: string
  cfg_SessionTTL :: duration
  cfg_PollInterval :: duration
  cfg_StartRatePerSec :: rat
  cfg_StartRateBurst :: int
  cfg_ArtifactTTL :: duration
  cfg_IdentityNormalizer :: "normalizer option"
  cfg_AbuseWebhookURL :: string
  cfg_ClientAuthenticator :: "client_authenticator option"
  cfg_TrustedProxies :: "netip_prefix list"
  cfg_AllowedClientCIDRs :: "netip_prefix list"

definition applyDefaults :: "config \<Rightarrow> config" where
  "applyDefaults c =
     (let c1 = (if cfg_SessionTTL c \<le> 0 then c\<lparr>cfg_SessionTTL := 5 * minute\<rparr> else c);
          c2 = (if cfg_PollInterval c1 \<le> 0 then c1\<lparr>cfg_PollInterval := 3 * second\<rparr> else c1);
          c3 = (if cfg_StartRatePerSec c2 \<le> 0 then c2\<lparr>cfg_StartRatePerSec := 1 / 5\<rparr> else c2);
          c4 = (if cfg_StartRateBurst c3 \<le> 0 then c3\<lparr>cfg_StartRateBurst := 5\<rparr> else c3)
      in if cfg_ArtifactTTL c4 \<le> 0 then c4\<lparr>cfg_ArtifactTTL := 120 * second\<rparr> else c4)"

section \<open>The identity-provider interface\<close>

text \<open>
  \<open>BeginLogin\<close> returns the redirect URL or an error, and the session it was given with the fields it
  set; \<open>CompleteLogin\<close> returns the verified identity or an error. Both may read the outside world.
\<close>

record idp_ops =
  idp_BeginLogin :: "session \<Rightarrow> world \<Rightarrow> (string + string) \<times> session \<times> world"
  idp_CompleteLogin :: "request \<Rightarrow> session \<Rightarrow> world \<Rightarrow> (string + identity) \<times> world"

text \<open>
  What the broker is linked with: a store, an identity provider, the rate limiter's buckets, the
  tables of package \<open>unicode\<close>, and whether \<open>net/url\<close> accepts a URL.
\<close>

record ('st, 'l) env =
  e_store :: "'st store_ops"
  e_idp :: idp_ops
  e_rate :: "'l rate_ops"
  e_unicode :: unicode_tables
  e_urlParses :: "string \<Rightarrow> bool"

section \<open>The broker's state\<close>

record log_entry =
  lg_session_id :: string
  lg_event :: string
  lg_attrs :: "(string \<times> string) list"

text \<open>
  Beside the fields of \<open>Broker\<close>: the lines logged and the webhook requests sent, oldest first.
\<close>

record ('st, 'l) broker =
  b_cfg :: config
  b_store :: 'st
  b_ipLimiter :: "'l keyedLimiter"
  b_hintLimiter :: "'l keyedLimiter"
  b_detector :: detector
  b_webhook :: "abuseWebhook option"
  b_log :: "log_entry list"
  b_posts :: "(string \<times> SecurityEvent) list"

definition New :: "('st, 'l) env \<Rightarrow> config \<Rightarrow> 'st \<Rightarrow> ('st, 'l) broker" where
  "New env cfg0 st =
     (let cfg = applyDefaults cfg0;
          idleTTL = wrap64 (cfg_SessionTTL cfg * 4)
      in \<lparr>b_cfg = cfg,
          b_store = st,
          b_ipLimiter = newKeyedLimiter (cfg_StartRatePerSec cfg) (cfg_StartRateBurst cfg) idleTTL,
          b_hintLimiter = newKeyedLimiter (cfg_StartRatePerSec cfg) (cfg_StartRateBurst cfg) idleTTL,
          b_detector = newDetector defaultAbuseThresholds True,
          b_webhook = (if cfg_AbuseWebhookURL cfg \<noteq> ''''
                       then Some \<lparr>aw_url = cfg_AbuseWebhookURL cfg,
                                  aw_valid = e_urlParses env (cfg_AbuseWebhookURL cfg)\<rparr>
                       else None),
          b_log = [],
          b_posts = []\<rparr>)"

definition logTransition ::
  "string \<Rightarrow> string \<Rightarrow> (string \<times> string) list \<Rightarrow> ('st, 'l) broker \<Rightarrow> ('st, 'l) broker" where
  "logTransition sid event attrs b =
     b\<lparr>b_log := b_log b @ [\<lparr>lg_session_id = sid, lg_event = event, lg_attrs = attrs\<rparr>]\<rparr>"

definition onSecurityEvent :: "SecurityEvent \<Rightarrow> ('st, 'l) broker \<Rightarrow> ('st, 'l) broker" where
  "onSecurityEvent evt b =
     (let b1 = logTransition (ev_SessionID evt) (ev_Kind evt)
                 [(''severity'', ''warn''), (''key'', ev_Key evt)] b
      in case b_webhook b1 of
           None \<Rightarrow> b1
         | Some h \<Rightarrow>
             if ev_Kind evt = EventSuspectedAbuse
             then b1\<lparr>b_posts := b_posts b1 @ webhook_fire h evt\<rparr> else b1)"

text \<open>\<open>b.detector.Observe\<close>: the detector hands its events to \<open>onSecurityEvent\<close>.\<close>

definition detector_Observe ::
  "string \<Rightarrow> string \<Rightarrow> string \<Rightarrow> time \<Rightarrow> ('st, 'l) broker \<Rightarrow> ('st, 'l) broker" where
  "detector_Observe kind key sid now b =
     (let (evs, d) = Observe kind key sid now (b_detector b)
      in fold onSecurityEvent evs (b\<lparr>b_detector := d\<rparr>))"

text \<open>The store calls; an operation runs at the instant the clock shows.\<close>

definition instant :: "world \<Rightarrow> time" where
  "instant w = w_clock w (w_tick w)"

definition b_Create ::
  "('st, 'l) env \<Rightarrow> session \<Rightarrow> world \<Rightarrow> ('st, 'l) broker \<Rightarrow> store_error option \<times> ('st, 'l) broker" where
  "b_Create env s w b =
     (let (e, st) = st_Create (e_store env) s (instant w) (b_store b) in (e, b\<lparr>b_store := st\<rparr>))"

definition b_Get ::
  "('st, 'l) env \<Rightarrow> string \<Rightarrow> world \<Rightarrow> ('st, 'l) broker \<Rightarrow> store_error + session" where
  "b_Get env sid w b = st_Get (e_store env) sid (instant w) (b_store b)"

definition b_Update ::
  "('st, 'l) env \<Rightarrow> session \<Rightarrow> world \<Rightarrow> ('st, 'l) broker \<Rightarrow> store_error option \<times> ('st, 'l) broker" where
  "b_Update env s w b =
     (let (e, st) = st_Update (e_store env) s (instant w) (b_store b) in (e, b\<lparr>b_store := st\<rparr>))"

section \<open>Responses\<close>

record startResponse =
  sr_SessionID :: string
  sr_VerificationURI :: string
  sr_UserCode :: string
  sr_ExpiresIn :: int
  sr_Interval :: int

text \<open>\<open>artifactJSON\<close> has the fields of \<^typ>\<open>Artifact\<close>; a status is sent as its Go string.\<close>

record pollResponse =
  po_Status :: string
  po_Artifact :: "Artifact option"
  po_Error :: string

fun string_of_status :: "PollStatus \<Rightarrow> string" where
  "string_of_status PollPending = ''pending''"
| "string_of_status PollApproved = ''approved''"
| "string_of_status PollDenied = ''denied''"
| "string_of_status PollExpired = ''expired''"
| "string_of_status PollSlowDown = ''slow_down''"

text \<open>The data a template is given; \<open>StartedAt\<close> is kept as the instant the page prints.\<close>

record approvePage =
  ap_Identity :: string
  ap_ClientHost :: string
  ap_ClientKind :: string
  ap_ClientIP :: string
  ap_VerifiedClient :: string
  ap_StartedAt :: time
  ap_CSRFToken :: string
  ap_ApproveAction :: string

record resultPage =
  rp_Title :: string
  rp_Message :: string

datatype body =
    BodyEmpty
  | BodyStart startResponse
  | BodyPoll pollResponse
  | BodyApprove approvePage
  | BodyResult resultPage
  | BodyRedirect string

record response =
  rs_Status :: int
  rs_Header :: "(string \<times> string) list"
  rs_Cookies :: "cookie list"
  rs_Body :: body

definition writeJSON :: "int \<Rightarrow> body \<Rightarrow> response" where
  "writeJSON status v =
     \<lparr>rs_Status = status, rs_Header = [(''Content-Type'', ''application/json; charset=utf-8'')],
      rs_Cookies = [], rs_Body = v\<rparr>"

definition writeJSONError :: "int \<Rightarrow> string \<Rightarrow> string \<Rightarrow> response" where
  "writeJSONError status code msg =
     writeJSON status
       (BodyPoll \<lparr>po_Status = ''error'', po_Artifact = None, po_Error = code @ '': '' @ msg\<rparr>)"

definition renderResult :: "int \<Rightarrow> string \<Rightarrow> string \<Rightarrow> response" where
  "renderResult status title message =
     \<lparr>rs_Status = status, rs_Header = [(''Content-Type'', ''text/html; charset=utf-8'')],
      rs_Cookies = [], rs_Body = BodyResult \<lparr>rp_Title = title, rp_Message = message\<rparr>\<rparr>"

definition renderApprove :: "session \<Rightarrow> string \<Rightarrow> response" where
  "renderApprove s baseURL =
     \<lparr>rs_Status = 200, rs_Header = [(''Content-Type'', ''text/html; charset=utf-8'')],
      rs_Cookies = [],
      rs_Body = BodyApprove
        \<lparr>ap_Identity = (case s_Identity s of None \<Rightarrow> '''' | Some i \<Rightarrow> id_Value i),
         ap_ClientHost = s_ClientHost s,
         ap_ClientKind = s_ClientKind s,
         ap_ClientIP = s_ClientIP s,
         ap_VerifiedClient = s_VerifiedClient s,
         ap_StartedAt = s_CreatedAt s,
         ap_CSRFToken = s_CSRFToken s,
         ap_ApproveAction = baseURL @ ''/auth/approve''\<rparr>\<rparr>"

definition http_Redirect :: "string \<Rightarrow> int \<Rightarrow> response" where
  "http_Redirect url status =
     \<lparr>rs_Status = status, rs_Header = [(''Location'', url)], rs_Cookies = [],
      rs_Body = BodyRedirect url\<rparr>"

text \<open>\<open>http.SetCookie\<close> adds a cookie to the response being written.\<close>

definition with_cookies :: "cookie list \<Rightarrow> response \<Rightarrow> response" where
  "with_cookies cs resp = resp\<lparr>rs_Cookies := cs @ rs_Cookies resp\<rparr>"

section \<open>Cookies and comparisons\<close>

definition sessionCookieName :: string where
  "sessionCookieName = ''xdauth_session''"

definition approvalCookieName :: string where
  "approvalCookieName = ''xdauth_approve''"

definition request_secure :: "request \<Rightarrow> bool" where
  "request_secure r \<longleftrightarrow> r_TLS r \<noteq> None \<or> header_Get r ''X-Forwarded-Proto'' = ''https''"

definition cookie_same_site :: "bool \<Rightarrow> same_site" where
  "cookie_same_site secure = (if \<not> secure then SameSiteLaxMode else SameSiteNoneMode)"

definition setSessionCookie :: "request \<Rightarrow> string \<Rightarrow> cookie list" where
  "setSessionCookie r sessionID =
     (let secure = request_secure r; sameSite = cookie_same_site secure in
      [\<lparr>c_Name = sessionCookieName, c_Value = sessionID, c_Path = ''/'', c_MaxAge = 0,
        c_HttpOnly = True, c_Secure = secure, c_SameSite = sameSite\<rparr>,
       \<lparr>c_Name = sessionCookieName, c_Value = '''', c_Path = ''/auth'', c_MaxAge = - 1,
        c_HttpOnly = True, c_Secure = secure, c_SameSite = sameSite\<rparr>])"

definition readSessionCookie :: "request \<Rightarrow> string option" where
  "readSessionCookie r =
     (case r_Cookie r sessionCookieName of
        None \<Rightarrow> None
      | Some v \<Rightarrow> if v = '''' then None else Some v)"

definition setApprovalCookie :: "request \<Rightarrow> string \<Rightarrow> cookie list" where
  "setApprovalCookie r secret =
     (let secure = request_secure r; sameSite = cookie_same_site secure in
      [\<lparr>c_Name = approvalCookieName, c_Value = secret, c_Path = ''/'', c_MaxAge = 0,
        c_HttpOnly = True, c_Secure = secure, c_SameSite = sameSite\<rparr>])"

definition readApprovalCookie :: "request \<Rightarrow> string option" where
  "readApprovalCookie r =
     (case r_Cookie r approvalCookieName of
        None \<Rightarrow> None
      | Some v \<Rightarrow> if v = '''' then None else Some v)"

definition constantTimeStringEqual :: "string \<Rightarrow> string \<Rightarrow> bool" where
  "constantTimeStringEqual a b =
     (if length a = 0 \<or> length b = 0 \<or> length a \<noteq> length b then False
      else subtle_ConstantTimeCompare (bytes_of a) (bytes_of b) = 1)"

definition approvalBindingMatches :: "request \<Rightarrow> session \<Rightarrow> bool" where
  "approvalBindingMatches r s =
     (case readApprovalCookie r of
        None \<Rightarrow> False
      | Some secret \<Rightarrow>
          if s_ApprovalBindingHash s = '''' then False
          else constantTimeStringEqual (hashBinding secret) (s_ApprovalBindingHash s))"

section \<open>Lemmas\<close>

lemma constantTimeStringEqual_iff: "constantTimeStringEqual a b \<longleftrightarrow> a = b \<and> a \<noteq> ''''"
  by (auto simp: constantTimeStringEqual_def)

lemma approvalBindingMatches_iff:
  "approvalBindingMatches r s \<longleftrightarrow>
     (\<exists>secret. readApprovalCookie r = Some secret \<and> hashBinding secret = s_ApprovalBindingHash s)"
  by (auto simp: approvalBindingMatches_def constantTimeStringEqual_iff split: option.splits)

lemma time_Now_instant: "time_Now w = (instant w, w\<lparr>w_tick := Suc (w_tick w)\<rparr>)"
  by (simp add: time_Now_def instant_def)

lemma onSecurityEvent_frame [simp]:
  "b_store (onSecurityEvent evt b) = b_store b" "b_cfg (onSecurityEvent evt b) = b_cfg b"
  "b_ipLimiter (onSecurityEvent evt b) = b_ipLimiter b"
  "b_hintLimiter (onSecurityEvent evt b) = b_hintLimiter b"
  "b_detector (onSecurityEvent evt b) = b_detector b"
  "b_webhook (onSecurityEvent evt b) = b_webhook b"
  by (auto simp: onSecurityEvent_def logTransition_def Let_def split: option.splits)

lemma fold_onSecurityEvent_frame [simp]:
  "b_store (fold onSecurityEvent evs b) = b_store b" "b_cfg (fold onSecurityEvent evs b) = b_cfg b"
  "b_ipLimiter (fold onSecurityEvent evs b) = b_ipLimiter b"
  "b_hintLimiter (fold onSecurityEvent evs b) = b_hintLimiter b"
  "b_detector (fold onSecurityEvent evs b) = b_detector b"
  "b_webhook (fold onSecurityEvent evs b) = b_webhook b"
  by (induction evs arbitrary: b) simp_all

lemma detector_Observe_frame [simp]:
  "b_store (detector_Observe kind key sid now b) = b_store b"
  "b_cfg (detector_Observe kind key sid now b) = b_cfg b"
  "b_ipLimiter (detector_Observe kind key sid now b) = b_ipLimiter b"
  "b_hintLimiter (detector_Observe kind key sid now b) = b_hintLimiter b"
  "b_webhook (detector_Observe kind key sid now b) = b_webhook b"
  by (simp_all add: detector_Observe_def split: prod.splits)

lemma logTransition_frame [simp]:
  "b_store (logTransition sid ev attrs b) = b_store b" "b_cfg (logTransition sid ev attrs b) = b_cfg b"
  by (simp_all add: logTransition_def)

lemma store_call_cfg [simp]:
  "b_cfg (snd (b_Update env s w b)) = b_cfg b" "b_cfg (snd (b_Create env s w b)) = b_cfg b"
  by (simp_all add: b_Update_def b_Create_def split: prod.splits)

lemma applyDefaults_ranges:
  "0 < cfg_SessionTTL (applyDefaults c) \<and> 0 < cfg_PollInterval (applyDefaults c) \<and>
   0 < cfg_StartRatePerSec (applyDefaults c) \<and> 0 < cfg_StartRateBurst (applyDefaults c) \<and>
   0 < cfg_ArtifactTTL (applyDefaults c)"
  by (simp add: applyDefaults_def Let_def)

section \<open>Text the program draws itself\<close>

text \<open>Codes, identifiers and challenges are ASCII: JSON carries them as they are.\<close>

lemma ascii_alphabet:
  assumes "list_all (\<lambda>c. of_char c < (128::nat)) alphabet" and "set s \<subseteq> set alphabet"
  shows "json_string s = s"
  by (rule json_string_ascii) (use assms in \<open>auto simp: list_all_iff\<close>)

lemma base64_RawURL_alphabet: "set (base64_RawURL bs) \<subseteq> set b64_alphabet"
proof (induction bs rule: base64_RawURL.induct)
  have m: "k < 64 \<Longrightarrow> b64_alphabet ! k \<in> set b64_alphabet" for k by (rule nth_mem) (simp add: b64_alphabet_def)
  have a: "unat a div 4 < 64" for a :: byte using unat_byte_lt [of a] by (simp add: less_mult_imp_div_less)
  have ab: "unat a mod 4 * 16 + unat b div 16 < 64" for a b :: byte
  proof -
    have "unat b div 16 < 16" using unat_byte_lt [of b] by (simp add: less_mult_imp_div_less)
    moreover have "unat a mod 4 \<le> 3" using mod_less_divisor [of 4 "unat a"] by linarith
    ultimately show ?thesis by linarith
  qed
  have bc: "unat b mod 16 * 4 + unat c div 64 < 64" for b c :: byte
  proof -
    have "unat c div 64 < 4" using unat_byte_lt [of c] by (simp add: less_mult_imp_div_less)
    moreover have "unat b mod 16 \<le> 15" using mod_less_divisor [of 16 "unat b"] by linarith
    ultimately show ?thesis by linarith
  qed
  {
    case (2 a)
    then show ?case using m a by simp
  next
    case (3 a b)
    then show ?case using m a ab by simp
  next
    case (4 a b c rest)
    then show ?case using m a ab bc by simp
  }
qed simp

lemma json_string_base64 [simp]: "json_string (base64_RawURL bs) = base64_RawURL bs"
  by (rule ascii_alphabet [OF _ base64_RawURL_alphabet]) (simp add: b64_alphabet_def)

lemma json_string_S256 [simp]: "json_string (S256 v) = S256 v"
  by (simp add: S256_def)

lemma json_string_session_id: "newSessionID w = (Some sid, w') \<Longrightarrow> json_string sid = sid"
  by (auto simp: newSessionID_def random_hex_def hex_digits_def split: option.splits prod.splits
      intro!: ascii_alphabet [OF _ hex_EncodeToString_digits])

lemma json_string_user_code:
  assumes "wf_code c"
  shows "json_string c = c"
proof (rule ascii_alphabet)
  show "list_all (\<lambda>c. of_char c < (128::nat)) (CHR ''-'' # userCodeAlphabet)" by (simp add: userCodeAlphabet_def)
  show "set c \<subseteq> set (CHR ''-'' # userCodeAlphabet)" using assms by (rule wf_codeE) auto
qed

end
