(* ===== verification/Handlers.thy ===== *)
theory Handlers
  imports Broker
begin

text \<open>
  The HTTP handlers of \<open>handlers.go\<close> and the router of \<open>broker.go\<close>. A handler takes the request, the
  broker and the outside world and returns the reply with both as it leaves them; every early
  return of the source is a branch. A Go panic (\<open>poll\<close> on a session without identity) is the
  reply \<open>Panicked\<close>: net/http drops the connection.
\<close>

section \<open>Requests\<close>

record startRequest =
  sq_LoginHint :: string
  sq_CodeChallenge :: string
  sq_CodeChallengeMethod :: string
  sq_ClientKind :: string
  sq_ClientHost :: string

definition decode_startRequest :: "string \<Rightarrow> startRequest option" where
  "decode_startRequest body =
     (let doc = json_Decode body in
      case (decode_string ''login_hint'' doc, decode_string ''code_challenge'' doc,
            decode_string ''code_challenge_method'' doc, decode_string ''client_kind'' doc,
            decode_string ''client_host'' doc) of
        (Some hint, Some challenge, Some meth, Some kind, Some host) \<Rightarrow>
          Some \<lparr>sq_LoginHint = hint, sq_CodeChallenge = challenge, sq_CodeChallengeMethod = meth,
                sq_ClientKind = kind, sq_ClientHost = host\<rparr>
      | _ \<Rightarrow> None)"

record pollRequest =
  pq_SessionID :: string
  pq_CodeVerifier :: string

definition decode_pollRequest :: "string \<Rightarrow> pollRequest option" where
  "decode_pollRequest body =
     (let doc = json_Decode body in
      case (decode_string ''session_id'' doc, decode_string ''code_verifier'' doc) of
        (Some sid, Some verifier) \<Rightarrow> Some \<lparr>pq_SessionID = sid, pq_CodeVerifier = verifier\<rparr>
      | _ \<Rightarrow> None)"

record approveRequest =
  aq_SessionID :: string
  aq_UserCode :: string
  aq_CSRFToken :: string
  aq_Approve :: bool

datatype reply = Reply response | Panicked

type_synonym ('st, 'l) handler =
  "request \<Rightarrow> ('st, 'l) broker \<Rightarrow> world \<Rightarrow> reply \<times> ('st, 'l) broker \<times> world"

section \<open>POST /auth/start\<close>

text \<open>The client gate: without an authenticator every caller passes, unverified.\<close>

definition client_gate :: "config \<Rightarrow> request \<Rightarrow> string option" where
  "client_gate cfg r =
     (case cfg_ClientAuthenticator cfg of
        None \<Rightarrow> Some ''''
      | Some authenticate \<Rightarrow> authenticate r)"

text \<open>The second half of the handler, once the request passed the gates and both limiters.\<close>

definition start_session ::
  "('st, 'l) env \<Rightarrow> startRequest \<Rightarrow> string \<Rightarrow> string \<Rightarrow> ('st, 'l) broker \<Rightarrow> world
     \<Rightarrow> reply \<times> ('st, 'l) broker \<times> world" where
  "start_session env req verifiedClient ip b w =
     (case newSession
             \<lparr>sp_LoginHint = sq_LoginHint req, sp_CodeChallenge = sq_CodeChallenge req,
              sp_ClientKind = sq_ClientKind req, sp_ClientHost = sq_ClientHost req,
              sp_ClientIP = ip, sp_VerifiedClient = verifiedClient\<rparr>
             (cfg_SessionTTL (b_cfg b)) (cfg_PollInterval (b_cfg b)) w of
        (None, w1) \<Rightarrow>
          (Reply (writeJSONError 500 ''server_error'' ''could not create session''), b, w1)
      | (Some sess, w1) \<Rightarrow>
          (case b_Create env sess w1 b of
             (Some _, b1) \<Rightarrow>
               (Reply (writeJSONError 500 ''server_error'' ''could not persist session''), b1, w1)
           | (None, b1) \<Rightarrow>
               (Reply (writeJSON 200 (BodyStart
                  \<lparr>sr_SessionID = s_ID sess,
                   sr_VerificationURI = cfg_BaseURL (b_cfg b) @ ''/auth/verify/'' @ s_ID sess,
                   sr_UserCode = s_UserCode sess,
                   sr_ExpiresIn = duration_Seconds (cfg_SessionTTL (b_cfg b)),
                   sr_Interval = duration_Seconds (cfg_PollInterval (b_cfg b))\<rparr>)),
                logTransition (s_ID sess) ''session_started''
                  [(''severity'', ''info''), (''client_host'', s_ClientHost sess),
                   (''client_kind'', s_ClientKind sess), (''client_ip'', s_ClientIP sess)] b1,
                w1)))"

definition handleStart :: "('st, 'l) env \<Rightarrow> ('st, 'l) handler" where
  "handleStart env r b w =
     (case client_gate (b_cfg b) r of
        None \<Rightarrow> (Reply (writeJSONError 401 ''invalid_client'' ''client authentication failed''), b, w)
      | Some verifiedClient \<Rightarrow>
     (case decode_startRequest (r_Body r) of
        None \<Rightarrow> (Reply (writeJSONError 400 ''invalid_request'' ''malformed JSON body''), b, w)
      | Some req \<Rightarrow>
          if sq_LoginHint req = '''' \<or> sq_CodeChallenge req = ''''
          then (Reply (writeJSONError 400 ''invalid_request''
                  ''login_hint and code_challenge are required''), b, w)
          else if sq_CodeChallengeMethod req \<noteq> '''' \<and> sq_CodeChallengeMethod req \<noteq> ''S256''
          then (Reply (writeJSONError 400 ''invalid_request''
                  ''only S256 code_challenge_method is supported''), b, w)
          else
            let (now, w1) = time_Now w;
                b1 = detector_Observe EventRepeatedStart (sq_LoginHint req) '''' now b;
                ip = resolveClientIP r (cfg_TrustedProxies (b_cfg b))
            in if \<not> isAllowedClient ip (cfg_AllowedClientCIDRs (b_cfg b))
               then (Reply (writeJSONError 403 ''network_not_allowed''
                       ''this network is not permitted to start sign-ins''), b1, w1)
               else
                 let (ipOk, ipL, w2) = limiter_Allow (e_rate env) ip (b_ipLimiter b1) w1;
                     b2 = b1\<lparr>b_ipLimiter := ipL\<rparr>
                 in if \<not> ipOk
                    then (Reply (writeJSONError 429 ''rate_limited''
                            ''too many session starts; try again later''), b2, w2)
                    else
                      let (hintOk, hintL, w3) =
                            limiter_Allow (e_rate env) (sq_LoginHint req) (b_hintLimiter b2) w2;
                          b3 = b2\<lparr>b_hintLimiter := hintL\<rparr>
                      in if \<not> hintOk
                         then (Reply (writeJSONError 429 ''rate_limited''
                                 ''too many session starts; try again later''), b3, w3)
                         else start_session env req verifiedClient ip b3 w3))"

section \<open>GET /auth/verify\<close>

definition begin_login ::
  "('st, 'l) env \<Rightarrow> request \<Rightarrow> session \<Rightarrow> ('st, 'l) broker \<Rightarrow> world
     \<Rightarrow> reply \<times> ('st, 'l) broker \<times> world" where
  "begin_login env r sess b w =
     (case idp_BeginLogin (e_idp env) sess w of
        (Inl _, _, w1) \<Rightarrow>
          (Reply (renderResult 500 ''Error'' ''Could not start sign-in. Please try again.''), b, w1)
      | (Inr redirectURL, sess1, w1) \<Rightarrow>
          (case b_Update env sess1 w1 b of
             (Some _, b1) \<Rightarrow>
               (Reply (renderResult 500 ''Error'' ''Could not start sign-in. Please try again.''), b1, w1)
           | (None, b1) \<Rightarrow>
               (Reply (with_cookies (setSessionCookie r (s_ID sess1)) (http_Redirect redirectURL 302)),
                b1, w1)))"

definition handleVerify :: "('st, 'l) env \<Rightarrow> ('st, 'l) handler" where
  "handleVerify env r b w =
     (case b_Get env (r_PathID r) w b of
        Inl _ \<Rightarrow> (Reply (renderResult 404 ''Link not found''
                   ''This sign-in link is invalid or has already been used.''), b, w)
      | Inr sess0 \<Rightarrow>
          let (now, w1) = time_Now w; (expired, sess) = expireIfNeeded sess0 now in
          if expired
          then (Reply (renderResult 410 ''Link expired''
                  ''This sign-in request has expired. Go back to the client and try again.''),
                snd (b_Update env sess w1 b), w1)
          else
            (case s_State sess of
               StateAwaitingApproval \<Rightarrow>
                 if \<not> approvalBindingMatches r sess
                 then (Reply (renderResult 403 ''Continue on your device''
                         ''This sign-in is waiting for approval on the browser where you signed in. Please continue there.''),
                       b, w1)
                 else (Reply (with_cookies (setSessionCookie r (s_ID sess))
                         (renderApprove sess (cfg_BaseURL (b_cfg b)))), b, w1)
             | StateDenied \<Rightarrow>
                 (Reply (renderResult 200 ''Sign-in denied'' ''This sign-in request was already denied.''), b, w1)
             | StateApproved \<Rightarrow>
                 (Reply (renderResult 200 ''Already approved'' ''This sign-in request was already approved.''), b, w1)
             | StatePending \<Rightarrow> begin_login env r sess b w1
             | StateExpired \<Rightarrow>
                 (Reply (renderResult 200 ''Unavailable'' ''This sign-in request is no longer available.''), b, w1)))"

section \<open>GET /auth/callback, POST /auth/saml/acs\<close>

text \<open>The second half, once the identity provider returned an identity.\<close>

definition finish_login ::
  "('st, 'l) env \<Rightarrow> request \<Rightarrow> session \<Rightarrow> identity \<Rightarrow> time \<Rightarrow> ('st, 'l) broker \<Rightarrow> world
     \<Rightarrow> reply \<times> ('st, 'l) broker \<times> world" where
  "finish_login env r sess ident now b w =
     (case newApprovalSecret w of
        (None, w1) \<Rightarrow>
          (Reply (renderResult 500 ''Error'' ''This sign-in request could not be completed.''), b, w1)
      | (Some approvalSecret, w1) \<Rightarrow>
          let (bindErr, sess1, w2) =
                bindIdentity (e_unicode env) (cfg_IdentityNormalizer (b_cfg b)) ident now
                  (hashBinding approvalSecret) sess w1;
              b1 = snd (b_Update env sess1 w2 b)
          in (case bindErr of
                Some err \<Rightarrow>
                  if err = ErrIdentityMismatch
                  then (Reply (renderResult 403 ''Identity mismatch''
                          ''You are signed in as a different account than the one this request is for. The request has been denied.''),
                        detector_Observe EventIdentityMismatch (s_LoginHint sess1) (s_ID sess1) now b1, w2)
                  else (Reply (renderResult 409 ''Error'' ''This sign-in request could not be completed.''), b1, w2)
              | None \<Rightarrow>
                  (Reply (with_cookies (setApprovalCookie r approvalSecret)
                     (renderApprove sess1 (cfg_BaseURL (b_cfg b)))),
                   logTransition (s_ID sess1) ''identity_bound'' [(''severity'', ''info'')] b1, w2)))"

definition handleIdPResponse :: "('st, 'l) env \<Rightarrow> ('st, 'l) handler" where
  "handleIdPResponse env r b w =
     (case readSessionCookie r of
        None \<Rightarrow> (Reply (renderResult 400 ''Error''
                   ''Missing sign-in cookie; please restart from the client.''), b, w)
      | Some sessID \<Rightarrow>
     (case b_Get env sessID w b of
        Inl _ \<Rightarrow> (Reply (renderResult 404 ''Link not found''
                   ''This sign-in link is invalid or has already been used.''), b, w)
      | Inr sess0 \<Rightarrow>
          let (now, w1) = time_Now w; (expired, sess) = expireIfNeeded sess0 now in
          if expired
          then (Reply (renderResult 410 ''Link expired''
                  ''This sign-in request has expired. Go back to the client and try again.''),
                snd (b_Update env sess w1 b), w1)
          else if s_State sess \<noteq> StatePending
          then (Reply (renderResult 409 ''Already in progress''
                  ''This sign-in request was already completed.''), b, w1)
          else
            (case idp_CompleteLogin (e_idp env) r sess w1 of
               (Inl _, w2) \<Rightarrow>
                 (Reply (renderResult 502 ''Sign-in failed''
                    ''The identity provider rejected this sign-in attempt.''),
                  logTransition (s_ID sess) ''callback_exchange_failed'' [(''severity'', ''warn'')] b, w2)
             | (Inr ident, w2) \<Rightarrow> finish_login env r sess ident now b w2)))"

section \<open>POST /auth/approve\<close>

text \<open>The \<open>switch\<close> on the outcome of \<open>approve\<close>.\<close>

definition approve_reply ::
  "('st, 'l) env \<Rightarrow> request \<Rightarrow> sess_error option \<Rightarrow> session \<Rightarrow> time \<Rightarrow> ('st, 'l) broker
     \<Rightarrow> reply \<times> ('st, 'l) broker" where
  "approve_reply env r appErr sess now b =
     (if appErr = None \<and> s_State sess = StateApproved
      then (Reply (renderResult 200 ''Approved'' ''Sign-in approved. Return to the client to continue.''),
            logTransition (s_ID sess) ''approved'' [(''severity'', ''info'')] b)
      else if s_State sess = StateDenied
      then (Reply (renderResult 200 ''Denied'' ''Sign-in denied.''),
            logTransition (s_ID sess) ''denied'' [(''severity'', ''info'')] b)
      else if appErr = Some ErrExpired
      then (Reply (renderResult 410 ''Expired'' ''This sign-in request has expired.''), b)
      else if appErr = Some ErrApprovalNotBound
      then (Reply (renderResult 403 ''Continue on your device''
              ''This sign-in is waiting for approval on the browser where you signed in. Please continue there.''),
            logTransition (s_ID sess) ''approval_not_bound'' [(''severity'', ''warn'')] b)
      else if appErr \<noteq> None
      then (Reply (renderApprove sess (cfg_BaseURL (b_cfg b))),
            detector_Observe EventWrongCode (resolveClientIP r (cfg_TrustedProxies (b_cfg b)))
              (s_ID sess) now b)
      else (Reply (renderResult 200 ''Done'' ''This request has been processed.''), b))"

definition handleApprove :: "('st, 'l) env \<Rightarrow> ('st, 'l) handler" where
  "handleApprove env r b w =
     (case readSessionCookie r of
        None \<Rightarrow> (Reply (renderResult 400 ''Error''
                   ''Missing sign-in cookie; please restart from the client.''), b, w)
      | Some sessID \<Rightarrow>
          if r_FormErr r
          then (Reply (renderResult 400 ''Error'' ''Malformed request.''), b, w)
          else
            let req = \<lparr>aq_SessionID = sessID, aq_UserCode = r_FormValue r ''user_code'',
                       aq_CSRFToken = r_FormValue r ''csrf_token'',
                       aq_Approve = (r_FormValue r ''decision'' = ''approve'')\<rparr>
            in
     (case b_Get env (aq_SessionID req) w b of
        Inl _ \<Rightarrow> (Reply (renderResult 404 ''Link not found''
                   ''This sign-in link is invalid or has already been used.''), b, w)
      | Inr sess \<Rightarrow>
          if \<not> constantTimeStringEqual (aq_CSRFToken req) (s_CSRFToken sess)
          then (Reply (renderResult 403 ''Error''
                  ''Invalid form submission; please reload the page and try again.''), b, w)
          else
            let approvalSecret = (case readApprovalCookie r of None \<Rightarrow> '''' | Some v \<Rightarrow> v);
                (now, w1) = time_Now w;
                (appErr, sess1) = approve (e_unicode env) (aq_UserCode req) (aq_Approve req) now
                                    approvalSecret sess;
                b1 = snd (b_Update env sess1 w1 b);
                (rep, b2) = approve_reply env r appErr sess1 now b1
            in (rep, b2, w1)))"

section \<open>POST /auth/poll\<close>

definition poll_reply :: "PollResult \<Rightarrow> string \<Rightarrow> ('st, 'l) broker \<Rightarrow> reply \<times> ('st, 'l) broker" where
  "poll_reply result sid b =
     (if pr_Status result = PollApproved \<and> pr_Artifact result \<noteq> None
      then (Reply (writeJSON 200 (BodyPoll
              \<lparr>po_Status = string_of_status (pr_Status result), po_Artifact = pr_Artifact result,
               po_Error = ''''\<rparr>)),
            logTransition sid ''consumed'' [(''severity'', ''info'')] b)
      else (Reply (writeJSON 200 (BodyPoll
              \<lparr>po_Status = string_of_status (pr_Status result), po_Artifact = None,
               po_Error = ''''\<rparr>)), b))"

definition handlePoll :: "('st, 'l) env \<Rightarrow> ('st, 'l) handler" where
  "handlePoll env r b w =
     (case decode_pollRequest (r_Body r) of
        None \<Rightarrow> (Reply (writeJSONError 400 ''invalid_request'' ''malformed JSON body''), b, w)
      | Some req \<Rightarrow>
          if pq_SessionID req = ''''
          then (Reply (writeJSONError 400 ''invalid_request'' ''malformed JSON body''), b, w)
          else
     (case b_Get env (pq_SessionID req) w b of
        Inl _ \<Rightarrow> (Reply (writeJSON 200 (BodyPoll
                   \<lparr>po_Status = string_of_status PollExpired, po_Artifact = None, po_Error = ''''\<rparr>)), b, w)
      | Inr sess \<Rightarrow>
          let wasConsumed = s_Consumed sess;
              (now, w1) = time_Now w;
              (outcome, sess1) = poll (pq_CodeVerifier req) now (cfg_ArtifactTTL (b_cfg b)) sess
          in (case outcome of
                PollPanic \<Rightarrow> (Panicked, b, w1)
              | PollError err \<Rightarrow>
                  let b1 = snd (b_Update env sess1 w1 b) in
                  if err = ErrInvalidVerifier
                  then (Reply (writeJSONError 403 ''invalid_verifier'' ''code_verifier does not match''),
                        logTransition (s_ID sess1) ''poll_invalid_verifier'' [(''severity'', ''warn'')] b1, w1)
                  else (Reply (writeJSONError 500 ''server_error'' ''could not evaluate session''), b1, w1)
              | PollReturn result \<Rightarrow>
                  let b1 = snd (b_Update env sess1 w1 b);
                      (b2, w2) =
                        (if wasConsumed \<and> pr_Status result = PollExpired
                         then let (now', w') = time_Now w1 in
                              (detector_Observe EventConsumedReplay
                                 (resolveClientIP r (cfg_TrustedProxies (b_cfg b1))) (s_ID sess1) now' b1, w')
                         else (b1, w1));
                      (rep, b3) = poll_reply result (s_ID sess1) b2
                  in (rep, b3, w2))))"

section \<open>Router\<close>

text \<open>
  The route table in the order \<open>Router\<close> builds it. Matching a request against it is chi's: its
  answer, the index of a route or none, and its reply when there is none are arguments.
\<close>

datatype endpoint = EpHealthz | EpStart | EpVerify | EpIdPResponse | EpApprove | EpPoll

definition routes :: "(string \<times> string \<times> endpoint) list" where
  "routes =
     [(''GET'', ''/healthz'', EpHealthz),
      (''POST'', ''/auth/start'', EpStart),
      (''GET'', ''/auth/verify/{session_id}'', EpVerify),
      (''GET'', ''/auth/callback'', EpIdPResponse),
      (''POST'', ''/auth/saml/acs'', EpIdPResponse),
      (''POST'', ''/auth/approve'', EpApprove),
      (''POST'', ''/auth/poll'', EpPoll)]"

fun serve :: "('st, 'l) env \<Rightarrow> endpoint \<Rightarrow> ('st, 'l) handler" where
  "serve env EpHealthz r b w =
     (Reply \<lparr>rs_Status = 200, rs_Header = [], rs_Cookies = [], rs_Body = BodyEmpty\<rparr>, b, w)"
| "serve env EpStart r b w = handleStart env r b w"
| "serve env EpVerify r b w = handleVerify env r b w"
| "serve env EpIdPResponse r b w = handleIdPResponse env r b w"
| "serve env EpApprove r b w = handleApprove env r b w"
| "serve env EpPoll r b w = handlePoll env r b w"

text \<open>A middleware sets headers before the handler writes; the handlers set other ones.\<close>

definition add_headers :: "(string \<times> string) list \<Rightarrow> reply \<Rightarrow> reply" where
  "add_headers hs rep =
     (case rep of Panicked \<Rightarrow> Panicked | Reply x \<Rightarrow> Reply (x\<lparr>rs_Header := hs @ rs_Header x\<rparr>))"

definition noStoreMiddleware :: "('st, 'l) handler \<Rightarrow> ('st, 'l) handler" where
  "noStoreMiddleware nxt r b w =
     (let (rep, b', w') = nxt r b w in (add_headers [(''Cache-Control'', ''no-store'')] rep, b', w'))"

definition cspMiddleware :: "('st, 'l) handler \<Rightarrow> ('st, 'l) handler" where
  "cspMiddleware nxt r b w =
     (let (rep, b', w') = nxt r b w in
      (add_headers
         [(''Content-Security-Policy'',
           ''default-src 'none'; style-src 'unsafe-inline'; base-uri 'none'; form-action 'self'; frame-ancestors 'none'' @ [CHR 0x27]),
          (''X-Content-Type-Options'', ''nosniff''),
          (''Referrer-Policy'', ''no-referrer'')] rep, b', w'))"

definition Router ::
  "('st, 'l) env \<Rightarrow> ((string \<times> string) list \<Rightarrow> request \<Rightarrow> nat option) \<Rightarrow> (request \<Rightarrow> reply)
     \<Rightarrow> ('st, 'l) handler" where
  "Router env chi_match chi_none r b w =
     (case chi_match (map (\<lambda>(m, p, ep). (m, p)) routes) r of
        None \<Rightarrow> (chi_none r, b, w)
      | Some i \<Rightarrow>
          if i < length routes then
            (let ep = snd (snd (routes ! i)) in
             if ep = EpHealthz then serve env ep r b w
             else noStoreMiddleware (cspMiddleware (serve env ep)) r b w)
          else (chi_none r, b, w))"

section \<open>Lemmas\<close>

text \<open>The folded field names, for the decoders.\<close>

lemma fold_names:
  "json_fold ''login_hint'' = ''LOGIN_HINT''" "json_fold ''code_challenge'' = ''CODE_CHALLENGE''"
  "json_fold ''code_challenge_method'' = ''CODE_CHALLENGE_METHOD''"
  "json_fold ''client_kind'' = ''CLIENT_KIND''" "json_fold ''client_host'' = ''CLIENT_HOST''"
  "json_fold ''session_id'' = ''SESSION_ID''" "json_fold ''code_verifier'' = ''CODE_VERIFIER''"
  by (simp_all add: ascii_upper_def char_of_eq_iff)

end
