(* ===== verification/Session_Props.thy ===== *)
theory Session_Props
  imports Session
begin

text \<open>
  Histories of one session: the operations of theory \<open>Session\<close> applied one after the other, in any
  order and with any arguments, as clients, browsers and attackers may. A history is the list of
  operations with what each returned, newest first. The invariant of histories gives the four
  checks, single use and the bound on guesses; the abstract machine of the documentation
  (pending, awaiting approval, approved, denied, expired) is refined by every operation.
\<close>

section \<open>Operations on one session and their histories\<close>

datatype sess_op =
    OpExpire time
  | OpBegin string string string string string
  | OpBind identity time string world
  | OpApprove string bool time string
  | OpPoll string time duration

datatype sess_obs =
    ObsQuiet
  | ObsBind "sess_error option"
  | ObsApprove "sess_error option"
  | ObsPoll poll_outcome

text \<open>
  \<open>OpExpire\<close> is the expiry check of the verification page, \<open>OpBegin\<close> the fields an identity
  provider stores when it starts a login (on a pending session only, as \<open>handleVerify\<close> does).
\<close>

definition begin_fields ::
  "string \<Rightarrow> string \<Rightarrow> string \<Rightarrow> string \<Rightarrow> string \<Rightarrow> session \<Rightarrow> session" where
  "begin_fields pr st no ve rq s =
     s\<lparr>s_Protocol := pr, s_IdPState := st, s_IdPNonce := no, s_IdPPKCEVerifier := ve,
       s_SAMLRequestID := rq\<rparr>"

fun sess_step ::
  "unicode_tables \<Rightarrow> normalizer option \<Rightarrow> sess_op \<Rightarrow> session \<Rightarrow> sess_obs \<times> session" where
  "sess_step u nz (OpExpire now) s = (ObsQuiet, snd (expireIfNeeded s now))"
| "sess_step u nz (OpBegin pr st no ve rq) s =
     (ObsQuiet, if s_State s = StatePending then begin_fields pr st no ve rq s else s)"
| "sess_step u nz (OpBind ident now h w) s =
     (let (r, s', w') = bindIdentity u nz ident now h s w in (ObsBind r, s'))"
| "sess_step u nz (OpApprove c d now p) s =
     (let (r, s') = approve u c d now p s in (ObsApprove r, s'))"
| "sess_step u nz (OpPoll v now ttl) s =
     (let (r, s') = poll v now ttl s in (ObsPoll r, s'))"

type_synonym history = "(sess_op \<times> sess_obs) list"

inductive sess_reach ::
  "unicode_tables \<Rightarrow> normalizer option \<Rightarrow> session \<Rightarrow> history \<Rightarrow> session \<Rightarrow> bool"
  for u nz s0 where
  start: "sess_reach u nz s0 [] s0"
| step: "sess_reach u nz s0 tr s \<Longrightarrow> sess_step u nz op s = (ob, s') \<Longrightarrow>
    sess_reach u nz s0 ((op, ob) # tr) s'"

inductive_cases sess_reach_ConsE: "sess_reach u nz s0 ((op, ob) # tr) s"

text \<open>A run of a list of operations, oldest first: the executable form of a history.\<close>

fun sess_run ::
  "unicode_tables \<Rightarrow> normalizer option \<Rightarrow> sess_op list \<Rightarrow> history \<Rightarrow> session \<Rightarrow> history \<times> session" where
  "sess_run u nz [] tr s = (tr, s)"
| "sess_run u nz (op # ops) tr s =
     (let (ob, s') = sess_step u nz op s in sess_run u nz ops ((op, ob) # tr) s')"

lemma sess_run_reach:
  "sess_reach u nz s0 tr s \<Longrightarrow> sess_run u nz ops tr s = (tr', s') \<Longrightarrow> sess_reach u nz s0 tr' s'"
proof (induction ops arbitrary: tr s)
  case Nil
  then show ?case by simp
next
  case (Cons op ops)
  obtain ob s1 where st: "sess_step u nz op s = (ob, s1)" by fastforce
  with Cons.prems(1) have "sess_reach u nz s0 ((op, ob) # tr) s1" by (rule sess_reach.step)
  with Cons st show ?case by simp
qed

lemma sess_run_start:
  "sess_reach u nz s (fst (sess_run u nz ops [] s)) (snd (sess_run u nz ops [] s))"
  by (rule sess_run_reach [OF sess_reach.start]) (rule prod.collapse [symmetric])

text \<open>
  The effect of one operation, in one rule for the proofs below: the operation either leaves the
  session as it was, or takes one of the listed transitions.
\<close>

lemma sess_step_cases:
  assumes "sess_step u nz op s = (ob, s')"
  obtains (same) "s' = s" "\<And>r. ob = ObsPoll r \<Longrightarrow> released r = None"
      "ob \<noteq> ObsApprove (Some ErrIncorrectCode)" "ob \<noteq> ObsApprove (Some ErrTooManyCodes)"
      "ob \<noteq> ObsApprove None" "ob \<noteq> ObsBind None"
  | (expire) "s' = s\<lparr>s_State := StateExpired\<rparr>" "s_State s \<noteq> StateApproved" "s_State s \<noteq> StateDenied"
      "\<And>r. ob = ObsPoll r \<Longrightarrow> released r = None" "\<And>r. ob = ObsApprove r \<Longrightarrow> r = Some ErrExpired"
      "\<And>r. ob = ObsBind r \<Longrightarrow> r = Some ErrExpired"
  | (begun) pr st no ve rq where "s_State s = StatePending" "s' = begin_fields pr st no ve rq s"
      "ob = ObsQuiet"
  | (mismatch) ident now h w where "op = OpBind ident now h w" "ob = ObsBind (Some ErrIdentityMismatch)"
      "s_State s = StatePending"
      "s' = s\<lparr>s_Identity := Some ident, s_IdentityAt := now, s_State := StateDenied\<rparr>"
  | (no_token) ident now h w where "op = OpBind ident now h w" "ob = ObsBind (Some ErrRand)"
      "s_State s = StatePending" "s' = s\<lparr>s_Identity := Some ident, s_IdentityAt := now\<rparr>"
  | (bound) ident now h w token where "op = OpBind ident now h w" "ob = ObsBind None"
      "s_State s = StatePending" "now \<le> s_ExpiresAt s" "token \<noteq> ''''"
      "normalizer_or_default u nz (id_Value ident) = normalizer_or_default u nz (s_LoginHint s)"
      "s' = s\<lparr>s_Identity := Some ident, s_IdentityAt := now, s_CSRFToken := token,
              s_ApprovalBindingHash := h, s_State := StateAwaitingApproval\<rparr>"
  | (denied) c now p where "op = OpApprove c False now p" "ob = ObsApprove None"
      "s_State s = StateAwaitingApproval" "hashBinding p = s_ApprovalBindingHash s"
      "s' = s\<lparr>s_State := StateDenied\<rparr>"
  | (approved) c now p where "op = OpApprove c True now p" "ob = ObsApprove None"
      "s_State s = StateAwaitingApproval" "now \<le> s_ExpiresAt s"
      "hashBinding p = s_ApprovalBindingHash s" "codesEqual u c (s_UserCode s)"
      "s' = s\<lparr>s_State := StateApproved\<rparr>"
  | (too_many) c now p where "op = OpApprove c True now p" "ob = ObsApprove (Some ErrTooManyCodes)"
      "s_State s = StateAwaitingApproval"
      "wrap64 (s_ApproveAttempts s + 1) \<ge> maxApproveAttempts"
      "s' = s\<lparr>s_ApproveAttempts := wrap64 (s_ApproveAttempts s + 1), s_State := StateDenied\<rparr>"
  | (incorrect) c now p where "op = OpApprove c True now p" "ob = ObsApprove (Some ErrIncorrectCode)"
      "s_State s = StateAwaitingApproval"
      "wrap64 (s_ApproveAttempts s + 1) < maxApproveAttempts"
      "s' = s\<lparr>s_ApproveAttempts := wrap64 (s_ApproveAttempts s + 1)\<rparr>"
  | (panic) v now ttl where "op = OpPoll v now ttl" "ob = ObsPoll PollPanic"
      "s_State s = StateApproved" "\<not> s_Consumed s" "s_Identity s = None"
      "s' = s\<lparr>s_Consumed := True\<rparr>"
  | (release) v now ttl ident art where "op = OpPoll v now ttl" "s_State s = StateApproved"
      "\<not> s_Consumed s" "verifyClientPKCE v (s_CodeChallenge s)" "s_Identity s = Some ident"
      "art = \<lparr>a_Subject = id_Subject ident, a_Identity = id_Value ident, a_Claims = id_Claims ident,
              a_ApprovedAt = s_IdentityAt s, a_ExpiresAt = time_Add (s_IdentityAt s) ttl\<rparr>"
      "ob = ObsPoll (PollReturn \<lparr>pr_Status = PollApproved, pr_Artifact = Some art\<rparr>)"
      "s' = s\<lparr>s_Consumed := True\<rparr>"
  | (polled) v now ttl st where "op = OpPoll v now ttl" "ob = ObsPoll (poll_status st)"
      "s_State s \<noteq> StateApproved" "s' = s\<lparr>s_LastPollAt := now\<rparr>"
proof (cases op)
  case (OpExpire now)
  with assms show ?thesis
    by (cases rule: expireIfNeeded_cases [of s now])
      (auto intro: that(1,2))
next
  case (OpBegin pr st no ve rq)
  with assms show ?thesis
    by (cases "s_State s = StatePending") (auto intro: that(1,3))
next
  case (OpBind ident now h w)
  with assms obtain r w' where b: "bindIdentity u nz ident now h s w = (r, s', w')"
    and ob: "ob = ObsBind r" by (auto split: prod.splits)
  from b show ?thesis
    by (cases rule: bindIdentity_cases) (use OpBind ob in \<open>auto intro: that(1,2,4-6)\<close>)
next
  case (OpApprove c d now p)
  with assms obtain r where a: "approve u c d now p s = (r, s')" and ob: "ob = ObsApprove r"
    by (auto split: prod.splits)
  from a show ?thesis
    by (cases rule: approve_cases) (use OpApprove ob in \<open>auto intro: that(1,2,7-10)\<close>)
next
  case (OpPoll v now ttl)
  with assms obtain r where a: "poll v now ttl s = (r, s')" and ob: "ob = ObsPoll r"
    by (auto split: prod.splits)
  from a show ?thesis
    by (cases rule: poll_cases)
      (use OpPoll ob in \<open>auto simp: released_def poll_status_def intro: that(1,2,11-13)\<close>)
qed

section \<open>Fields no operation changes\<close>

definition same_request :: "session \<Rightarrow> session \<Rightarrow> bool" where
  "same_request s s' \<longleftrightarrow>
     s_ID s' = s_ID s \<and> s_LoginHint s' = s_LoginHint s \<and> s_CodeChallenge s' = s_CodeChallenge s \<and>
     s_ClientKind s' = s_ClientKind s \<and> s_ClientHost s' = s_ClientHost s \<and>
     s_ClientIP s' = s_ClientIP s \<and> s_VerifiedClient s' = s_VerifiedClient s \<and>
     s_Interval s' = s_Interval s \<and> s_CreatedAt s' = s_CreatedAt s \<and>
     s_ExpiresAt s' = s_ExpiresAt s \<and> s_UserCode s' = s_UserCode s"

lemma same_request_refl [simp]: "same_request s s"
  by (simp add: same_request_def)

lemma same_request_trans: "same_request s t \<Longrightarrow> same_request t v \<Longrightarrow> same_request s v"
  by (simp add: same_request_def)

lemma sess_step_same_request: "sess_step u nz op s = (ob, s') \<Longrightarrow> same_request s s'"
  by (erule sess_step_cases) (simp_all add: same_request_def begin_fields_def)

lemma sess_reach_same_request: "sess_reach u nz s0 tr s \<Longrightarrow> same_request s0 s"
  by (induction rule: sess_reach.induct)
    (auto intro: same_request_trans dest: sess_step_same_request)

section \<open>The abstract machine\<close>

text \<open>The transitions of the documented state machine.\<close>

inductive edge :: "state \<Rightarrow> state \<Rightarrow> bool" where
  bind: "edge StatePending StateAwaitingApproval"
| mismatch: "edge StatePending StateDenied"
| expire_pending: "edge StatePending StateExpired"
| approve: "edge StateAwaitingApproval StateApproved"
| deny: "edge StateAwaitingApproval StateDenied"
| expire_awaiting: "edge StateAwaitingApproval StateExpired"

inductive_simps edge_simps: "edge a b"

lemma sess_step_edge:
  "sess_step u nz op s = (ob, s') \<Longrightarrow> s_State s' = s_State s \<or> edge (s_State s) (s_State s')"
  by (erule sess_step_cases) (cases "s_State s"; simp add: edge_simps begin_fields_def)+

lemma edge_not_terminal: "edge a b \<Longrightarrow> \<not> isTerminal a"
  by (auto simp: edge_simps)

text \<open>The order of a session's life: a state is below every state that transitions lead to.\<close>

instantiation state :: order
begin

definition less_eq_state :: "state \<Rightarrow> state \<Rightarrow> bool" where
  "a \<le> b \<longleftrightarrow> a = b \<or> a = StatePending \<or> a = StateAwaitingApproval \<and> isTerminal b"

definition less_state :: "state \<Rightarrow> state \<Rightarrow> bool" where
  "(a :: state) < b \<longleftrightarrow> a \<le> b \<and> \<not> b \<le> a"

instance
  by standard (auto simp: less_eq_state_def less_state_def)

end

lemma edge_le: "edge a b \<Longrightarrow> a \<le> b"
  by (auto simp: edge_simps less_eq_state_def)

lemma state_le_edges: "a \<le> b \<longleftrightarrow> edge\<^sup>*\<^sup>* a b"
proof
  assume "a \<le> b"
  then show "edge\<^sup>*\<^sup>* a b"
  proof (cases "a = b \<or> edge a b")
    case False
    with \<open>a \<le> b\<close> have "edge a StateAwaitingApproval \<and> edge StateAwaitingApproval b"
      by (cases a; cases b) (auto simp: less_eq_state_def edge_simps)
    then show ?thesis by (meson converse_rtranclp_into_rtranclp r_into_rtranclp)
  qed (auto intro: r_into_rtranclp)
next
  assume "edge\<^sup>*\<^sup>* a b"
  then show "a \<le> b" by (induction rule: rtranclp_induct) (auto dest: edge_le)
qed

lemma terminal_maximal: "isTerminal a \<Longrightarrow> a \<le> b \<Longrightarrow> b = a"
  by (auto simp: less_eq_state_def)

lemma sess_reach_advances: "sess_reach u nz s0 tr s \<Longrightarrow> s_State s0 \<le> s_State s"
proof (induction rule: sess_reach.induct)
  case (step tr s op ob s')
  then show ?case using sess_step_edge [OF step.hyps(2)] edge_le order_trans by metis
qed simp

section \<open>The invariant of histories\<close>

definition is_release :: "sess_op \<times> sess_obs \<Rightarrow> bool" where
  "is_release e = (case snd e of ObsPoll r \<Rightarrow> released r \<noteq> None | _ \<Rightarrow> False)"

definition is_wrong_code :: "sess_op \<times> sess_obs \<Rightarrow> bool" where
  "is_wrong_code e \<longleftrightarrow> snd e = ObsApprove (Some ErrIncorrectCode) \<or> snd e = ObsApprove (Some ErrTooManyCodes)"

text \<open>The history holds the login that bound the session's identity, before it expired.\<close>

definition bound_in :: "unicode_tables \<Rightarrow> normalizer option \<Rightarrow> history \<Rightarrow> session \<Rightarrow> bool" where
  "bound_in u nz tr s \<longleftrightarrow>
     (\<exists>ident w. s_Identity s = Some ident \<and>
        (OpBind ident (s_IdentityAt s) (s_ApprovalBindingHash s) w, ObsBind None) \<in> set tr \<and>
        normalizer_or_default u nz (id_Value ident) = normalizer_or_default u nz (s_LoginHint s) \<and>
        s_IdentityAt s \<le> s_ExpiresAt s)"

text \<open>The history holds the approval, by the browser that logged in and with the right code,
  after the login.\<close>

definition approved_in :: "unicode_tables \<Rightarrow> normalizer option \<Rightarrow> history \<Rightarrow> session \<Rightarrow> bool" where
  "approved_in u nz tr s \<longleftrightarrow>
     (\<exists>tr1 tr2 c now p.
        tr = tr1 @ (OpApprove c True now p, ObsApprove None) # tr2 \<and>
        bound_in u nz tr2 s \<and> codesEqual u c (s_UserCode s) \<and>
        hashBinding p = s_ApprovalBindingHash s \<and> now \<le> s_ExpiresAt s)"

definition state_inv :: "unicode_tables \<Rightarrow> normalizer option \<Rightarrow> history \<Rightarrow> session \<Rightarrow> bool" where
  "state_inv u nz tr s \<longleftrightarrow>
     (s_State s = StateAwaitingApproval \<longrightarrow> bound_in u nz tr s) \<and>
     (s_State s = StateApproved \<longrightarrow> approved_in u nz tr s)"

definition count_inv :: "history \<Rightarrow> session \<Rightarrow> bool" where
  "count_inv tr s \<longleftrightarrow>
     (s_Consumed s \<longrightarrow> s_State s = StateApproved) \<and>
     length (filter is_release tr) \<le> (if s_Consumed s then 1 else 0) \<and>
     int (length (filter is_wrong_code tr)) = s_ApproveAttempts s \<and>
     s_ApproveAttempts s \<le> maxApproveAttempts \<and>
     (s_State s \<noteq> StateDenied \<longrightarrow> s_ApproveAttempts s < maxApproveAttempts)"

lemma bound_in_mono: "bound_in u nz tr s \<Longrightarrow> set tr \<subseteq> set tr' \<Longrightarrow> bound_in u nz tr' s"
  unfolding bound_in_def by blast

lemma approved_in_Cons: "approved_in u nz tr s \<Longrightarrow> approved_in u nz (e # tr) s"
  unfolding approved_in_def by (metis append_Cons)

lemma approved_in_bound: "approved_in u nz tr s \<Longrightarrow> bound_in u nz tr s"
  unfolding approved_in_def by (auto intro: bound_in_mono)

text \<open>Both predicates read only fields that polling, counting and deciding do not write.\<close>

lemma bound_in_frame [simp]:
  "bound_in u nz tr (s\<lparr>s_State := st\<rparr>) = bound_in u nz tr s"
  "bound_in u nz tr (s\<lparr>s_ApproveAttempts := n\<rparr>) = bound_in u nz tr s"
  "bound_in u nz tr (s\<lparr>s_Consumed := b\<rparr>) = bound_in u nz tr s"
  "bound_in u nz tr (s\<lparr>s_LastPollAt := t\<rparr>) = bound_in u nz tr s"
  by (simp_all add: bound_in_def)

lemma approved_in_frame [simp]:
  "approved_in u nz tr (s\<lparr>s_State := st\<rparr>) = approved_in u nz tr s"
  "approved_in u nz tr (s\<lparr>s_Consumed := b\<rparr>) = approved_in u nz tr s"
  by (simp_all add: approved_in_def)

lemma approved_inI:
  assumes "bound_in u nz tr s" and "codesEqual u c (s_UserCode s)"
    and "hashBinding p = s_ApprovalBindingHash s" and "now \<le> s_ExpiresAt s"
  shows "approved_in u nz ((OpApprove c True now p, ObsApprove None) # tr) s"
  unfolding approved_in_def using assms by (metis append_Nil)

lemma state_inv_step:
  assumes "sess_step u nz op s = (ob, s')" and "state_inv u nz tr s"
  shows "state_inv u nz ((op, ob) # tr) s'"
  using assms(1)
proof (cases rule: sess_step_cases)
  case (bound ident now h w token)
  then have "bound_in u nz ((op, ob) # tr) s'" by (auto simp: bound_in_def)
  with bound show ?thesis by (simp add: state_inv_def)
next
  case (approved c now p)
  then have "bound_in u nz tr s" using assms(2) by (simp add: state_inv_def)
  with approved show ?thesis by (simp add: state_inv_def approved_inI)
qed (use assms(2) in \<open>auto simp: state_inv_def begin_fields_def intro: approved_in_Cons
       elim: bound_in_mono\<close>)

lemma count_inv_step:
  assumes "sess_step u nz op s = (ob, s')" and "count_inv tr s"
  shows "count_inv ((op, ob) # tr) s'"
  using assms(1)
proof (cases rule: sess_step_cases)
  case (too_many c now p)
  then have "wrap64 (s_ApproveAttempts s + 1) = s_ApproveAttempts s + 1"
    using assms(2) by (intro wrap64_id) (auto simp: count_inv_def minInt64_def maxInt64_def maxApproveAttempts_def)
  with too_many assms(2) show ?thesis
    by (auto simp: count_inv_def is_release_def is_wrong_code_def maxApproveAttempts_def)
next
  case (incorrect c now p)
  then have "wrap64 (s_ApproveAttempts s + 1) = s_ApproveAttempts s + 1"
    using assms(2) by (intro wrap64_id) (auto simp: count_inv_def minInt64_def maxInt64_def maxApproveAttempts_def)
  with incorrect assms(2) show ?thesis
    by (auto simp: count_inv_def is_release_def is_wrong_code_def)
qed (use assms(2) in \<open>auto simp: count_inv_def is_release_def is_wrong_code_def begin_fields_def
       poll_status_def released_def split: sess_obs.splits\<close>)

section \<open>Histories of a session the broker created\<close>

lemma newSession_Some:
  assumes "newSession p ttl iv w = (Some s, w')"
  obtains "s_State s = StatePending" "\<not> s_Consumed s" "s_ApproveAttempts s = 0" "s_Identity s = None"
    "s_LoginHint s = sp_LoginHint p" "s_CodeChallenge s = sp_CodeChallenge p"
    "s_ExpiresAt s = s_CreatedAt s + ttl" "s_Interval s = iv" "wf_code (s_UserCode s)"
    "length (s_ID s) = 32" "s_CSRFToken s = ''''" "s_ApprovalBindingHash s = ''''"
    "s_LastPollAt s = 0" "s_ClientKind s = sp_ClientKind p" "s_ClientHost s = sp_ClientHost p"
    "s_ClientIP s = sp_ClientIP p" "s_VerifiedClient s = sp_VerifiedClient p"
proof -
  from assms obtain sid w1 code w2 where "newSessionID w = (Some sid, w1)"
    and "GenerateUserCode w1 = (Some code, w2)" and "s_ID s = sid" "s_UserCode s = code"
    and "s_State s = StatePending" "\<not> s_Consumed s" "s_ApproveAttempts s = 0" "s_Identity s = None"
      "s_LoginHint s = sp_LoginHint p" "s_CodeChallenge s = sp_CodeChallenge p"
      "s_ExpiresAt s = s_CreatedAt s + ttl" "s_Interval s = iv" "s_CSRFToken s = ''''"
      "s_ApprovalBindingHash s = ''''" "s_LastPollAt s = 0" "s_ClientKind s = sp_ClientKind p"
      "s_ClientHost s = sp_ClientHost p" "s_ClientIP s = sp_ClientIP p"
      "s_VerifiedClient s = sp_VerifiedClient p"
    by (auto simp: newSession_def Let_def time_Add_def split: prod.splits option.splits)
  then show ?thesis
    by (intro that) (auto simp: newSessionID_def dest: GenerateUserCode_wf random_hex_length)
qed

lemma reach_invariants:
  assumes "newSession p ttl iv w = (Some s0, w')" and "sess_reach u nz s0 tr s"
  shows "state_inv u nz tr s \<and> count_inv tr s"
  using assms(2)
proof (induction rule: sess_reach.induct)
  case start
  from assms(1) show ?case
    by (rule newSession_Some)
      (simp add: state_inv_def count_inv_def maxApproveAttempts_def)
next
  case (step tr s op ob s')
  then show ?case using state_inv_step count_inv_step by blast
qed

lemma released_status [simp]:
  "released (poll_status st) = None" "released (PollError e) = None" "released PollPanic = None"
  by (simp_all add: released_def poll_status_def)

lemma released_poll:
  assumes "poll v now ttl s = (r, s')" and "released r = Some a"
  obtains ident where "s_State s = StateApproved" "\<not> s_Consumed s"
    "verifyClientPKCE v (s_CodeChallenge s)" "s_Identity s = Some ident"
    "s' = s\<lparr>s_Consumed := True\<rparr>"
    "a = \<lparr>a_Subject = id_Subject ident, a_Identity = id_Value ident, a_Claims = id_Claims ident,
          a_ApprovedAt = s_IdentityAt s, a_ExpiresAt = s_IdentityAt s + ttl\<rparr>"
proof -
  from assms(1) show ?thesis
  proof (cases rule: poll_cases)
    case (release ident)
    with assms(2) show ?thesis by (intro that [of ident]) (simp_all add: released_def time_Add_def)
  qed (use assms(2) in auto)
qed

text \<open>A concrete login used by the witnesses: alice, on a broker with the default lifetimes.\<close>

definition demo_world :: world where
  "demo_world = \<lparr>w_rand = word_of_nat, w_rfail = (\<lambda>_. False), w_rpos = 0,
                 w_clock = (\<lambda>i. 1000 * second + int i * second), w_tick = 0\<rparr>"

definition demo_unicode :: unicode_tables where
  "demo_unicode = \<lparr>uni_ToUpper = (\<lambda>s. s), uni_ToLower = (\<lambda>s. s)\<rparr>"

definition demo_verifier :: string where
  "demo_verifier = ''dBjftJeZ4CVP-mB92K27uhbUJU1p1r_wW1gFWFOEjXk''"

definition demo_params :: StartParams where
  "demo_params = \<lparr>sp_LoginHint = ''alice'', sp_CodeChallenge = S256 demo_verifier,
     sp_ClientKind = ''cli'', sp_ClientHost = ''host-42'', sp_ClientIP = ''10.1.2.3'',
     sp_VerifiedClient = ''''\<rparr>"

definition demo_identity :: identity where
  "demo_identity = \<lparr>id_Subject = ''sub-alice'', id_Value = ''alice'', id_Claims = Map.empty\<rparr>"

definition demo_session :: session where
  "demo_session = the (fst (newSession demo_params (300 * second) (3 * second) demo_world))"

definition demo_ops :: "sess_op list" where
  "demo_ops =
     [OpBind demo_identity (1010 * second) (hashBinding ''secret'') demo_world,
      OpApprove (s_UserCode demo_session) True (1200 * second) ''secret'']"

lemma demo_new:
  "newSession demo_params (300 * second) (3 * second) demo_world =
     (Some demo_session, snd (newSession demo_params (300 * second) (3 * second) demo_world))"
  by (simp add: demo_session_def newSession_def newSessionID_def random_hex_def rand_Read_def
      demo_world_def GenerateUserCode_def Let_def split_beta)

lemma demo_session_fields:
  "s_State demo_session = StatePending" "s_ExpiresAt demo_session = 1300 * second"
  "s_LoginHint demo_session = ''alice''" "s_CodeChallenge demo_session = S256 demo_verifier"
  "\<not> s_Consumed demo_session" "s_LastPollAt demo_session = 0"
  by (simp_all add: demo_session_def newSession_def newSessionID_def random_hex_def rand_Read_def
      demo_world_def GenerateUserCode_def Let_def split_beta demo_params_def time_Now_def time_Add_def)

definition demo_approved :: session where
  "demo_approved = snd (sess_run demo_unicode None demo_ops [] demo_session)"

definition demo_history :: history where
  "demo_history = fst (sess_run demo_unicode None demo_ops [] demo_session)"

lemma demo_reach: "sess_reach demo_unicode None demo_session demo_history demo_approved"
  by (rule sess_run_reach [OF sess_reach.start]) (simp add: demo_history_def demo_approved_def)

lemma demo_bind:
  "bindIdentity demo_unicode None demo_identity (1010 * second) (hashBinding ''secret'') demo_session demo_world =
     (None, demo_session\<lparr>s_Identity := Some demo_identity, s_IdentityAt := 1010 * second,
        s_CSRFToken := the (fst (newCSRFToken demo_world)),
        s_ApprovalBindingHash := hashBinding ''secret'', s_State := StateAwaitingApproval\<rparr>,
      snd (newCSRFToken demo_world))"
  by (simp add: bindIdentity_def expireIfNeeded_def isExpired_def time_After_def demo_session_fields
      demo_identity_def newCSRFToken_def random_hex_def rand_Read_def demo_world_def)

lemma demo_approved_eq:
  "demo_approved = demo_session\<lparr>s_Identity := Some demo_identity, s_IdentityAt := 1010 * second,
        s_CSRFToken := the (fst (newCSRFToken demo_world)),
        s_ApprovalBindingHash := hashBinding ''secret'', s_State := StateApproved\<rparr>"
  by (simp add: demo_approved_def demo_ops_def demo_bind [simplified] approve_def expireIfNeeded_def
      isExpired_def time_After_def demo_session_fields codesEqual_iff)

lemma demo_poll:
  "poll demo_verifier (1201 * second) (120 * second) demo_approved =
     (PollReturn \<lparr>pr_Status = PollApproved,
        pr_Artifact = Some \<lparr>a_Subject = ''sub-alice'', a_Identity = ''alice'', a_Claims = Map.empty,
          a_ApprovedAt = 1010 * second, a_ExpiresAt = 1130 * second\<rparr>\<rparr>,
      demo_approved\<lparr>s_Consumed := True\<rparr>)"
  by (simp add: demo_approved_eq poll_def expireIfNeeded_def demo_session_fields
      verifyClientPKCE_iff demo_verifier_def demo_identity_def time_Add_def)

section \<open>Properties\<close>

text \<open>The four checks. Take a session the broker created and any history of it. If a poll then
  releases an artifact, the poller presented a verifier whose S256 challenge is the one sent at
  start (check 1); an approval in the history submitted the session's own user code, from a browser
  presenting the secret bound at login, before the session expired (check 2); before that approval
  an identity-provider login bound an identity equal to the login hint after normalisation
  (check 4); and the artifact carries exactly that identity.\<close>

theorem release_needs_all_checks:
  assumes "newSession p ttl0 iv w = (Some s0, w')"
    and "sess_reach u nz s0 tr s"
    and "sess_step u nz (OpPoll v now ttl) s = (ObsPoll r, s')"
    and "released r = Some a"
  shows "v \<noteq> '''' \<and> sp_CodeChallenge p = S256 v \<and>
    (\<exists>tr1 tr2 code t_app secret ident t_id rnd.
       tr = tr1 @ (OpApprove code True t_app secret, ObsApprove None) # tr2 \<and>
       (OpBind ident t_id (hashBinding secret) rnd, ObsBind None) \<in> set tr2 \<and>
       codesEqual u code (s_UserCode s0) \<and>
       t_app \<le> s_ExpiresAt s0 \<and> t_id \<le> s_ExpiresAt s0 \<and>
       normalizer_or_default u nz (id_Value ident) = normalizer_or_default u nz (sp_LoginHint p) \<and>
       a = \<lparr>a_Subject = id_Subject ident, a_Identity = id_Value ident, a_Claims = id_Claims ident,
            a_ApprovedAt = t_id, a_ExpiresAt = t_id + ttl\<rparr>)"
proof -
  from assms(3) have "poll v now ttl s = (r, s')" by (auto split: prod.splits)
  then obtain ident where appr: "s_State s = StateApproved"
    and pkce: "verifyClientPKCE v (s_CodeChallenge s)" and ident: "s_Identity s = Some ident"
    and a: "a = \<lparr>a_Subject = id_Subject ident, a_Identity = id_Value ident,
      a_Claims = id_Claims ident, a_ApprovedAt = s_IdentityAt s, a_ExpiresAt = s_IdentityAt s + ttl\<rparr>"
    using assms(4) by (rule released_poll)
  from reach_invariants [OF assms(1,2)] appr have "approved_in u nz tr s"
    by (simp add: state_inv_def)
  moreover have "same_request s0 s" using assms(2) by (rule sess_reach_same_request)
  moreover have "s_LoginHint s0 = sp_LoginHint p" "s_CodeChallenge s0 = sp_CodeChallenge p"
    using assms(1) by (blast elim: newSession_Some)+
  ultimately show ?thesis
    using pkce ident a unfolding verifyClientPKCE_iff approved_in_def bound_in_def same_request_def
    by fastforce
qed

theorem release_needs_all_checks_witness:
  "demo_verifier \<noteq> '''' \<and> sp_CodeChallenge demo_params = S256 demo_verifier \<and>
    (\<exists>tr1 tr2 code t_app secret ident t_id rnd.
       demo_history = tr1 @ (OpApprove code True t_app secret, ObsApprove None) # tr2 \<and>
       (OpBind ident t_id (hashBinding secret) rnd, ObsBind None) \<in> set tr2 \<and>
       codesEqual demo_unicode code (s_UserCode demo_session) \<and>
       t_app \<le> s_ExpiresAt demo_session \<and> t_id \<le> s_ExpiresAt demo_session \<and>
       normalizer_or_default demo_unicode None (id_Value ident) =
         normalizer_or_default demo_unicode None (sp_LoginHint demo_params) \<and>
       \<lparr>a_Subject = ''sub-alice'', a_Identity = ''alice'', a_Claims = Map.empty,
          a_ApprovedAt = 1010 * second, a_ExpiresAt = 1130 * second\<rparr> =
       \<lparr>a_Subject = id_Subject ident, a_Identity = id_Value ident, a_Claims = id_Claims ident,
            a_ApprovedAt = t_id, a_ExpiresAt = t_id + 120 * second\<rparr>)"
  by (rule release_needs_all_checks [OF demo_new demo_reach, where now = "1201 * second"
        and r = "fst (poll demo_verifier (1201 * second) (120 * second) demo_approved)"
        and s' = "demo_approved\<lparr>s_Consumed := True\<rparr>"])
    (simp_all add: demo_poll [simplified] released_def)

text \<open>Single use. No history of a session, whatever the order of its operations, contains two
  polls that release an artifact.\<close>

theorem artifact_released_at_most_once:
  assumes "newSession p ttl0 iv w = (Some s0, w')" and "sess_reach u nz s0 tr s"
  shows "length (filter is_release tr) \<le> 1"
  using reach_invariants [OF assms] by (auto simp: count_inv_def split: if_splits)

theorem artifact_released_at_most_once_witness: "length (filter is_release demo_history) \<le> 1"
  by (rule artifact_released_at_most_once [OF demo_new demo_reach])

text \<open>C9: The cap on guesses, for operations that do not overlap. In any history of a session, its operations performed one
  after the other, at most five wrong codes are evaluated, and once five were, the session is denied. (Forms that
  overlap escape the cap: theory \<open>Races\<close>.)\<close>

theorem wrong_codes_capped:
  assumes "newSession p ttl0 iv w = (Some s0, w')" and "sess_reach u nz s0 tr s"
  shows "length (filter is_wrong_code tr) \<le> 5 \<and>
    (length (filter is_wrong_code tr) = 5 \<longrightarrow> s_State s = StateDenied)"
  using reach_invariants [OF assms] by (auto simp: count_inv_def maxApproveAttempts_def)

text \<open>Five wrong codes after a login.\<close>

definition guessing_ops :: "sess_op list" where
  "guessing_ops = OpBind demo_identity (1010 * second) (hashBinding ''secret'') demo_world #
     replicate 5 (OpApprove ''WRONG'' True (1200 * second) ''secret'')"

definition "guessing_run = sess_run demo_unicode None guessing_ops [] demo_session"

lemma demo_code_not_wrong: "\<not> codesEqual demo_unicode ''WRONG'' (s_UserCode demo_session)" "s_ApproveAttempts demo_session = 0"
proof -
  have "normalizeUserCode demo_unicode ''WRONG'' \<noteq> normalizeUserCode demo_unicode (s_UserCode demo_session)" by code_simp
  then show "\<not> codesEqual demo_unicode ''WRONG'' (s_UserCode demo_session)" by (simp add: codesEqual_iff)
  show "s_ApproveAttempts demo_session = 0" by code_simp
qed

lemma guessing_history: "length (filter is_wrong_code (fst guessing_run)) = 5"
  by (simp add: guessing_run_def guessing_ops_def demo_bind [simplified] approve_def expireIfNeeded_def isExpired_def
      time_After_def demo_session_fields demo_code_not_wrong maxApproveAttempts_def wrap64_def numeral_eq_Suc is_wrong_code_def)

theorem wrong_codes_capped_witness:
  "length (filter is_wrong_code (fst guessing_run)) = 5 \<and> s_State (snd guessing_run) = StateDenied"
proof -
  have "sess_reach demo_unicode None demo_session (fst guessing_run) (snd guessing_run)"
    unfolding guessing_run_def by (rule sess_run_start)
  from wrong_codes_capped [OF demo_new this] show ?thesis using guessing_history by simp
qed

text \<open>Refinement of the documented state machine. Every operation keeps the state or takes one of
  its transitions: pending to awaiting approval, denied or expired; awaiting approval to approved,
  denied or expired.\<close>

theorem operations_refine_machine:
  "s_State (snd (sess_step u nz op s)) = s_State s \<or>
   edge (s_State s) (s_State (snd (sess_step u nz op s)))"
  using sess_step_edge [of u nz op s] by (metis prod.collapse)

text \<open>C10: A session never goes back. Along any history its state only advances through the documented transitions, and
  once it is approved, denied or expired, no further operation changes its state.\<close>

theorem states_only_advance:
  assumes "sess_reach u nz s0 tr s"
  shows "edge\<^sup>*\<^sup>* (s_State s0) (s_State s) \<and> (isTerminal (s_State s0) \<longrightarrow> s_State s = s_State s0)"
  using sess_reach_advances [OF assms] terminal_maximal state_le_edges by blast

theorem states_only_advance_witness:
  "edge\<^sup>*\<^sup>* StatePending (s_State demo_approved) \<and>
   s_State (snd (sess_run demo_unicode None [OpPoll demo_verifier (1201 * second) (120 * second),
     OpApprove ''x'' False (1202 * second) ''secret''] [] demo_approved)) = s_State demo_approved"
proof -
  have "edge\<^sup>*\<^sup>* StatePending (s_State demo_approved)"
    using states_only_advance [OF demo_reach] by (simp add: demo_session_fields)
  moreover have "isTerminal (s_State demo_approved)" by (simp add: demo_approved_eq)
  ultimately show ?thesis
    using states_only_advance [OF sess_run_start, of demo_approved demo_unicode None] by blast
qed

text \<open>C11: \<open>poll\<close> never dereferences a missing identity: in no history of a created session does a
  poll panic.\<close>

theorem poll_never_panics:
  assumes "newSession p ttl0 iv w = (Some s0, w')" and "sess_reach u nz s0 tr s"
  shows "fst (poll v now ttl s) \<noteq> PollPanic"
proof
  assume panic: "fst (poll v now ttl s) = PollPanic"
  obtain r s' where ps: "poll v now ttl s = (r, s')" by fastforce
  then have "s_State s = StateApproved \<and> s_Identity s = None"
    by (cases rule: poll_cases) (use panic ps in \<open>auto simp: poll_status_def\<close>)
  moreover have "state_inv u nz tr s" using reach_invariants [OF assms] by blast
  ultimately show False
    by (auto simp: state_inv_def bound_in_def dest!: approved_in_bound)
qed

theorem poll_never_panics_witness:
  "fst (poll demo_verifier (1201 * second) (120 * second) demo_approved) \<noteq> PollPanic"
  by (rule poll_never_panics [OF demo_new demo_reach])

text \<open>C12: Expiry. Past its deadline, a session that is not yet approved is never approved by a form
  submission, never has an identity bound, and a poll reports it expired and releases nothing,
  unless it was denied before.\<close>

theorem expired_session_is_dead:
  assumes "s_ExpiresAt s < now" and "s_State s \<noteq> StateApproved"
  shows "s_State (snd (approve u c d now p s)) \<noteq> StateApproved \<and>
    fst (approve u c d now p s) \<noteq> None \<and>
    fst (bindIdentity u nz ident now h s w) \<noteq> None \<and>
    released (fst (poll v now ttl s)) = None \<and>
    (s_State s \<noteq> StateDenied \<longrightarrow> fst (poll v now ttl s) = poll_status PollExpired)"
proof (cases "s_State s = StateDenied")
  case True
  then show ?thesis
    using assms by (simp add: session_defs released_def poll_status_def split: option.splits)
next
  case False
  obtain s1 where "expireIfNeeded s now = (True, s1)" "s_State s1 = StateExpired"
    by (cases rule: expireIfNeeded_cases [of s now]) (use False assms in auto)
  then show ?thesis by (simp add: approve_def bindIdentity_def poll_def)
qed

theorem expired_session_is_dead_witness:
  "s_State (snd (approve demo_unicode (s_UserCode demo_session) True (1301 * second) ''secret'' demo_session))
     \<noteq> StateApproved \<and>
   fst (approve demo_unicode (s_UserCode demo_session) True (1301 * second) ''secret'' demo_session) \<noteq> None \<and>
   fst (bindIdentity demo_unicode None demo_identity (1301 * second) ''h'' demo_session demo_world) \<noteq> None \<and>
   released (fst (poll demo_verifier (1301 * second) 0 demo_session)) = None \<and>
   fst (poll demo_verifier (1301 * second) 0 demo_session) = poll_status PollExpired"
  using expired_session_is_dead [of demo_session "1301 * second" demo_unicode "s_UserCode demo_session"
      True "''secret''" None demo_identity "''h''" demo_world demo_verifier 0]
  by (simp add: demo_session_fields)

text \<open>C13: Pacing. A poll that is answered pending or denied records its time; the next such answer
  comes only if the session's interval has passed since then. An earlier poll with the right
  verifier is told to slow down and changes nothing.\<close>

theorem poll_pacing:
  assumes "s_LastPollAt s \<noteq> 0" and "minInt64 < s_Interval s" and "s_Interval s \<le> maxInt64"
    and "poll v now ttl s = (r, s')" and "r = poll_status PollPending \<or> r = poll_status PollDenied"
  shows "s_Interval s \<le> now - s_LastPollAt s \<and> s_LastPollAt s' = now \<and>
    (\<forall>t < now + s_Interval s. t \<le> s_ExpiresAt s \<longrightarrow> now \<noteq> 0 \<longrightarrow>
       poll v t ttl s' = (poll_status PollSlowDown, s'))"
proof -
  have "\<not> time_Sub now (s_LastPollAt s) < s_Interval s \<and> verifyClientPKCE v (s_CodeChallenge s) \<and>
      s' = s\<lparr>s_LastPollAt := now\<rparr> \<and> (s_State s = StateDenied \<or> s_State s = StatePending \<or>
        s_State s = StateAwaitingApproval)"
    using assms(4)
  proof (cases rule: poll_cases)
    case denied
    with assms(1,4) show ?thesis by (auto simp: poll_def session_defs poll_status_def time_IsZero_def)
  next
    case pending
    with assms(1,4) show ?thesis
      by (auto simp: poll_def session_defs poll_status_def time_IsZero_def isExpired_def
          split: if_splits)
  qed (use assms(5) in \<open>auto simp: poll_status_def\<close>)
  then show ?thesis
    using assms(2,3) time_Sub_less_iff [OF assms(3), of now "s_LastPollAt s"]
      time_Sub_less_iff [OF assms(3), of _ now]
    by (auto simp: poll_def session_defs time_IsZero_def isExpired_def time_After_def
        split: if_splits)
qed

theorem poll_pacing_witness:
  "let s = demo_session\<lparr>s_LastPollAt := 1005 * second\<rparr>; s' = s\<lparr>s_LastPollAt := 1009 * second\<rparr> in
   s_Interval s \<le> 1009 * second - s_LastPollAt s \<and> s_LastPollAt s' = 1009 * second \<and>
    (\<forall>t < 1009 * second + s_Interval s. t \<le> s_ExpiresAt s \<longrightarrow> 1009 * second \<noteq> (0 :: int) \<longrightarrow>
       poll demo_verifier t 0 s' = (poll_status PollSlowDown, s'))"
proof -
  have iv: "s_Interval demo_session = 3 * second" using demo_new by (rule newSession_Some)
  show ?thesis
    unfolding Let_def
    by (rule poll_pacing [where r = "poll_status PollPending"])
      (simp_all add: iv minInt64_def maxInt64_def poll_def session_defs demo_session_fields
        isExpired_def time_After_def verifyClientPKCE_iff demo_verifier_def time_Sub_def time_IsZero_def)
qed

text \<open>The legitimate path succeeds. On a fresh session, a login whose identity matches the hint,
  an approval from the same browser with the displayed code, and a poll with the right verifier,
  all in time, release the artifact with the logged-in identity.\<close>

theorem legitimate_login_succeeds:
  assumes "newSession p ttl0 iv w = (Some s0, w')"
    and "v \<noteq> ''''" and "sp_CodeChallenge p = S256 v"
    and "normalizer_or_default u nz (id_Value ident) = normalizer_or_default u nz (sp_LoginHint p)"
    and "fst (newCSRFToken rnd) \<noteq> None"
    and "t_id \<le> s_ExpiresAt s0" and "t_app \<le> s_ExpiresAt s0"
  shows "\<exists>s1 s2 s3 rnd'.
    bindIdentity u nz ident t_id (hashBinding secret) s0 rnd = (None, s1, rnd') \<and>
    approve u (s_UserCode s0) True t_app secret s1 = (None, s2) \<and>
    poll v now ttl s2 =
      (PollReturn \<lparr>pr_Status = PollApproved,
         pr_Artifact = Some \<lparr>a_Subject = id_Subject ident, a_Identity = id_Value ident,
           a_Claims = id_Claims ident, a_ApprovedAt = t_id, a_ExpiresAt = t_id + ttl\<rparr>\<rparr>, s3)"
proof -
  have s0: "s_State s0 = StatePending" "\<not> s_Consumed s0" "s_LoginHint s0 = sp_LoginHint p"
    "s_CodeChallenge s0 = sp_CodeChallenge p"
    using assms(1) by (blast elim: newSession_Some)+
  obtain tok rnd' where tok: "newCSRFToken rnd = (Some tok, rnd')"
    using assms(5) by (cases "newCSRFToken rnd") auto
  define s1 where "s1 = s0\<lparr>s_Identity := Some ident, s_IdentityAt := t_id, s_CSRFToken := tok,
    s_ApprovalBindingHash := hashBinding secret, s_State := StateAwaitingApproval\<rparr>"
  have "bindIdentity u nz ident t_id (hashBinding secret) s0 rnd = (None, s1, rnd')"
    using assms(4,6) s0 tok by (simp add: s1_def session_defs isExpired_def time_After_def)
  moreover have "approve u (s_UserCode s0) True t_app secret s1 = (None, s1\<lparr>s_State := StateApproved\<rparr>)"
    using assms(7) by (simp add: s1_def session_defs isExpired_def time_After_def codesEqual_iff)
  moreover have "poll v now ttl (s1\<lparr>s_State := StateApproved\<rparr>) =
      (PollReturn \<lparr>pr_Status = PollApproved,
         pr_Artifact = Some \<lparr>a_Subject = id_Subject ident, a_Identity = id_Value ident,
           a_Claims = id_Claims ident, a_ApprovedAt = t_id, a_ExpiresAt = t_id + ttl\<rparr>\<rparr>,
       s1\<lparr>s_State := StateApproved, s_Consumed := True\<rparr>)"
    using assms(2,3) s0
    by (simp add: s1_def session_defs verifyClientPKCE_iff time_Add_def)
  ultimately show ?thesis by blast
qed

theorem legitimate_login_succeeds_witness:
  "\<exists>s1 s2 s3 rnd'.
    bindIdentity demo_unicode None demo_identity (1010 * second) (hashBinding ''secret'') demo_session demo_world
      = (None, s1, rnd') \<and>
    approve demo_unicode (s_UserCode demo_session) True (1200 * second) ''secret'' s1 = (None, s2) \<and>
    poll demo_verifier (1201 * second) (120 * second) s2 =
      (PollReturn \<lparr>pr_Status = PollApproved,
         pr_Artifact = Some \<lparr>a_Subject = id_Subject demo_identity, a_Identity = id_Value demo_identity,
           a_Claims = id_Claims demo_identity, a_ApprovedAt = 1010 * second,
           a_ExpiresAt = 1010 * second + 120 * second\<rparr>\<rparr>, s3)"
  by (rule legitimate_login_succeeds [OF demo_new])
    (simp_all add: demo_params_def demo_verifier_def demo_identity_def demo_session_fields
      newCSRFToken_def random_hex_def rand_Read_def demo_world_def)

text \<open>The artifact's lifetime starts at the identity-provider login, not at the approval or the
  release: with the default lifetimes there is a login, approved and collected within the session's
  own lifetime, whose artifact has already expired when it is released.\<close>

theorem artifact_can_be_released_expired:
  "\<exists>s tr a now.
     sess_reach demo_unicode None demo_session tr s \<and>
     s_ExpiresAt demo_session = s_CreatedAt demo_session + 300 * second \<and>
     now \<le> s_ExpiresAt demo_session \<and>
     released (fst (poll demo_verifier now (120 * second) s)) = Some a \<and> a_ExpiresAt a < now"
proof (intro exI conjI)
  show "sess_reach demo_unicode None demo_session demo_history demo_approved" by (rule demo_reach)
  show "s_ExpiresAt demo_session = s_CreatedAt demo_session + 300 * second"
    using demo_new by (rule newSession_Some)
  show "1201 * second \<le> s_ExpiresAt demo_session" by (simp add: demo_session_fields)
  show "released (fst (poll demo_verifier (1201 * second) (120 * second) demo_approved)) =
      Some \<lparr>a_Subject = ''sub-alice'', a_Identity = ''alice'', a_Claims = Map.empty,
          a_ApprovedAt = 1010 * second, a_ExpiresAt = 1130 * second\<rparr>"
    by (simp add: demo_poll [simplified] released_def)
qed simp

end
