(* ===== verification/Broker_Sim.thy ===== *)
theory Broker_Sim
  imports Handlers Session_Props
begin

text \<open>
  The handlers against the session machine: serving a request changes at most one session, and
  changes it by one operation of theory \<open>Session_Props\<close> whose arguments come from the request. This
  is shown first for any store, whose calls may fail, as a statement about the calls a handler makes;
  the locale \<open>broker_env\<close> then collects what a broker relies on, a reliable store and an identity
  provider that writes only its own fields of a session, and the calls become changes of the content.
\<close>

section \<open>What the broker relies on\<close>

locale identity_provider =
  fixes I :: idp_ops
  assumes begin_only: "idp_BeginLogin I s w = (res, s', w') \<Longrightarrow>
    \<exists>pr st no ve rq. s' = begin_fields pr st no ve rq s"
begin

lemma begin_ID: "idp_BeginLogin I s w = (res, s', w') \<Longrightarrow> s_ID s' = s_ID s"
  by (drule begin_only) (auto simp: begin_fields_def)

end

locale broker_env = reliable_store "e_store env" stored + identity_provider "e_idp env"
  for env :: "('st, 'l) env" and stored :: "'st \<Rightarrow> string \<rightharpoonup> session"

section \<open>Exchanges and the operations that explain them\<close>

text \<open>An exchange is the endpoint, the request and the reply.\<close>

type_synonym exchange = "endpoint \<times> request \<times> reply"

definition reply_artifact :: "reply \<Rightarrow> Artifact option" where
  "reply_artifact rep =
     (case rep of Panicked \<Rightarrow> None
      | Reply x \<Rightarrow> (case rs_Body x of BodyPoll p \<Rightarrow> po_Artifact p | _ \<Rightarrow> None))"

definition reply_start :: "reply \<Rightarrow> startResponse option" where
  "reply_start rep =
     (case rep of Panicked \<Rightarrow> None
      | Reply x \<Rightarrow> (case rs_Body x of BodyStart s \<Rightarrow> Some s | _ \<Rightarrow> None))"

definition reply_cookies :: "reply \<Rightarrow> (string \<times> string) list" where
  "reply_cookies rep =
     (case rep of Panicked \<Rightarrow> [] | Reply x \<Rightarrow> map (\<lambda>c. (c_Name c, c_Value c)) (rs_Cookies x))"

definition presented_secret :: "request \<Rightarrow> string" where
  "presented_secret r = (case readApprovalCookie r of None \<Rightarrow> '''' | Some v \<Rightarrow> v)"

text \<open>The exchange \<open>(ep, r, rep)\<close> performs the operation \<open>op\<close> on the session \<open>sid\<close>, with outcome \<open>ob\<close>.\<close>

fun explains :: "idp_ops \<Rightarrow> exchange \<Rightarrow> string \<Rightarrow> sess_op \<Rightarrow> sess_obs \<Rightarrow> bool" where
  "explains I (ep, r, rep) sid (OpExpire now) ob \<longleftrightarrow>
     (ep = EpVerify \<and> r_PathID r = sid \<or> ep = EpIdPResponse \<and> readSessionCookie r = Some sid)"
| "explains I (ep, r, rep) sid (OpBegin pr st no ve rq) ob \<longleftrightarrow> ep = EpVerify \<and> r_PathID r = sid"
| "explains I (ep, r, rep) sid (OpBind ident now h w0) ob \<longleftrightarrow>
     ep = EpIdPResponse \<and> readSessionCookie r = Some sid \<and>
     (\<exists>sess w1 w2. s_ID sess = sid \<and> idp_CompleteLogin I r sess w1 = (Inr ident, w2)) \<and>
     (ob = ObsBind None \<longrightarrow>
        (\<exists>secret. h = hashBinding secret \<and> (approvalCookieName, secret) \<in> set (reply_cookies rep)))"
| "explains I (ep, r, rep) sid (OpApprove c d now p) ob \<longleftrightarrow>
     ep = EpApprove \<and> readSessionCookie r = Some sid \<and> c = r_FormValue r ''user_code'' \<and>
     d = (r_FormValue r ''decision'' = ''approve'') \<and> p = presented_secret r"
| "explains I (ep, r, rep) sid (OpPoll v now ttl) ob \<longleftrightarrow>
     ep = EpPoll \<and>
     decode_pollRequest (r_Body r) = Some \<lparr>pq_SessionID = sid, pq_CodeVerifier = v\<rparr> \<and>
     (\<exists>res. ob = ObsPoll res \<and> reply_artifact rep = released res)"

text \<open>The start request and its reply agree with the session created.\<close>

definition explains_start :: "exchange \<Rightarrow> session \<Rightarrow> bool" where
  "explains_start x s0 \<longleftrightarrow>
     (case x of (ep, r, rep) \<Rightarrow>
        ep = EpStart \<and> reply_artifact rep = None \<and>
        (\<exists>q sr. decode_startRequest (r_Body r) = Some q \<and> reply_start rep = Some sr \<and>
           sr_SessionID sr = s_ID s0 \<and> sr_UserCode sr = s_UserCode s0 \<and>
           s_LoginHint s0 = sq_LoginHint q \<and> s_CodeChallenge s0 = sq_CodeChallenge q))"

section \<open>Lemmas\<close>

lemma reply_simps [simp]:
  "reply_artifact Panicked = None" "reply_start Panicked = None" "reply_cookies Panicked = []"
  "reply_artifact (Reply (renderResult st ti ms)) = None"
  "reply_start (Reply (renderResult st ti ms)) = None"
  "reply_artifact (Reply (renderApprove s url)) = None"
  "reply_start (Reply (renderApprove s url)) = None"
  "reply_artifact (Reply (writeJSONError st cd ms)) = None"
  "reply_start (Reply (writeJSONError st cd ms)) = None"
  "reply_artifact (Reply (with_cookies cs x)) = reply_artifact (Reply x)"
  "reply_start (Reply (with_cookies cs x)) = reply_start (Reply x)"
  "reply_artifact (Reply (http_Redirect u st)) = None"
  "reply_start (Reply (http_Redirect u st)) = None"
  "reply_artifact (Reply (writeJSON st (BodyPoll p))) = po_Artifact p"
  "reply_start (Reply (writeJSON st (BodyPoll p))) = None"
  "reply_artifact (Reply (writeJSON st (BodyStart q))) = None"
  "reply_start (Reply (writeJSON st (BodyStart q))) = Some q"
  by (simp_all add: reply_artifact_def reply_start_def reply_cookies_def renderResult_def renderApprove_def
      writeJSONError_def writeJSON_def with_cookies_def http_Redirect_def)

lemma setApprovalCookie_cookie:
  "(approvalCookieName, secret) \<in> set (reply_cookies (Reply (with_cookies (setApprovalCookie r secret) x)))"
  by (simp add: reply_cookies_def with_cookies_def setApprovalCookie_def Let_def)

lemma expireIfNeeded_False: "expireIfNeeded s now = (False, s') \<Longrightarrow> s' = s"
  by (auto simp: expireIfNeeded_def split: if_splits)

lemma approve_reply_quiet:
  assumes "approve_reply env r e s now b = (rep, b')"
  shows "b_store b' = b_store b" "reply_start rep = None" "reply_artifact rep = None"
  using assms by (auto simp: approve_reply_def split: if_splits)

lemma poll_reply_quiet:
  assumes "poll_reply result sid b = (rep, b')"
  shows "b_store b' = b_store b \<and> reply_start rep = None \<and>
    reply_artifact rep = (if pr_Status result = PollApproved then pr_Artifact result else None)"
  using assms by (auto simp: poll_reply_def split: if_splits)

lemma poll_artifact_status:
  assumes "poll v now ttl s = (PollReturn res, s')"
  shows "(if pr_Status res = PollApproved then pr_Artifact res else None) = pr_Artifact res"
  using assms by (cases rule: poll_cases) (auto simp: poll_status_def)

definition ids_ok :: "(string \<rightharpoonup> session) \<Rightarrow> bool" where
  "ids_ok m \<longleftrightarrow> (\<forall>sid s. m sid = Some s \<longrightarrow> s_ID s = sid)"

text \<open>
  What the handler of one exchange does with the store \<open>S\<close>: nothing that changes it, one \<open>Create\<close> of a new session, or
  one \<open>Get\<close> and one \<open>Update\<close> with what a session operation makes of the session read. Nothing is assumed of the store:
  its calls may fail.
\<close>

definition failed_start :: "exchange \<Rightarrow> session \<Rightarrow> bool" where
  "failed_start x s0 \<longleftrightarrow>
     (case x of (ep, r, rep) \<Rightarrow>
        ep = EpStart \<and> reply_artifact rep = None \<and> reply_start rep = None \<and>
        (\<exists>q. decode_startRequest (r_Body r) = Some q \<and>
           s_LoginHint s0 = sq_LoginHint q \<and> s_CodeChallenge s0 = sq_CodeChallenge q))"

inductive exchange_call ::
  "idp_ops \<Rightarrow> unicode_tables \<Rightarrow> normalizer option \<Rightarrow> 'st store_ops \<Rightarrow> 'st \<Rightarrow> exchange \<Rightarrow> 'st \<Rightarrow> bool"
  for I u nz S st where
  no_call: "reply_artifact rep = None \<Longrightarrow> reply_start rep = None \<Longrightarrow> exchange_call I u nz S st (ep, r, rep) st"
| creates: "newSession p ttl iv w = (Some s0, w') \<Longrightarrow> st_Create S s0 t st = (e, st') \<Longrightarrow>
    if e = None then explains_start x s0 else failed_start x s0 \<Longrightarrow> exchange_call I u nz S st x st'"
| updates: "st_Get S sid t st = Inr s \<Longrightarrow> sess_step u nz op s = (ob, s') \<Longrightarrow> explains I x sid op ob \<Longrightarrow>
    reply_start (snd (snd x)) = None \<Longrightarrow>
    fst x \<noteq> EpPoll \<longrightarrow> reply_artifact (snd (snd x)) = None \<Longrightarrow>
    st_Update S s' t' st = (e, st') \<Longrightarrow> exchange_call I u nz S st x st'"

text \<open>The sessions a store returns carry the id they were asked for.\<close>

definition get_ids :: "'st store_ops \<Rightarrow> 'st \<Rightarrow> bool" where
  "get_ids S st \<longleftrightarrow> (\<forall>sid t s. st_Get S sid t st = Inr s \<longrightarrow> s_ID s = sid)"

abbreviation serve_calls :: "('st, 'l) env \<Rightarrow> ('st, 'l) broker \<Rightarrow> exchange \<Rightarrow> 'st \<Rightarrow> bool" where
  "serve_calls env b \<equiv> exchange_call (e_idp env) (e_unicode env) (cfg_IdentityNormalizer (b_cfg b)) (e_store env)
     (b_store b)"

section \<open>The store calls of each handler\<close>

lemma start_session_calls:
  assumes "start_session env req vc ip b w = (rep, b', w')"
    and "decode_startRequest (r_Body r) = Some req"
  shows "serve_calls env b (EpStart, r, rep) (b_store b')"
proof -
  define p where "p = \<lparr>sp_LoginHint = sq_LoginHint req, sp_CodeChallenge = sq_CodeChallenge req,
              sp_ClientKind = sq_ClientKind req, sp_ClientHost = sq_ClientHost req,
              sp_ClientIP = ip, sp_VerifiedClient = vc\<rparr>"
  obtain res w1 where new: "newSession p (cfg_SessionTTL (b_cfg b)) (cfg_PollInterval (b_cfg b)) w = (res, w1)"
    by fastforce
  show ?thesis
  proof (cases res)
    case None
    then show ?thesis
      using assms(1) new by (auto simp: start_session_def p_def intro: exchange_call.no_call)
  next
    case (Some s0)
    obtain e st' where c: "st_Create (e_store env) s0 (instant w1) (b_store b) = (e, st')" by fastforce
    have fields: "s_LoginHint s0 = sq_LoginHint req" "s_CodeChallenge s0 = sq_CodeChallenge req"
      using new Some by (auto elim!: newSession_Some simp: p_def)
    have "b_store b' = st'"
      "if e = None then explains_start (EpStart, r, rep) s0 else failed_start (EpStart, r, rep) s0"
      using assms new Some c fields
      by (auto simp: start_session_def p_def explains_start_def failed_start_def b_Create_def split: option.splits)
    then show ?thesis using exchange_call.creates [OF _ c] new Some by blast
  qed
qed

lemma handleStart_calls:
  assumes "handleStart env r b w = (rep, b', w')"
  shows "serve_calls env b (EpStart, r, rep) (b_store b')"
proof (cases "reply_artifact rep = None \<and> reply_start rep = None \<and> b_store b' = b_store b")
  case True
  then show ?thesis by (auto intro: exchange_call.no_call)
next
  case False
  then obtain req vc ip b1 w1 where ses: "decode_startRequest (r_Body r) = Some req"
    "start_session env req vc ip b1 w1 = (rep, b', w')" "b_store b1 = b_store b" "b_cfg b1 = b_cfg b"
    using assms by (fastforce simp: handleStart_def Let_def split: option.splits prod.splits if_splits)
  then have "serve_calls env b1 (EpStart, r, rep) (b_store b')" by (intro start_session_calls)
  with ses(3,4) show ?thesis by simp
qed

text \<open>Writing back a session that an operation produced is an update with one step on the session read.\<close>

lemma step_calls:
  assumes "b_Get env sid v b = Inr s"
    and "sess_step (e_unicode env) (cfg_IdentityNormalizer (b_cfg b)) op s = (ob, s')"
    and "explains (e_idp env) (ep, r, rep) sid op ob"
    and "reply_start rep = None" and "ep \<noteq> EpPoll \<longrightarrow> reply_artifact rep = None"
    and "b_store b' = b_store (snd (b_Update env s' w b))"
  shows "serve_calls env b (ep, r, rep) (b_store b')"
proof -
  obtain e where "st_Update (e_store env) s' (instant w) (b_store b) = (e, b_store b')"
    using assms(6) by (cases "st_Update (e_store env) s' (instant w) (b_store b)") (simp add: b_Update_def)
  then show ?thesis using assms(1-5) by (auto simp: b_Get_def intro: exchange_call.updates)
qed

lemma begin_login_calls:
  assumes "identity_provider (e_idp env)" and "begin_login env r s b w = (rep, b', w')"
    and "b_Get env (r_PathID r) w0 b = Inr s" and "s_State s = StatePending"
  shows "serve_calls env b (EpVerify, r, rep) (b_store b')"
proof -
  obtain res s1 w1 where bl: "idp_BeginLogin (e_idp env) s w = (res, s1, w1)" by (metis prod_cases3)
  obtain pr st no ve rq where s1: "s1 = begin_fields pr st no ve rq s"
    using identity_provider.begin_only [OF assms(1) bl] by blast
  show ?thesis
  proof (cases res)
    case (Inl x)
    then show ?thesis using assms(2) bl by (auto simp: begin_login_def intro: exchange_call.no_call)
  next
    case (Inr url)
    then have "b_store b' = b_store (snd (b_Update env s1 w1 b))" "reply_start rep = None" "reply_artifact rep = None"
      using assms(2) bl by (auto simp: begin_login_def split: prod.splits option.splits)
    then show ?thesis
      using assms(3,4) s1
      by (intro step_calls [where s = s and s' = s1 and op = "OpBegin pr st no ve rq" and w = w1]) auto
  qed
qed

lemma handleVerify_calls:
  assumes "identity_provider (e_idp env)" and "handleVerify env r b w = (rep, b', w')"
  shows "serve_calls env b (EpVerify, r, rep) (b_store b')"
proof (cases "b_Get env (r_PathID r) w b")
  case (Inl e)
  then show ?thesis using assms(2) by (auto simp: handleVerify_def intro: exchange_call.no_call)
next
  case (Inr s)
  obtain now w1 where t: "time_Now w = (now, w1)" by fastforce
  obtain ex s1 where x: "expireIfNeeded s now = (ex, s1)" by fastforce
  show ?thesis
  proof (cases ex)
    case True
    then show ?thesis
      using assms(2) Inr t x
      by (intro step_calls [where s = s and s' = s1 and op = "OpExpire now" and w = w1])
        (auto simp: handleVerify_def)
  next
    case False
    then have s1: "s1 = s" using x by (auto dest: expireIfNeeded_False)
    show ?thesis
    proof (cases "s_State s = StatePending")
      case True
      then have "begin_login env r s b w1 = (rep, b', w')"
        using assms(2) Inr t x s1 False by (simp add: handleVerify_def)
      then show ?thesis using Inr True by (rule begin_login_calls [OF assms(1)])
    next
      case np: False
      then have "b' = b" "reply_artifact rep = None" "reply_start rep = None"
        using assms(2) Inr t x s1 False by (auto simp: handleVerify_def split: state.splits if_splits)
      then show ?thesis by (auto intro: exchange_call.no_call)
    qed
  qed
qed

lemma finish_login_calls:
  assumes "finish_login env r s ident now b w = (rep, b', w')" and "b_Get env sid w1 b = Inr s" and "s_ID s = sid"
    and "readSessionCookie r = Some sid" and "idp_CompleteLogin (e_idp env) r s w0 = (Inr ident, w)"
  shows "serve_calls env b (EpIdPResponse, r, rep) (b_store b')"
proof (cases "fst (newApprovalSecret w)")
  case None
  then show ?thesis
    using assms(1) by (auto simp: finish_login_def split: prod.splits intro: exchange_call.no_call)
next
  case (Some secret)
  then obtain w1 where sec: "newApprovalSecret w = (Some secret, w1)" by (metis prod.collapse)
  obtain e s1 w2 where bi: "bindIdentity (e_unicode env) (cfg_IdentityNormalizer (b_cfg b)) ident now
      (hashBinding secret) s w1 = (e, s1, w2)" by (metis prod_cases3)
  have "b_store b' = b_store (snd (b_Update env s1 w2 b))" "reply_start rep = None"
    "reply_artifact rep = None"
    "e = None \<Longrightarrow> (approvalCookieName, secret) \<in> set (reply_cookies rep)"
    using assms(1) sec bi
    by (auto simp: finish_login_def Let_def setApprovalCookie_cookie split: option.splits if_splits)
  then show ?thesis
    using assms(2-5) bi
    by (intro step_calls [where s = s and s' = s1 and ob = "ObsBind e" and w = w2 and
          op = "OpBind ident now (hashBinding secret) w1"]) auto
qed

lemma handleIdPResponse_calls:
  assumes "handleIdPResponse env r b w = (rep, b', w')" and "get_ids (e_store env) (b_store b)"
  shows "serve_calls env b (EpIdPResponse, r, rep) (b_store b')"
proof (cases "\<exists>sid s. readSessionCookie r = Some sid \<and> b_Get env sid w b = Inr s")
  case False
  then show ?thesis
    using assms(1) by (auto simp: handleIdPResponse_def split: option.splits sum.splits intro: exchange_call.no_call)
next
  case True
  then obtain sid s where sid: "readSessionCookie r = Some sid" "b_Get env sid w b = Inr s" by blast
  then have id: "s_ID s = sid" using assms(2) by (auto simp: get_ids_def b_Get_def)
  obtain now w1 where t: "time_Now w = (now, w1)" by fastforce
  obtain ex s1 where x: "expireIfNeeded s now = (ex, s1)" by fastforce
  obtain res w2 where cl: "idp_CompleteLogin (e_idp env) r s w1 = (res, w2)" by fastforce
  show ?thesis
  proof (cases ex)
    case True
    then show ?thesis
      using assms(1) sid t x
      by (intro step_calls [where s = s and s' = s1 and op = "OpExpire now" and w = w1])
        (auto simp: handleIdPResponse_def)
  next
    case False
    then have s1: "s1 = s" using x by (auto dest: expireIfNeeded_False)
    show ?thesis
    proof (cases "s_State s = StatePending \<and> (\<exists>ident. res = Inr ident)")
      case True
      then obtain ident where "res = Inr ident" by blast
      moreover from this have "finish_login env r s ident now b w2 = (rep, b', w')"
        using assms(1) sid t x s1 False True cl by (simp add: handleIdPResponse_def)
      ultimately show ?thesis using finish_login_calls sid id cl by blast
    next
      case np: False
      then have "b_store b' = b_store b" "reply_artifact rep = None" "reply_start rep = None"
        using assms(1) sid t x s1 False cl
        by (auto simp: handleIdPResponse_def split: sum.splits if_splits)
      then show ?thesis by (auto intro: exchange_call.no_call)
    qed
  qed
qed

lemma handleApprove_calls:
  assumes "handleApprove env r b w = (rep, b', w')"
  shows "serve_calls env b (EpApprove, r, rep) (b_store b')"
proof (cases "\<exists>sid s. readSessionCookie r = Some sid \<and> \<not> r_FormErr r \<and> b_Get env sid w b = Inr s \<and>
    constantTimeStringEqual (r_FormValue r ''csrf_token'') (s_CSRFToken s)")
  case False
  then show ?thesis
    using assms(1)
    by (auto simp: handleApprove_def Let_def split: option.splits sum.splits if_splits
        intro: exchange_call.no_call)
next
  case True
  then obtain sid s where sid: "readSessionCookie r = Some sid" "\<not> r_FormErr r" "b_Get env sid w b = Inr s"
    "constantTimeStringEqual (r_FormValue r ''csrf_token'') (s_CSRFToken s)" by blast
  obtain now w1 where t: "time_Now w = (now, w1)" by fastforce
  let ?d = "r_FormValue r ''decision'' = ''approve''"
  obtain e s1 where ap: "approve (e_unicode env) (r_FormValue r ''user_code'') ?d now (presented_secret r) s = (e, s1)"
    by fastforce
  then have ar: "approve_reply env r e s1 now (snd (b_Update env s1 w1 b)) = (rep, b')"
    using assms(1) sid t
    by (auto simp: handleApprove_def presented_secret_def Let_def split: prod.splits option.splits)
  show ?thesis
    using approve_reply_quiet [OF ar] sid ap
    by (intro step_calls [where s = s and s' = s1 and ob = "ObsApprove e" and w = w1 and
          op = "OpApprove (r_FormValue r ''user_code'') ?d now (presented_secret r)"]) auto
qed

lemma handlePoll_polled:
  assumes "handlePoll env r b w = (rep, b', w')" and "decode_pollRequest (r_Body r) = Some q"
    and "pq_SessionID q \<noteq> ''''" and "b_Get env (pq_SessionID q) w b = Inr s" and "time_Now w = (now, w1)"
    and "poll (pq_CodeVerifier q) now (cfg_ArtifactTTL (b_cfg b)) s = (out, s1)" and "out \<noteq> PollPanic"
  shows "b_store b' = b_store (snd (b_Update env s1 w1 b)) \<and> reply_start rep = None \<and> reply_artifact rep = released out"
  using assms poll_artifact_status [of "pq_CodeVerifier q" now "cfg_ArtifactTTL (b_cfg b)" s _ s1]
  by (auto simp: handlePoll_def Let_def released_def dest!: poll_reply_quiet
      split: poll_outcome.splits if_splits prod.splits)

lemma handlePoll_calls:
  assumes "handlePoll env r b w = (rep, b', w')"
  shows "serve_calls env b (EpPoll, r, rep) (b_store b')"
proof (cases "\<exists>q s. decode_pollRequest (r_Body r) = Some q \<and> pq_SessionID q \<noteq> '''' \<and>
    b_Get env (pq_SessionID q) w b = Inr s")
  case False
  then show ?thesis
    using assms(1)
    by (auto simp: handlePoll_def split: option.splits sum.splits if_splits intro: exchange_call.no_call)
next
  case True
  then obtain q s where q: "decode_pollRequest (r_Body r) = Some q" "pq_SessionID q \<noteq> ''''"
    "b_Get env (pq_SessionID q) w b = Inr s" by blast
  obtain now w1 where t: "time_Now w = (now, w1)" by fastforce
  obtain out s1 where p: "poll (pq_CodeVerifier q) now (cfg_ArtifactTTL (b_cfg b)) s = (out, s1)" by fastforce
  show ?thesis
  proof (cases "out = PollPanic")
    case True
    then show ?thesis using assms(1) q t p by (auto simp: handlePoll_def Let_def intro: exchange_call.no_call)
  next
    case False
    then show ?thesis
      using handlePoll_polled [OF assms q t p] p q(1,3)
      by (intro step_calls [where s = s and s' = s1 and ob = "ObsPoll out" and w = w1 and v = w and
            sid = "pq_SessionID q" and op = "OpPoll (pq_CodeVerifier q) now (cfg_ArtifactTTL (b_cfg b))"]) auto
  qed
qed

lemma serve_makes_calls:
  assumes "identity_provider (e_idp env)" and "serve env ep r b w = (rep, b', w')"
    and "get_ids (e_store env) (b_store b)"
  shows "serve_calls env b (ep, r, rep) (b_store b')"
proof (cases ep)
  case EpHealthz
  then show ?thesis using assms
    by (auto simp: reply_artifact_def reply_start_def intro: exchange_call.no_call)
qed (use assms handleStart_calls handleVerify_calls handleIdPResponse_calls handleApprove_calls
      handlePoll_calls in auto)

section \<open>The effect of an exchange on a store that does not fail\<close>

text \<open>
  The effect of one exchange on the content \<open>m\<close> of the store: none, a new session, or one operation
  on one session.
\<close>

inductive exchange_effect ::
  "idp_ops \<Rightarrow> unicode_tables \<Rightarrow> normalizer option \<Rightarrow> (string \<rightharpoonup> session) \<Rightarrow> exchange
     \<Rightarrow> (string \<rightharpoonup> session) \<Rightarrow> bool"
  for I u nz m where
  quiet: "reply_artifact rep = None \<Longrightarrow> reply_start rep = None \<Longrightarrow>
    exchange_effect I u nz m (ep, r, rep) m"
| started: "newSession p ttl iv w = (Some s0, w') \<Longrightarrow> explains_start x s0 \<Longrightarrow>
    exchange_effect I u nz m x (m(s_ID s0 \<mapsto> s0))"
| stepped: "m sid = Some s \<Longrightarrow> sess_step u nz op s = (ob, s') \<Longrightarrow> explains I x sid op ob \<Longrightarrow>
    reply_start (snd (snd x)) = None \<Longrightarrow>
    fst x \<noteq> EpPoll \<longrightarrow> reply_artifact (snd (snd x)) = None \<Longrightarrow>
    exchange_effect I u nz m x (m(sid \<mapsto> s'))"

lemma effect_ids:
  assumes "exchange_effect I u nz m x m'" and "ids_ok m"
  shows "ids_ok m'"
  using assms
proof cases
  case (stepped sid s op ob s')
  then show ?thesis
    using assms(2) sess_step_same_request [OF stepped(3)] by (auto simp: ids_ok_def same_request_def)
qed (auto simp: ids_ok_def)

context broker_env
begin

abbreviation content :: "('st, 'l) broker \<Rightarrow> string \<rightharpoonup> session" where
  "content b \<equiv> stored (b_store b)"

abbreviation effect :: "('st, 'l) broker \<Rightarrow> exchange \<Rightarrow> (string \<rightharpoonup> session) \<Rightarrow> bool" where
  "effect b \<equiv> exchange_effect (e_idp env) (e_unicode env) (cfg_IdentityNormalizer (b_cfg b)) (content b)"

lemma b_Get_content: "b_Get env sid w b = Inr s \<longleftrightarrow> content b sid = Some s"
  by (simp add: b_Get_def get_iff)

lemma b_Update_content:
  "content b (s_ID s) = Some s' \<Longrightarrow>
     content (snd (b_Update env s w b)) = (content b)(s_ID s \<mapsto> s) \<and> fst (b_Update env s w b) = None"
  using update_stored [OF domI, of "b_store b" s s' "instant w"]
    update_total [OF domI, of "b_store b" s s' "instant w"]
  by (auto simp: b_Update_def split: prod.splits)

lemma b_Create_content:
  "content (snd (b_Create env s w b)) = (content b)(s_ID s \<mapsto> s) \<and> fst (b_Create env s w b) = None"
  using create_stored [of s "instant w" "b_store b"] create_total [of s "instant w" "b_store b"]
  by (auto simp: b_Create_def split: prod.splits)

text \<open>On such a store the calls have the effect they ask for.\<close>

lemma call_effect:
  assumes "exchange_call I u nz (e_store env) st x st'" and "ids_ok (stored st)"
  shows "exchange_effect I u nz (stored st) x (stored st')"
  using assms(1)
proof (cases rule: exchange_call.cases)
  case (no_call rep ep r)
  then show ?thesis by (auto intro: exchange_effect.quiet)
next
  case (creates p ttl iv w s0 w' t e)
  have "e = None" using create_total [of s0 t st] creates(2) by simp
  moreover have "stored st' = (stored st)(s_ID s0 \<mapsto> s0)" using create_stored [of s0 t st] creates(2) by simp
  ultimately show ?thesis using creates(1,3) by (auto intro: exchange_effect.started)
next
  case (updates sid t s op ob s' t' e)
  have s: "stored st sid = Some s" using updates(1) by (simp add: get_iff)
  then have "s_ID s' = sid"
    using sess_step_same_request [OF updates(2)] assms(2) by (auto simp: ids_ok_def same_request_def)
  then have "stored st' = (stored st)(sid \<mapsto> s')"
    using s updates(6) update_stored [OF domI, of st s' s t'] by simp
  then show ?thesis using s updates(2-5) by (auto intro: exchange_effect.stepped)
qed

lemma serve_effect:
  assumes "serve env ep r b w = (rep, b', w')" and "ids_ok (content b)"
  shows "effect b (ep, r, rep) (content b')"
proof -
  have "get_ids (e_store env) (b_store b)" using assms(2) by (auto simp: get_ids_def ids_ok_def get_iff)
  then have "serve_calls env b (ep, r, rep) (b_store b')"
    by (rule serve_makes_calls [OF identity_provider_axioms assms(1)])
  then show ?thesis using assms(2) by (rule call_effect)
qed

end

end
