(* ===== verification/Broker_Props.thy ===== *)
theory Broker_Props
  imports Broker_Sim
begin

text \<open>
  Whole runs of a broker: any requests at any endpoints, one after the other, with sessions dropped
  from the store at any time. The history of a session (theory \<open>Session_Props\<close>) is recovered from
  the exchanges of the run, so the properties of histories become properties of HTTP traffic: what
  must have been sent, and answered, before an artifact leaves the broker.
\<close>

text \<open>The hypotheses on a broker's surroundings, for a broker on the in-memory store.\<close>

lemma memory_broker_env:
  assumes "identity_provider (e_idp env)" and "e_store env = Memory"
  shows "broker_env env m_sessions"
  using assms mem.reliable_store_axioms by (simp add: broker_env_def)

section \<open>Runs\<close>

text \<open>The exchanges of a run are listed newest first. The world of each request is arbitrary.\<close>

inductive broker_reach ::
  "('st, 'l) env \<Rightarrow> ('st \<Rightarrow> string \<rightharpoonup> session) \<Rightarrow> config \<Rightarrow> exchange list \<Rightarrow> ('st, 'l) broker \<Rightarrow> bool"
  for env stored cfg where
  init: "stored st = Map.empty \<Longrightarrow> broker_reach env stored cfg [] (New env cfg st)"
| served: "broker_reach env stored cfg tr b \<Longrightarrow> serve env ep r b w = (rep, b', w') \<Longrightarrow>
    broker_reach env stored cfg ((ep, r, rep) # tr) b'"
| evicted: "broker_reach env stored cfg tr b \<Longrightarrow> stored st' \<subseteq>\<^sub>m stored (b_store b) \<Longrightarrow>
    broker_reach env stored cfg tr (b\<lparr>b_store := st'\<rparr>)"

text \<open>The ids handed out by \<open>/auth/start\<close>, and the polls that carried an artifact out.\<close>

fun started_ids :: "exchange list \<Rightarrow> string list" where
  "started_ids [] = []"
| "started_ids ((ep, r, rep) # tr) =
     (case reply_start rep of None \<Rightarrow> started_ids tr | Some sr \<Rightarrow> sr_SessionID sr # started_ids tr)"

fun artifact_for :: "string \<Rightarrow> exchange \<Rightarrow> bool" where
  "artifact_for sid (ep, r, rep) \<longleftrightarrow>
     ep = EpPoll \<and> reply_artifact rep \<noteq> None \<and>
     (case decode_pollRequest (r_Body r) of None \<Rightarrow> False | Some q \<Rightarrow> pq_SessionID q = sid)"

section \<open>The history of a session in a run\<close>

inductive session_trace :: "idp_ops \<Rightarrow> exchange list \<Rightarrow> string \<Rightarrow> session \<Rightarrow> history \<Rightarrow> bool"
  for I where
  begun: "explains_start x s0 \<Longrightarrow> list_all (\<lambda>y. \<not> artifact_for (s_ID s0) y) tr \<Longrightarrow>
    session_trace I (x # tr) (s_ID s0) s0 []"
| act: "session_trace I tr sid s0 h \<Longrightarrow> explains I x sid op ob \<Longrightarrow>
    session_trace I (x # tr) sid s0 ((op, ob) # h)"
| skip: "session_trace I tr sid s0 h \<Longrightarrow> \<not> artifact_for sid x \<Longrightarrow> session_trace I (x # tr) sid s0 h"

lemma explains_release:
  assumes "explains I x sid op ob" and "artifact_for sid' x"
  shows "sid' = sid \<and> is_release (op, ob)"
proof -
  obtain ep r rep where x: "x = (ep, r, rep)" by (metis prod_cases3)
  show ?thesis using assms unfolding x by (cases op) (auto simp: is_release_def)
qed

lemma explains_start_no_artifact: "explains_start x s0 \<Longrightarrow> \<not> artifact_for sid x"
  by (cases x) (auto simp: explains_start_def)

lemma session_trace_count:
  "session_trace I tr sid s0 h \<Longrightarrow> length (filter (artifact_for sid) tr) \<le> length (filter is_release h)"
proof (induction rule: session_trace.induct)
  case (begun x s0 tr)
  then show ?case by (auto simp: explains_start_no_artifact list_all_iff)
next
  case (act tr sid s0 h x op ob)
  then show ?case using explains_release by (auto split: if_splits)
qed simp

lemma session_trace_split:
  assumes "session_trace I tr sid s0 (h1 @ (op, ob) # h2)"
  shows "\<exists>t1 x t2. tr = t1 @ x # t2 \<and> explains I x sid op ob \<and> session_trace I t2 sid s0 h2"
  using assms
proof (induction tr sid s0 "h1 @ (op, ob) # h2" arbitrary: h1 rule: session_trace.induct)
  case (act tr sid s0 h x op' ob')
  show ?case
  proof (cases h1)
    case Nil
    then show ?thesis using act.hyps(1,3,4) by (metis append_Nil list.inject prod.inject)
  next
    case (Cons e h1')
    then show ?thesis using act.hyps(2) [of h1'] act.hyps(4) by (metis append_Cons list.inject)
  qed
next
  case (skip tr sid s0 x)
  then show ?case by (metis append_Cons)
qed simp

lemma session_trace_start:
  "session_trace I tr sid s0 h \<Longrightarrow> s_ID s0 = sid \<and> (\<exists>x \<in> set tr. explains_start x s0)"
  by (induction rule: session_trace.induct) auto

text \<open>
  The invariant of runs in which no id is handed out twice: every stored session was handed out,
  and every id handed out has a history that fits the traffic and leads to what is stored, if it
  still is.
\<close>

definition has_history ::
  "idp_ops \<Rightarrow> unicode_tables \<Rightarrow> normalizer option \<Rightarrow> exchange list \<Rightarrow> (string \<rightharpoonup> session) \<Rightarrow> string \<Rightarrow> bool" where
  "has_history I u nz tr m sid \<longleftrightarrow>
     (\<exists>p ttl iv w w' s0 h s. newSession p ttl iv w = (Some s0, w') \<and> sess_reach u nz s0 h s \<and>
        session_trace I tr sid s0 h \<and> (m sid = None \<or> m sid = Some s))"

definition run_inv ::
  "idp_ops \<Rightarrow> unicode_tables \<Rightarrow> normalizer option \<Rightarrow> exchange list \<Rightarrow> (string \<rightharpoonup> session) \<Rightarrow> bool" where
  "run_inv I u nz tr m \<longleftrightarrow> ids_ok m \<and> dom m \<subseteq> set (started_ids tr) \<and>
     (\<forall>x \<in> set tr. \<forall>sid. artifact_for sid x \<longrightarrow> sid \<in> set (started_ids tr)) \<and>
     (\<forall>sid \<in> set (started_ids tr). has_history I u nz tr m sid)"

lemma has_history_skip:
  assumes "has_history I u nz tr m sid" and "\<not> artifact_for sid x" and "m' sid = m sid"
  shows "has_history I u nz (x # tr) m' sid"
  using assms unfolding has_history_def by (metis session_trace.skip)

lemma run_inv_start:
  assumes inv: "run_inv I u nz tr m" and new: "newSession p ttl iv w = (Some s0, w')"
    and x: "explains_start x s0" and fresh: "s_ID s0 \<notin> set (started_ids tr)"
  shows "run_inv I u nz (x # tr) (m(s_ID s0 \<mapsto> s0))"
proof -
  obtain ep r rep sr where ep: "x = (ep, r, rep)" "reply_start rep = Some sr" "sr_SessionID sr = s_ID s0"
    using x by (cases x) (auto simp: explains_start_def)
  have ids: "started_ids (x # tr) = s_ID s0 # started_ids tr" using ep by simp
  have na: "\<not> artifact_for sid x" for sid using x by (rule explains_start_no_artifact)
  have "session_trace I (x # tr) (s_ID s0) s0 []"
    using x inv fresh by (intro session_trace.begun) (auto simp: run_inv_def list_all_iff)
  then have "has_history I u nz (x # tr) (m(s_ID s0 \<mapsto> s0)) (s_ID s0)"
    unfolding has_history_def using new sess_reach.start by (metis fun_upd_same)
  moreover have "has_history I u nz (x # tr) (m(s_ID s0 \<mapsto> s0)) sid"
    if "sid \<in> set (started_ids tr)" for sid
    using that inv fresh na by (intro has_history_skip [of _ _ _ _ m]) (auto simp: run_inv_def)
  ultimately show ?thesis using inv na unfolding run_inv_def ids ids_ok_def by auto
qed

lemma run_inv_step:
  assumes inv: "run_inv I u nz tr m" and s: "m sid = Some s"
    and st: "sess_step u nz op s = (ob, s')" and x: "explains I x sid op ob"
    and ns: "reply_start (snd (snd x)) = None"
  shows "run_inv I u nz (x # tr) (m(sid \<mapsto> s'))"
proof -
  have ids: "started_ids (x # tr) = started_ids tr" using ns by (cases x) simp
  have sid: "sid \<in> set (started_ids tr)" using inv s by (auto simp: run_inv_def)
  obtain p ttl iv w w' s0 h where h: "newSession p ttl iv w = (Some s0, w')" "sess_reach u nz s0 h s"
    "session_trace I tr sid s0 h"
    using inv sid s unfolding run_inv_def has_history_def by auto
  have "has_history I u nz (x # tr) (m(sid \<mapsto> s')) sid"
    unfolding has_history_def
    using h(1) sess_reach.step [OF h(2) st] session_trace.act [OF h(3) x] by (metis fun_upd_same)
  moreover have "has_history I u nz (x # tr) (m(sid \<mapsto> s')) sid2"
    if "sid2 \<in> set (started_ids tr)" "sid2 \<noteq> sid" for sid2
    using that inv explains_release [OF x] by (intro has_history_skip [of _ _ _ _ m]) (auto simp: run_inv_def)
  moreover have "s_ID s' = sid"
    using sess_step_same_request [OF st] inv s by (auto simp: run_inv_def ids_ok_def same_request_def)
  ultimately show ?thesis
    using inv sid explains_release [OF x] unfolding run_inv_def ids ids_ok_def by auto
qed

lemma run_inv_effect:
  assumes "run_inv I u nz tr m" and "exchange_effect I u nz m x m'" and "distinct (started_ids (x # tr))"
  shows "run_inv I u nz (x # tr) m'"
  using assms(2)
proof (cases rule: exchange_effect.cases)
  case (quiet rep ep r)
  then have "started_ids (x # tr) = started_ids tr" "\<And>sid. \<not> artifact_for sid x" by simp_all
  then show ?thesis
    using assms(1) quiet has_history_skip [of I u nz tr m _ x m'] unfolding run_inv_def by auto
next
  case (started p ttl iv w s0 w')
  moreover have "s_ID s0 \<notin> set (started_ids tr)"
    using started(3) assms(3) by (cases x) (auto simp: explains_start_def)
  ultimately show ?thesis using run_inv_start [OF assms(1)] by blast
next
  case (stepped sid s op ob s')
  then show ?thesis using run_inv_step [OF assms(1)] by blast
qed

section \<open>The exchanges of a login\<close>

text \<open>
  A start that was answered with the session \<open>sid\<close> and the user code; a return from the identity
  provider, in the browser of the session, that verified \<open>ident\<close> and was answered with the approval
  cookie \<open>secret\<close>; an approval of the session with the code, from a browser whose approval cookie
  hashes like \<open>secret\<close>.
\<close>

definition start_exchange :: "string \<Rightarrow> string \<Rightarrow> string \<Rightarrow> string \<Rightarrow> exchange \<Rightarrow> bool" where
  "start_exchange sid hint challenge code x \<longleftrightarrow>
     (\<exists>r rep q sr. x = (EpStart, r, rep) \<and> decode_startRequest (r_Body r) = Some q \<and>
        sq_LoginHint q = hint \<and> sq_CodeChallenge q = challenge \<and>
        reply_start rep = Some sr \<and> sr_SessionID sr = sid \<and> sr_UserCode sr = code)"

definition login_exchange :: "idp_ops \<Rightarrow> string \<Rightarrow> identity \<Rightarrow> string \<Rightarrow> exchange \<Rightarrow> bool" where
  "login_exchange I sid ident secret x \<longleftrightarrow>
     (\<exists>r rep sess w w'. x = (EpIdPResponse, r, rep) \<and> readSessionCookie r = Some sid \<and>
        s_ID sess = sid \<and> idp_CompleteLogin I r sess w = (Inr ident, w') \<and>
        (approvalCookieName, secret) \<in> set (reply_cookies rep))"

definition approval_exchange :: "unicode_tables \<Rightarrow> string \<Rightarrow> string \<Rightarrow> string \<Rightarrow> exchange \<Rightarrow> bool" where
  "approval_exchange u sid code secret x \<longleftrightarrow>
     (\<exists>r rep. x = (EpApprove, r, rep) \<and> readSessionCookie r = Some sid \<and>
        r_FormValue r ''decision'' = ''approve'' \<and>
        codesEqual u (r_FormValue r ''user_code'') code \<and>
        hashBinding (presented_secret r) = hashBinding secret)"

lemma explains_start_exchange:
  "explains_start x s0 \<Longrightarrow> start_exchange (s_ID s0) (s_LoginHint s0) (s_CodeChallenge s0) (s_UserCode s0) x"
  by (cases x) (auto simp: explains_start_def start_exchange_def)

lemma explains_bind_exchange:
  assumes "explains I x sid (OpBind ident now h w) (ObsBind None)"
  obtains secret where "h = hashBinding secret" "login_exchange I sid ident secret x"
  using assms by (cases x) (auto simp: login_exchange_def)

lemma explains_approve_exchange:
  assumes "explains I x sid (OpApprove c True now p) ob" and "codesEqual u c code"
    and "hashBinding p = hashBinding secret"
  shows "approval_exchange u sid code secret x"
  using assms by (cases x) (auto simp: approval_exchange_def)

text \<open>An approved session was started, logged into and approved in the run, in this order.\<close>

lemma approved_session_exchanges:
  assumes "newSession p ttl iv w = (Some s0, w')" and "sess_reach u nz s0 h s"
    and "session_trace I tr sid s0 h" and "s_State s = StateApproved"
  obtains t1 x2 t2 x1 x0 ident secret where "tr = t1 @ x2 # t2"
    "approval_exchange u sid (s_UserCode s) secret x2"
    "x1 \<in> set t2" "login_exchange I sid ident secret x1" "s_Identity s = Some ident"
    "normalizer_or_default u nz (id_Value ident) = normalizer_or_default u nz (s_LoginHint s)"
    "x0 \<in> set tr" "start_exchange sid (s_LoginHint s) (s_CodeChallenge s) (s_UserCode s) x0"
proof -
  have "approved_in u nz h s" using reach_invariants [OF assms(1,2)] assms(4) by (simp add: state_inv_def)
  then obtain h1 h2 c now q where h: "h = h1 @ (OpApprove c True now q, ObsApprove None) # h2"
    "bound_in u nz h2 s" "codesEqual u c (s_UserCode s)" "hashBinding q = s_ApprovalBindingHash s"
    unfolding approved_in_def by blast
  then obtain ident w1 where b: "s_Identity s = Some ident"
    "(OpBind ident (s_IdentityAt s) (s_ApprovalBindingHash s) w1, ObsBind None) \<in> set h2"
    "normalizer_or_default u nz (id_Value ident) = normalizer_or_default u nz (s_LoginHint s)"
    unfolding bound_in_def by blast
  obtain t1 x2 t2 where t: "tr = t1 @ x2 # t2" "explains I x2 sid (OpApprove c True now q) (ObsApprove None)"
    "session_trace I t2 sid s0 h2"
    using session_trace_split assms(3) h(1) by blast
  obtain x1 where x1: "x1 \<in> set t2"
    "explains I x1 sid (OpBind ident (s_IdentityAt s) (s_ApprovalBindingHash s) w1) (ObsBind None)"
    using session_trace_split t(3) split_list [OF b(2)] by (metis in_set_conv_decomp)
  obtain secret where sec: "s_ApprovalBindingHash s = hashBinding secret" "login_exchange I sid ident secret x1"
    using x1(2) by (rule explains_bind_exchange)
  obtain x0 where x0: "x0 \<in> set tr" "explains_start x0 s0" "s_ID s0 = sid"
    using session_trace_start [OF assms(3)] by blast
  have "start_exchange sid (s_LoginHint s) (s_CodeChallenge s) (s_UserCode s) x0"
    using explains_start_exchange [OF x0(2)] x0(3) sess_reach_same_request [OF assms(2)]
    by (simp add: same_request_def)
  moreover have "approval_exchange u sid (s_UserCode s) secret x2"
    using explains_approve_exchange [OF t(2) h(3)] h(4) sec(1) by simp
  ultimately show ?thesis using that t(1) x1(1) sec(2) b(1,3) x0(1) by blast
qed

section \<open>Runs of a broker\<close>

lemma New_simps [simp]: "b_store (New env cfg st) = st" "b_cfg (New env cfg st) = applyDefaults cfg"
  by (simp_all add: New_def Let_def)

lemma applyDefaults_normalizer [simp]:
  "cfg_IdentityNormalizer (applyDefaults cfg) = cfg_IdentityNormalizer cfg"
  by (simp add: applyDefaults_def Let_def)

lemma handleStart_cfg: "handleStart env r b w = (rep, b', w') \<Longrightarrow> b_cfg b' = b_cfg b"
  using store_call_cfg(2)
  by (fastforce simp: handleStart_def start_session_def Let_def split: option.splits prod.splits if_splits
      dest: arg_cong [where f = "\<lambda>x. b_cfg (snd x)"])

lemma serve_cfg:
  assumes "serve env ep r b w = (rep, b', w')"
  shows "b_cfg b' = b_cfg b"
proof (cases ep)
  case EpStart
  then show ?thesis using assms handleStart_cfg by simp
next
  case EpVerify
  then show ?thesis using assms store_call_cfg(1) [of env _ _ b]
    by (auto simp: handleVerify_def begin_login_def Let_def
        split: sum.splits prod.splits if_splits state.splits option.splits
        dest!: arg_cong [where f = "\<lambda>x. b_cfg (snd x)"])
next
  case EpIdPResponse
  then show ?thesis using assms
    by (auto simp: handleIdPResponse_def finish_login_def Let_def
        split: sum.splits prod.splits if_splits option.splits)
next
  case EpApprove
  then show ?thesis using assms
    by (auto simp: handleApprove_def approve_reply_def Let_def
        split: sum.splits prod.splits if_splits option.splits)
next
  case EpPoll
  then show ?thesis using assms
    by (auto simp: handlePoll_def poll_reply_def Let_def
        split: sum.splits prod.splits if_splits option.splits poll_outcome.splits)
qed (use assms in auto)

lemma started_ids_Cons: "distinct (started_ids (x # tr)) \<Longrightarrow> distinct (started_ids tr)"
  by (cases x) (auto split: option.splits)

lemma run_inv_evict:
  assumes "run_inv I u nz tr m" and "m' \<subseteq>\<^sub>m m"
  shows "run_inv I u nz tr m'"
proof -
  have sub: "m' sid = None \<or> m' sid = m sid" for sid using assms(2) by (auto simp: map_le_def dom_def)
  then have "has_history I u nz tr m sid \<Longrightarrow> has_history I u nz tr m' sid" for sid
    unfolding has_history_def by metis
  moreover have "ids_ok m'" using assms sub unfolding run_inv_def ids_ok_def by (metis option.distinct(1))
  moreover have "dom m' \<subseteq> dom m" using assms(2) by (rule map_le_implies_dom_le)
  ultimately show ?thesis using assms(1) unfolding run_inv_def by auto
qed

context broker_env
begin

lemma broker_reach_inv:
  assumes "broker_reach env stored cfg tr b"
  shows "b_cfg b = applyDefaults cfg \<and>
    (distinct (started_ids tr) \<longrightarrow>
       run_inv (e_idp env) (e_unicode env) (cfg_IdentityNormalizer cfg) tr (stored (b_store b)))"
  using assms
proof (induction rule: broker_reach.induct)
  case (init st)
  then show ?case by (simp add: run_inv_def ids_ok_def)
next
  case (served tr b ep r w rep b' w')
  show ?case
  proof (intro conjI impI)
    show "b_cfg b' = applyDefaults cfg" using served serve_cfg by metis
    assume d: "distinct (started_ids ((ep, r, rep) # tr))"
    then have inv: "run_inv (e_idp env) (e_unicode env) (cfg_IdentityNormalizer cfg) tr (content b)"
      using served.IH started_ids_Cons by blast
    moreover have "effect b (ep, r, rep) (content b')"
      using served.hyps(2) inv by (intro serve_effect) (auto simp: run_inv_def)
    ultimately show "run_inv (e_idp env) (e_unicode env) (cfg_IdentityNormalizer cfg) ((ep, r, rep) # tr) (content b')"
      using served.IH d by (intro run_inv_effect) auto
  qed
next
  case (evicted tr b st')
  then show ?case using run_inv_evict by auto
qed

lemma broker_reach_ids: "broker_reach env stored cfg tr b \<Longrightarrow> ids_ok (content b)"
proof (induction rule: broker_reach.induct)
  case (served tr b ep r w rep b' w')
  then show ?case using effect_ids [OF serve_effect] by blast
next
  case (evicted tr b st')
  have "s_ID s = sid" if "stored st' sid = Some s" for sid s
    using evicted that by (metis (no_types, lifting) domI ids_ok_def map_le_def)
  then show ?case by (simp add: ids_ok_def)
qed (simp add: ids_ok_def)

lemma single_use:
  assumes "broker_reach env stored cfg tr b" and "distinct (started_ids tr)"
  shows "length (filter (artifact_for sid) tr) \<le> 1"
proof (cases "sid \<in> set (started_ids tr)")
  case True
  then have "has_history (e_idp env) (e_unicode env) (cfg_IdentityNormalizer cfg) tr (content b) sid"
    using broker_reach_inv [OF assms(1)] assms(2) by (auto simp: run_inv_def)
  then obtain p ttl iv w w' s0 h s where h: "newSession p ttl iv w = (Some s0, w')"
    "sess_reach (e_unicode env) (cfg_IdentityNormalizer cfg) s0 h s" "session_trace (e_idp env) tr sid s0 h"
    unfolding has_history_def by blast
  then have "length (filter is_release h) \<le> 1"
    using reach_invariants [OF h(1,2)] by (auto simp: count_inv_def split: if_splits)
  then show ?thesis using session_trace_count [OF h(3)] by linarith
next
  case False
  then have "filter (artifact_for sid) tr = []"
    using broker_reach_inv [OF assms(1)] assms(2) by (auto simp: run_inv_def filter_empty_conv)
  then show ?thesis by simp
qed

lemma release_exchanges:
  assumes "broker_reach env stored cfg tr b" and "distinct (started_ids tr)"
    and "serve env EpPoll r b w = (rep, b', w')" and "reply_artifact rep = Some a"
  shows "\<exists>sid v hint code secret ident t1 x2 t2 x1 x0.
    decode_pollRequest (r_Body r) = Some \<lparr>pq_SessionID = sid, pq_CodeVerifier = v\<rparr> \<and> v \<noteq> '''' \<and>
    x0 \<in> set tr \<and> start_exchange sid hint (S256 v) code x0 \<and>
    tr = t1 @ x2 # t2 \<and> approval_exchange (e_unicode env) sid code secret x2 \<and>
    x1 \<in> set t2 \<and> login_exchange (e_idp env) sid ident secret x1 \<and>
    normalizer_or_default (e_unicode env) (cfg_IdentityNormalizer cfg) (id_Value ident) =
      normalizer_or_default (e_unicode env) (cfg_IdentityNormalizer cfg) hint \<and>
    a_Identity a = id_Value ident \<and> a_Subject a = id_Subject ident \<and> a_Claims a = id_Claims ident"
proof -
  note inv = broker_reach_inv [OF assms(1)]
  have ri: "run_inv (e_idp env) (e_unicode env) (cfg_IdentityNormalizer cfg) tr (content b)"
    using inv assms(2) by blast
  have "effect b (EpPoll, r, rep) (content b')"
    using assms(3) ri by (intro serve_effect) (auto simp: run_inv_def)
  then show ?thesis
  proof (cases rule: exchange_effect.cases)
    case (stepped sid s op ob s')
    obtain v now ttl where op: "op = OpPoll v now ttl" using stepped(4) by (cases op) auto
    then obtain res where res: "ob = ObsPoll res" "released res = Some a"
      "decode_pollRequest (r_Body r) = Some \<lparr>pq_SessionID = sid, pq_CodeVerifier = v\<rparr>"
      using stepped(4) assms(4) by auto
    have "poll v now ttl s = (res, s')" using stepped(3) op res(1) by (auto split: prod.splits)
    then obtain ident where rel: "s_State s = StateApproved" "verifyClientPKCE v (s_CodeChallenge s)"
      "s_Identity s = Some ident" "a_Identity a = id_Value ident" "a_Subject a = id_Subject ident"
      "a_Claims a = id_Claims ident"
      using res(2) by (auto elim!: released_poll)
    have "sid \<in> set (started_ids tr)" using ri stepped(2) by (auto simp: run_inv_def)
    then obtain p ttl0 iv w0 w0' s0 h where h: "newSession p ttl0 iv w0 = (Some s0, w0')"
      "sess_reach (e_unicode env) (cfg_IdentityNormalizer cfg) s0 h s" "session_trace (e_idp env) tr sid s0 h"
      using ri stepped(2) unfolding run_inv_def has_history_def by auto
    obtain t1 x2 t2 x1 x0 ident' secret where x: "tr = t1 @ x2 # t2"
      "approval_exchange (e_unicode env) sid (s_UserCode s) secret x2"
      "x1 \<in> set t2" "login_exchange (e_idp env) sid ident' secret x1" "s_Identity s = Some ident'"
      "normalizer_or_default (e_unicode env) (cfg_IdentityNormalizer cfg) (id_Value ident') =
       normalizer_or_default (e_unicode env) (cfg_IdentityNormalizer cfg) (s_LoginHint s)"
      "x0 \<in> set tr" "start_exchange sid (s_LoginHint s) (s_CodeChallenge s) (s_UserCode s) x0"
      by (rule approved_session_exchanges [OF h rel(1)])
    have "ident' = ident" "s_CodeChallenge s = S256 v" "v \<noteq> ''''"
      using x(5) rel(2,3) by (simp_all add: verifyClientPKCE_iff)
    then show ?thesis using x res(3) rel(4-6) by metis
  qed (use assms(4) in \<open>auto simp: explains_start_def\<close>)
qed

end

end
