(* ===== verification/Broker_Live.thy ===== *)
theory Broker_Live
  imports Broker_Props
begin

text \<open>
  The other direction: an honest login goes through. Each lemma takes one request of it and says what
  the handler answers and leaves in the store.
\<close>

section \<open>What the honest browser reads from the approval page\<close>

definition reply_csrf :: "reply \<Rightarrow> string option" where
  "reply_csrf rep =
     (case rep of Panicked \<Rightarrow> None
      | Reply x \<Rightarrow> (case rs_Body x of BodyApprove p \<Rightarrow> Some (ap_CSRFToken p) | _ \<Rightarrow> None))"

definition no_rand_failure :: "world \<Rightarrow> bool" where
  "no_rand_failure w \<longleftrightarrow> (\<forall>i. \<not> w_rfail w i)"

lemma random_hex_ok:
  assumes "no_rand_failure w"
  obtains t w' where "random_hex n w = (Some t, w')" "no_rand_failure w'"
  using assms by (simp add: random_hex_def rand_Read_def no_rand_failure_def)

section \<open>What happens in between\<close>

text \<open>The session a request is about: the one of its link, its cookie or its body.\<close>

fun names_session :: "endpoint \<Rightarrow> request \<Rightarrow> string \<Rightarrow> bool" where
  "names_session EpVerify r sid \<longleftrightarrow> r_PathID r = sid"
| "names_session EpIdPResponse r sid \<longleftrightarrow> readSessionCookie r = Some sid"
| "names_session EpApprove r sid \<longleftrightarrow> readSessionCookie r = Some sid"
| "names_session EpPoll r sid \<longleftrightarrow> (\<exists>v. decode_pollRequest (r_Body r) = Some \<lparr>pq_SessionID = sid, pq_CodeVerifier = v\<rparr>)"
| "names_session _ r sid \<longleftrightarrow> False"

text \<open>
  What may happen between two steps of a login: requests about other sessions, at any endpoint and any time; polls of
  this session, with any verifier, before its deadline and without an artifact in the answer; and evictions of other
  sessions from the store.
\<close>

inductive meanwhile ::
  "('st, 'l) env \<Rightarrow> ('st \<Rightarrow> string \<rightharpoonup> session) \<Rightarrow> string \<Rightarrow> time \<Rightarrow> ('st, 'l) broker \<Rightarrow> ('st, 'l) broker \<Rightarrow> bool"
  for env stored sid deadline b where
  none: "meanwhile env stored sid deadline b b"
| other: "meanwhile env stored sid deadline b b1 \<Longrightarrow> serve env ep r b1 w = (rep, b2, w') \<Longrightarrow>
    \<not> names_session ep r sid \<Longrightarrow> (\<And>sr. reply_start rep = Some sr \<Longrightarrow> sr_SessionID sr \<noteq> sid) \<Longrightarrow>
    meanwhile env stored sid deadline b b2"
| polled: "meanwhile env stored sid deadline b b1 \<Longrightarrow> serve env EpPoll r b1 w = (rep, b2, w') \<Longrightarrow>
    instant w \<le> deadline \<Longrightarrow> reply_artifact rep = None \<Longrightarrow> meanwhile env stored sid deadline b b2"
| evicted: "meanwhile env stored sid deadline b b1 \<Longrightarrow> stored st' \<subseteq>\<^sub>m stored (b_store b1) \<Longrightarrow>
    stored st' sid = stored (b_store b1) sid \<Longrightarrow> meanwhile env stored sid deadline b (b1\<lparr>b_store := st'\<rparr>)"

text \<open>A session that a poll does not end: not decided, or approved with its artifact not yet fetched.\<close>

definition open_session :: "session \<Rightarrow> bool" where
  "open_session s \<longleftrightarrow> s_State s = StatePending \<or> s_State s = StateAwaitingApproval \<or>
     s_State s = StateApproved \<and> \<not> s_Consumed s \<and> s_Identity s \<noteq> None"

lemma explains_names: "explains I (ep, r, rep) sid op ob \<Longrightarrow> names_session ep r sid"
  by (cases op) auto

lemma poll_open:
  assumes "poll v now ttl s = (out, s')" and "open_session s" and "now \<le> s_ExpiresAt s" and "released out = None"
  shows "\<exists>t. s' = s\<lparr>s_LastPollAt := t\<rparr>"
  using assms(1)
proof (cases rule: poll_cases)
  case expired
  then show ?thesis using assms(2,3) by (auto simp: open_session_def)
next
  case (release ident)
  then show ?thesis using assms(4) by (simp add: released_def)
next
  case panic
  then show ?thesis using assms(2) by (simp add: open_session_def)
next
  case slow_down
  then show ?thesis by (intro exI [of _ "s_LastPollAt s"]) simp
next
  case bad_verifier
  then show ?thesis by (intro exI [of _ "s_LastPollAt s"]) simp
next
  case replay
  then show ?thesis by (intro exI [of _ "s_LastPollAt s"]) simp
qed blast+

lemma poll_open_returns: "poll v now ttl s = (out, s') \<Longrightarrow> open_session s \<Longrightarrow> out \<noteq> PollPanic"
  by (erule poll_cases) (auto simp: open_session_def poll_status_def)

context broker_env
begin

lemma started_session:
  assumes "serve env EpStart r b w = (rep, b', w')" and "reply_start rep = Some sr"
    and "decode_startRequest (r_Body r) = Some q" and "ids_ok (content b)"
  obtains s0 where "content b' (sr_SessionID sr) = Some s0" "ids_ok (content b')" "s_ID s0 = sr_SessionID sr"
    "s_UserCode s0 = sr_UserCode sr" "s_LoginHint s0 = sq_LoginHint q"
    "s_CodeChallenge s0 = sq_CodeChallenge q" "s_State s0 = StatePending" "\<not> s_Consumed s0"
    "sr_SessionID sr \<noteq> ''''"
proof -
  have "effect b (EpStart, r, rep) (content b')" using assms(1,4) by (rule serve_effect)
  then show ?thesis
  proof (cases rule: exchange_effect.cases)
    case (started p ttl iv w0 s0 w0')
    have x: "s_ID s0 = sr_SessionID sr" "s_UserCode s0 = sr_UserCode sr" "s_LoginHint s0 = sq_LoginHint q"
      "s_CodeChallenge s0 = sq_CodeChallenge q"
      using started(3) assms(2,3) by (auto simp: explains_start_def)
    have "s_State s0 = StatePending" "\<not> s_Consumed s0" "length (s_ID s0) = 32"
      using started(2) by (blast elim: newSession_Some)+
    moreover from this(3) have "sr_SessionID sr \<noteq> ''''" using x(1) by auto
    ultimately show ?thesis using that [of s0] x started(1) assms(4) by (auto simp: ids_ok_def)
  qed (use assms(2) in auto)
qed

lemma verified_session:
  assumes "serve env EpVerify r b w = (rep, b', w')" and "content b (r_PathID r) = Some s"
    and "ids_ok (content b)" and "s_State s = StatePending" and "instant w \<le> s_ExpiresAt s"
    and "\<And>s w. \<exists>url s' w'. idp_BeginLogin (e_idp env) s w = (Inr url, s', w')"
  obtains pr st no ve rq where "content b' = (content b)(r_PathID r \<mapsto> begin_fields pr st no ve rq s)"
    "(sessionCookieName, r_PathID r) \<in> set (reply_cookies rep)"
proof -
  obtain now w1 where t: "time_Now w = (now, w1)" by fastforce
  have ex: "expireIfNeeded s now = (False, s)"
    using t assms(4,5)
    by (auto simp: time_Now_def instant_def expireIfNeeded_def isExpired_def time_After_def)
  obtain url s1 w2 where bl: "idp_BeginLogin (e_idp env) s w1 = (Inr url, s1, w2)"
    using assms(6) by blast
  obtain pr st no ve rq where s1: "s1 = begin_fields pr st no ve rq s" using begin_only [OF bl] by blast
  have sid: "s_ID s1 = r_PathID r" using begin_ID [OF bl] assms(2,3) by (auto simp: ids_ok_def)
  have g: "b_Get env (r_PathID r) w b = Inr s" using assms(2) by (simp add: b_Get_content)
  obtain e b1 where u: "b_Update env s1 w2 b = (e, b1)" by fastforce
  have c: "content b1 = (content b)(r_PathID r \<mapsto> s1)" "e = None"
    using b_Update_content [of b s1 s w2] u sid assms(2) by simp_all
  have "content b' = (content b)(r_PathID r \<mapsto> s1)"
    "(sessionCookieName, r_PathID r) \<in> set (reply_cookies rep)"
    using assms(1,4) t ex bl g u c sid
    by (auto simp: handleVerify_def begin_login_def reply_cookies_def with_cookies_def setSessionCookie_def Let_def)
  then show ?thesis using that s1 by blast
qed

lemma logged_in_session:
  assumes "serve env EpIdPResponse r b w = (rep, b', w')" and "readSessionCookie r = Some sid"
    and "content b sid = Some s" and "ids_ok (content b)" and "s_State s = StatePending"
    and "instant w \<le> s_ExpiresAt s"
    and "\<And>w. no_rand_failure w \<Longrightarrow>
      \<exists>w'. idp_CompleteLogin (e_idp env) r s w = (Inr ident, w') \<and> no_rand_failure w'"
    and "no_rand_failure w"
    and "normalizer_or_default (e_unicode env) (cfg_IdentityNormalizer (b_cfg b)) (id_Value ident) =
      normalizer_or_default (e_unicode env) (cfg_IdentityNormalizer (b_cfg b)) (s_LoginHint s)"
  obtains token secret where "token \<noteq> ''''" "secret \<noteq> ''''" "reply_csrf rep = Some token"
    "reply_cookies rep = [(approvalCookieName, secret)]"
    "content b' = (content b)(sid \<mapsto> s\<lparr>s_Identity := Some ident, s_IdentityAt := instant w,
       s_CSRFToken := token, s_ApprovalBindingHash := hashBinding secret, s_State := StateAwaitingApproval\<rparr>)"
proof -
  define now where "now = instant w"
  obtain w1 where t: "time_Now w = (now, w1)" by (auto simp: time_Now_def instant_def now_def)
  have ex: "expireIfNeeded s now = (False, s)"
    using assms(5,6) by (auto simp: now_def expireIfNeeded_def isExpired_def time_After_def)
  obtain w2 where cl: "idp_CompleteLogin (e_idp env) r s w1 = (Inr ident, w2)" "no_rand_failure w2"
    using assms(7) [of w1] assms(8) t by (auto simp: time_Now_def no_rand_failure_def)
  obtain secret w3 where sec: "newApprovalSecret w2 = (Some secret, w3)" "no_rand_failure w3"
    unfolding newApprovalSecret_def using random_hex_ok [OF cl(2), of 24] by blast
  obtain token w4 where tok: "newCSRFToken w3 = (Some token, w4)"
    unfolding newCSRFToken_def using random_hex_ok [OF sec(2), of 24] by blast
  define s1 where "s1 = s\<lparr>s_Identity := Some ident, s_IdentityAt := now, s_CSRFToken := token,
    s_ApprovalBindingHash := hashBinding secret, s_State := StateAwaitingApproval\<rparr>"
  have bi: "bindIdentity (e_unicode env) (cfg_IdentityNormalizer (b_cfg b)) ident now (hashBinding secret) s w3 =
      (None, s1, w4)"
    using ex assms(5,9) tok by (simp add: bindIdentity_def s1_def Let_def)
  have sid: "s_ID s1 = sid" using assms(3,4) by (auto simp: s1_def ids_ok_def)
  have g: "b_Get env sid w b = Inr s" using assms(3) by (simp add: b_Get_content)
  have "rep = Reply (with_cookies (setApprovalCookie r secret) (renderApprove s1 (cfg_BaseURL (b_cfg b))))"
    "b_store b' = b_store (snd (b_Update env s1 w4 b))"
    using assms(1,2,5) t ex cl(1) sec(1) bi g
    by (auto simp: handleIdPResponse_def finish_login_def Let_def)
  moreover have "content (snd (b_Update env s1 w4 b)) = (content b)(sid \<mapsto> s1)"
    using b_Update_content [of b s1 s w4] sid assms(3) by simp
  ultimately show ?thesis
    using that [of token secret] newCSRFToken_nonempty [OF tok] newApprovalSecret_nonempty [OF sec(1)]
    by (simp add: s1_def now_def reply_csrf_def reply_cookies_def with_cookies_def setApprovalCookie_def
        renderApprove_def Let_def)
qed

lemma approved_session:
  assumes "serve env EpApprove r b w = (rep, b', w')" and "readSessionCookie r = Some sid"
    and "content b sid = Some s" and "ids_ok (content b)" and "s_State s = StateAwaitingApproval"
    and "instant w \<le> s_ExpiresAt s" and "\<not> r_FormErr r"
    and "r_FormValue r ''csrf_token'' = s_CSRFToken s" and "s_CSRFToken s \<noteq> ''''"
    and "hashBinding (presented_secret r) = s_ApprovalBindingHash s"
    and "r_FormValue r ''decision'' = ''approve''" and "r_FormValue r ''user_code'' = s_UserCode s"
  shows "content b' = (content b)(sid \<mapsto> s\<lparr>s_State := StateApproved\<rparr>)"
proof -
  define now where "now = instant w"
  obtain w1 where t: "time_Now w = (now, w1)" by (auto simp: time_Now_def instant_def now_def)
  have ex: "expireIfNeeded s now = (False, s)"
    using assms(5,6) by (auto simp: now_def expireIfNeeded_def isExpired_def time_After_def)
  have ne: "s_ApprovalBindingHash s \<noteq> ''''" using assms(10) by (metis hashBinding_nonempty(1))
  have ap: "approve (e_unicode env) (s_UserCode s) True now (presented_secret r) s =
      (None, s\<lparr>s_State := StateApproved\<rparr>)"
    using ex assms(5,10) ne by (simp add: approve_def codesEqual_iff)
  have g: "b_Get env sid w b = Inr s" using assms(3) by (simp add: b_Get_content)
  have "b_store b' = b_store (snd (b_Update env (s\<lparr>s_State := StateApproved\<rparr>) w1 b))"
    using assms(1,2,7-9,11,12) t ap g
    by (auto simp: handleApprove_def constantTimeStringEqual_iff presented_secret_def [symmetric]
        approve_reply_def Let_def)
  then show ?thesis
    using b_Update_content [of b "s\<lparr>s_State := StateApproved\<rparr>" s w1] assms(3,4) by (simp add: ids_ok_def)
qed

lemma polled_session:
  assumes "serve env EpPoll r b w = (rep, b', w')"
    and "decode_pollRequest (r_Body r) = Some \<lparr>pq_SessionID = sid, pq_CodeVerifier = v\<rparr>"
    and "content b sid = Some s" and "sid \<noteq> ''''" and "s_State s = StateApproved" and "\<not> s_Consumed s"
    and "v \<noteq> ''''" and "s_CodeChallenge s = S256 v" and "s_Identity s = Some ident"
  shows "reply_artifact rep = Some \<lparr>a_Subject = id_Subject ident, a_Identity = id_Value ident,
    a_Claims = id_Claims ident, a_ApprovedAt = s_IdentityAt s,
    a_ExpiresAt = s_IdentityAt s + cfg_ArtifactTTL (b_cfg b)\<rparr>"
proof -
  obtain now w1 where t: "time_Now w = (now, w1)" by fastforce
  have "b_Get env sid w b = Inr s" using assms(3) by (simp add: b_Get_content)
  then show ?thesis
    using assms t
    by (auto simp: handlePoll_def poll_def expireIfNeeded_def verifyClientPKCE_iff poll_reply_def
        time_Add_def Let_def)
qed

lemma other_keeps:
  assumes "serve env ep r b w = (rep, b', w')" and "ids_ok (content b)" and "\<not> names_session ep r sid"
    and "\<And>sr. reply_start rep = Some sr \<Longrightarrow> sr_SessionID sr \<noteq> sid"
  shows "content b' sid = content b sid"
  using serve_effect [OF assms(1,2)]
proof (cases rule: exchange_effect.cases)
  case (started p ttl iv w0 s0 w0')
  then show ?thesis using assms(4) by (auto simp: explains_start_def)
next
  case (stepped sid' s op ob s')
  then have "sid' \<noteq> sid" using assms(3) explains_names [OF stepped(4)] by blast
  then show ?thesis using stepped(1) by simp
qed auto

lemma polled_keeps:
  assumes "serve env EpPoll r b w = (rep, b', w')" and "ids_ok (content b)" and "content b sid = Some s"
    and "open_session s" and "instant w \<le> s_ExpiresAt s" and "reply_artifact rep = None"
  shows "\<exists>t. content b' sid = Some (s\<lparr>s_LastPollAt := t\<rparr>)"
proof (cases "names_session EpPoll r sid \<and> sid \<noteq> ''''")
  case True
  then obtain q where q: "decode_pollRequest (r_Body r) = Some q" "pq_SessionID q = sid" by auto
  obtain w1 where t: "time_Now w = (instant w, w1)" by (simp add: time_Now_def instant_def)
  obtain out s' where p: "poll (pq_CodeVerifier q) (instant w) (cfg_ArtifactTTL (b_cfg b)) s = (out, s')" by fastforce
  have g: "b_Get env (pq_SessionID q) w b = Inr s" using assms(3) q(2) by (simp add: b_Get_content)
  have "b_store b' = b_store (snd (b_Update env s' w1 b))" "released out = None"
    using handlePoll_polled [OF _ q(1) _ g t p poll_open_returns [OF p assms(4)], of rep b' w'] True q(2) assms(1,6)
    by simp_all
  moreover obtain lp where lp: "s' = s\<lparr>s_LastPollAt := lp\<rparr>" using poll_open [OF p assms(4,5)] calculation(2) by blast
  moreover have "s_ID s' = sid" using assms(2,3) lp by (simp add: ids_ok_def)
  ultimately show ?thesis using b_Update_content [of b s' s w1] assms(3) by auto
next
  case False
  have "s = s\<lparr>s_LastPollAt := s_LastPollAt s\<rparr>" by simp
  moreover have "content b' sid = content b sid"
  proof (cases "names_session EpPoll r sid")
    case True
    with False have "sid = ''''" by blast
    with True show ?thesis using assms(1) by (auto simp: handlePoll_def)
  next
    case False
    moreover have "reply_start rep = None" using serve_effect [OF assms(1,2)] by cases (auto simp: explains_start_def)
    ultimately show ?thesis using other_keeps [OF assms(1,2)] by simp
  qed
  ultimately show ?thesis using assms(3) by metis
qed

lemma meanwhile_keeps:
  assumes "meanwhile env stored sid (s_ExpiresAt s) b b'" and "ids_ok (content b)" and "content b sid = Some s"
    and "open_session s"
  shows "ids_ok (content b') \<and> b_cfg b' = b_cfg b \<and> (\<exists>t. content b' sid = Some (s\<lparr>s_LastPollAt := t\<rparr>))"
  using assms(1)
proof (induction rule: meanwhile.induct)
  case none
  have "s = s\<lparr>s_LastPollAt := s_LastPollAt s\<rparr>" by simp
  then show ?case using assms(2,3) by metis
next
  case (other b1 ep r w rep b2 w')
  then show ?case
    using effect_ids [OF serve_effect [OF other.hyps(2)]] other_keeps [OF other.hyps(2) _ other.hyps(3)] serve_cfg [OF other.hyps(2)]
    by auto
next
  case (polled b1 r w rep b2 w')
  then obtain t where t: "ids_ok (content b1)" "content b1 sid = Some (s\<lparr>s_LastPollAt := t\<rparr>)" by blast
  have "\<exists>t'. content b2 sid = Some (s\<lparr>s_LastPollAt := t, s_LastPollAt := t'\<rparr>)"
    using polled_keeps [OF polled.hyps(2) t] polled.hyps(3,4) assms(4) by (simp add: open_session_def)
  then show ?case
    using effect_ids [OF serve_effect [OF polled.hyps(2) t(1)] t(1)] polled.IH serve_cfg [OF polled.hyps(2)] by auto
next
  case (evicted b1 st')
  have "s_ID s' = sid'" if "stored st' sid' = Some s'" for sid' s'
    using evicted.IH evicted.hyps(2) that by (metis (no_types, lifting) domI ids_ok_def map_le_def)
  then show ?case using evicted.IH evicted.hyps(3) by (simp add: ids_ok_def)
qed

text \<open>The second half of a login: from the approval page to the artifact.\<close>

lemma approved_and_polled:
  assumes s: "content b sid = Some s" "ids_ok (content b)" "s_State s = StateAwaitingApproval" "\<not> s_Consumed s"
      "s_Identity s = Some ident" "s_ExpiresAt s = deadline" "s_CodeChallenge s = S256 v" "v \<noteq> ''''" "sid \<noteq> ''''"
      "s_CSRFToken s \<noteq> ''''"
    and approval: "serve env EpApprove r4 c3 w4 = (rep4, b4, w4')" "readSessionCookie r4 = Some sid" "\<not> r_FormErr r4"
      "hashBinding (presented_secret r4) = s_ApprovalBindingHash s" "r_FormValue r4 ''csrf_token'' = s_CSRFToken s"
      "r_FormValue r4 ''decision'' = ''approve''" "r_FormValue r4 ''user_code'' = s_UserCode s" "instant w4 \<le> deadline"
    and poll: "serve env EpPoll r5 c4 w5 = (rep5, b5, w5')"
      "decode_pollRequest (r_Body r5) = Some \<lparr>pq_SessionID = sid, pq_CodeVerifier = v\<rparr>"
    and others: "meanwhile env stored sid deadline b c3" "meanwhile env stored sid deadline b4 c4"
  shows "reply_artifact rep5 = Some \<lparr>a_Subject = id_Subject ident, a_Identity = id_Value ident,
      a_Claims = id_Claims ident, a_ApprovedAt = s_IdentityAt s,
      a_ExpiresAt = s_IdentityAt s + cfg_ArtifactTTL (b_cfg b)\<rparr>"
proof -
  have "open_session s" using s(3) by (simp add: open_session_def)
  from meanwhile_keeps [OF others(1) [folded s(6)] s(2,1) this]
  obtain t3 where c3: "ids_ok (content c3)" "b_cfg c3 = b_cfg b" "content c3 sid = Some (s\<lparr>s_LastPollAt := t3\<rparr>)"
    by blast
  define s3 where "s3 = s\<lparr>s_LastPollAt := t3, s_State := StateApproved\<rparr>"
  have b4: "content b4 = (content c3)(sid \<mapsto> s3)"
    unfolding s3_def
    by (rule approved_session [OF approval(1,2) c3(3,1), simplified]) (use s approval in simp_all)
  have s3: "content b4 sid = Some s3" "ids_ok (content b4)" "open_session s3" "s_ExpiresAt s3 = deadline"
    using b4 c3(1) s by (auto simp: s3_def ids_ok_def open_session_def)
  from meanwhile_keeps [OF others(2) [folded s3(4)] s3(2,1,3)]
  obtain t4 where c4: "b_cfg c4 = b_cfg b4" "content c4 sid = Some (s3\<lparr>s_LastPollAt := t4\<rparr>)" by blast
  have "b_cfg c4 = b_cfg b" using c3(2) c4(1) serve_cfg [OF approval(1)] by simp
  with polled_session [OF poll c4(2) s(9) _ _ s(8), of ident] s show ?thesis by (simp add: s3_def)
qed

lemma honest_login:
  assumes sid_def: "sid = sr_SessionID sr" and ids: "ids_ok (content b)"
    and begins: "\<And>s w. \<exists>url s' w'. idp_BeginLogin (e_idp env) s w = (Inr url, s', w')"
    and completes: "\<And>w. no_rand_failure w \<Longrightarrow> \<exists>w'. no_rand_failure w' \<and>
      idp_CompleteLogin (e_idp env) r3 (the (content c2 sid)) w = (Inr ident, w')"
    and rand: "no_rand_failure w3"
    and start: "serve env EpStart r1 b w1 = (rep1, b1, w1')" "reply_start rep1 = Some sr"
      "decode_startRequest (r_Body r1) = Some q" "sq_CodeChallenge q = S256 v" "v \<noteq> ''''"
    and verify: "serve env EpVerify r2 c1 w2 = (rep2, b2, w2')" "r_PathID r2 = sid"
    and login: "serve env EpIdPResponse r3 c2 w3 = (rep3, b3, w3')" "readSessionCookie r3 = Some sid"
      "normalizer_or_default (e_unicode env) (cfg_IdentityNormalizer (b_cfg b)) (id_Value ident) =
       normalizer_or_default (e_unicode env) (cfg_IdentityNormalizer (b_cfg b)) (sq_LoginHint q)"
    and approval: "serve env EpApprove r4 c3 w4 = (rep4, b4, w4')" "readSessionCookie r4 = Some sid"
      "\<not> r_FormErr r4" "reply_cookies rep3 = [(approvalCookieName, presented_secret r4)]"
      "reply_csrf rep3 = Some (r_FormValue r4 ''csrf_token'')" "r_FormValue r4 ''decision'' = ''approve''"
      "r_FormValue r4 ''user_code'' = sr_UserCode sr"
    and poll: "serve env EpPoll r5 c4 w5 = (rep5, b5, w5')"
      "decode_pollRequest (r_Body r5) = Some \<lparr>pq_SessionID = sid, pq_CodeVerifier = v\<rparr>"
    and deadline: "deadline = s_ExpiresAt (the (content b1 sid))"
    and time: "instant w2 \<le> deadline" "instant w3 \<le> deadline" "instant w4 \<le> deadline"
    and others: "meanwhile env stored sid deadline b1 c1" "meanwhile env stored sid deadline b2 c2"
      "meanwhile env stored sid deadline b3 c3" "meanwhile env stored sid deadline b4 c4"
  shows "(sessionCookieName, sid) \<in> set (reply_cookies rep2) \<and>
    reply_artifact rep5 = Some \<lparr>a_Subject = id_Subject ident, a_Identity = id_Value ident,
      a_Claims = id_Claims ident, a_ApprovedAt = instant w3,
      a_ExpiresAt = instant w3 + cfg_ArtifactTTL (b_cfg b)\<rparr>"
proof -
  obtain s0 where s0: "content b1 sid = Some s0" "ids_ok (content b1)" "s_UserCode s0 = sr_UserCode sr"
    "s_LoginHint s0 = sq_LoginHint q" "s_CodeChallenge s0 = S256 v" "s_State s0 = StatePending"
    "\<not> s_Consumed s0" "sid \<noteq> ''''" "s_ID s0 = sid"
    using started_session [OF start(1-3) ids] start(4) unfolding sid_def by metis
  have dl: "deadline = s_ExpiresAt s0" using deadline s0(1) by simp
  have "open_session s0" using s0(6) by (simp add: open_session_def)
  from meanwhile_keeps [OF others(1) [unfolded dl] s0(2,1) this]
  obtain t1 where c1: "ids_ok (content c1)" "b_cfg c1 = b_cfg b1" "content c1 sid = Some (s0\<lparr>s_LastPollAt := t1\<rparr>)"
    by blast
  let ?s0 = "s0\<lparr>s_LastPollAt := t1\<rparr>"
  obtain pr st no ve rq where b2: "content b2 = (content c1)(sid \<mapsto> begin_fields pr st no ve rq ?s0)"
    and cookie: "(sessionCookieName, sid) \<in> set (reply_cookies rep2)"
    by (rule verified_session [OF verify(1), of ?s0, unfolded verify(2)]) (use c1 s0 dl time(1) begins in simp_all)
  define s1 where "s1 = begin_fields pr st no ve rq ?s0"
  have s1: "content b2 sid = Some s1" "ids_ok (content b2)" "s_State s1 = StatePending" "s_ID s1 = sid"
    "s_ExpiresAt s1 = deadline" "s_LoginHint s1 = sq_LoginHint q" "s_UserCode s1 = sr_UserCode sr"
    "s_CodeChallenge s1 = S256 v" "\<not> s_Consumed s1" "open_session s1"
    using b2 s0 c1 dl by (auto simp: s1_def begin_fields_def ids_ok_def open_session_def)
  from meanwhile_keeps [OF others(2) [folded s1(5)] s1(2,1,10)]
  obtain t2 where c2: "ids_ok (content c2)" "b_cfg c2 = b_cfg b2" "content c2 sid = Some (s1\<lparr>s_LastPollAt := t2\<rparr>)"
    by blast
  let ?s1 = "s1\<lparr>s_LastPollAt := t2\<rparr>"
  have cfg2: "b_cfg c2 = b_cfg b" using serve_cfg [OF start(1)] serve_cfg [OF verify(1)] c1(2) c2(2) by simp
  obtain token secret where l: "token \<noteq> ''''" "reply_csrf rep3 = Some token"
    "reply_cookies rep3 = [(approvalCookieName, secret)]"
    "content b3 = (content c2)(sid \<mapsto> ?s1\<lparr>s_Identity := Some ident, s_IdentityAt := instant w3,
       s_CSRFToken := token, s_ApprovalBindingHash := hashBinding secret, s_State := StateAwaitingApproval\<rparr>)"
    by (rule logged_in_session [OF login(1,2) c2(3,1), of ident])
      (use s1 c2(3) time(2) completes rand login(3) cfg2 in \<open>auto simp: conj_commute\<close>)
  define s2 where "s2 = ?s1\<lparr>s_Identity := Some ident, s_IdentityAt := instant w3,
       s_CSRFToken := token, s_ApprovalBindingHash := hashBinding secret, s_State := StateAwaitingApproval\<rparr>"
  have s2: "content b3 sid = Some s2" "ids_ok (content b3)"
    using l(4) s1(4) c2(1) by (auto simp: s2_def ids_ok_def)
  have "b_cfg b3 = b_cfg b" using cfg2 serve_cfg [OF login(1)] by simp
  moreover have "reply_artifact rep5 = Some \<lparr>a_Subject = id_Subject ident, a_Identity = id_Value ident,
      a_Claims = id_Claims ident, a_ApprovedAt = s_IdentityAt s2, a_ExpiresAt = s_IdentityAt s2 + cfg_ArtifactTTL (b_cfg b3)\<rparr>"
    by (rule approved_and_polled [OF s2 _ _ _ _ _ start(5) s0(8) _ approval(1,2,3) _ _ approval(6) _ time(3) poll others(3,4)])
      (use s1 l approval in \<open>simp_all add: s2_def\<close>)
  ultimately show ?thesis using cookie by (simp add: s2_def)
qed

end

end
