(* ===== verification/Broker_Demo.thy ===== *)
theory Broker_Demo
  imports Broker_Live
begin

text \<open>
  A concrete broker and a concrete login on it, from the start request to the poll, used by the
  witnesses: an in-memory store, an identity provider that knows alice, a limiter that lets every
  request pass, and the zero configuration.
\<close>

definition demo_idp :: idp_ops where
  "demo_idp = \<lparr>idp_BeginLogin = (\<lambda>s w. (Inr ''https://idp.example/authorize'', s\<lparr>s_Protocol := ''oidc''\<rparr>, w)),
     idp_CompleteLogin = (\<lambda>r s w. (Inr demo_identity, w))\<rparr>"

definition demo_env :: "(memory, unit) env" where
  "demo_env = \<lparr>e_store = Memory, e_idp = demo_idp,
     e_rate = \<lparr>rl_NewLimiter = (\<lambda>r n. ()), rl_Allow = (\<lambda>l t. (True, ()))\<rparr>,
     e_unicode = demo_unicode, e_urlParses = (\<lambda>_. True)\<rparr>"

lemma demo_idp_contract: "identity_provider demo_idp"
proof
  fix s :: session and w res s' w'
  assume "idp_BeginLogin demo_idp s w = (res, s', w')"
  then have "s' = begin_fields ''oidc'' (s_IdPState s) (s_IdPNonce s) (s_IdPPKCEVerifier s) (s_SAMLRequestID s) s"
    by (auto simp: demo_idp_def begin_fields_def)
  then show "\<exists>pr st no ve rq. s' = begin_fields pr st no ve rq s" by blast
qed

interpretation demo: broker_env demo_env m_sessions
  using demo_idp_contract mem.reliable_store_axioms
  by (simp add: broker_env_def demo_env_def)

definition demo_cfg :: config where
  "demo_cfg = \<lparr>cfg_BaseURL = ''https://auth.example'', cfg_SessionTTL = 0, cfg_PollInterval = 0,
     cfg_StartRatePerSec = 0, cfg_StartRateBurst = 0, cfg_ArtifactTTL = 0, cfg_IdentityNormalizer = None,
     cfg_AbuseWebhookURL = '''', cfg_ClientAuthenticator = None, cfg_TrustedProxies = [],
     cfg_AllowedClientCIDRs = []\<rparr>"

definition demo_broker :: "(memory, unit) broker" where
  "demo_broker = New demo_env demo_cfg NewMemory"

definition blank_request :: request where
  "blank_request = \<lparr>r_Method = '''', r_Path = '''', r_RemoteAddr = ''10.1.2.3:4711'', r_TLS = None,
     r_Header = [], r_Cookies = [], r_Query = [], r_PostForm = [], r_FormErr = False, r_Body = '''',
     r_PathID = ''''\<rparr>"

section \<open>The login\<close>

definition demo_start :: request where
  "demo_start = blank_request\<lparr>r_Method := ''POST'', r_Body := json_Marshal (JObj [(''login_hint'', JStr ''alice''),
     (''code_challenge'', JStr (S256 demo_verifier)), (''code_challenge_method'', JStr ''S256''),
     (''client_kind'', JStr ''ssh''), (''client_host'', JStr ''h'')])\<rparr>"

definition "demo_out1 = serve demo_env EpStart demo_start demo_broker demo_world"
definition "demo_sr = the (reply_start (fst demo_out1))"
definition "demo_sid = sr_SessionID demo_sr"

definition "demo_verify = blank_request\<lparr>r_PathID := demo_sid\<rparr>"
definition "demo_out2 = serve demo_env EpVerify demo_verify (fst (snd demo_out1)) demo_world"

definition "demo_callback = blank_request\<lparr>r_Cookies := [(sessionCookieName, demo_sid)]\<rparr>"
definition "demo_out3 = serve demo_env EpIdPResponse demo_callback (fst (snd demo_out2)) demo_world"

definition "demo_approval = blank_request\<lparr>
  r_Cookies := [(sessionCookieName, demo_sid), hd (reply_cookies (fst demo_out3))],
  r_PostForm := [(''user_code'', sr_UserCode demo_sr), (''csrf_token'', the (reply_csrf (fst demo_out3))),
                 (''decision'', ''approve'')]\<rparr>"
definition "demo_out4 = serve demo_env EpApprove demo_approval (fst (snd demo_out3)) demo_world"

definition demo_poll_request :: request where
  "demo_poll_request = blank_request\<lparr>r_Method := ''POST'', r_Body := json_Marshal (JObj [(''session_id'', JStr demo_sid),
     (''code_verifier'', JStr demo_verifier)])\<rparr>"
definition "demo_out5 = serve demo_env EpPoll demo_poll_request (fst (snd demo_out4)) demo_world"

definition "demo_trace = [(EpApprove, demo_approval, fst demo_out4), (EpIdPResponse, demo_callback, fst demo_out3),
  (EpVerify, demo_verify, fst demo_out2), (EpStart, demo_start, fst demo_out1)]"

lemma demo_trace_reach: "broker_reach demo_env m_sessions demo_cfg demo_trace (fst (snd demo_out4))"
proof -
  have "broker_reach demo_env m_sessions demo_cfg [] demo_broker"
    unfolding demo_broker_def by (rule broker_reach.init) (simp add: NewMemory_def)
  then have "broker_reach demo_env m_sessions demo_cfg [(EpStart, demo_start, fst demo_out1)] (fst (snd demo_out1))"
    by (rule broker_reach.served [where w = demo_world and w' = "snd (snd demo_out1)"])
        (simp add: demo_out1_def del: serve.simps)
  then have "broker_reach demo_env m_sessions demo_cfg [(EpVerify, demo_verify, fst demo_out2),
      (EpStart, demo_start, fst demo_out1)] (fst (snd demo_out2))"
    by (rule broker_reach.served [where w = demo_world and w' = "snd (snd demo_out2)"])
        (simp add: demo_out2_def del: serve.simps)
  then have "broker_reach demo_env m_sessions demo_cfg [(EpIdPResponse, demo_callback, fst demo_out3),
      (EpVerify, demo_verify, fst demo_out2), (EpStart, demo_start, fst demo_out1)] (fst (snd demo_out3))"
    by (rule broker_reach.served [where w = demo_world and w' = "snd (snd demo_out3)"])
        (simp add: demo_out3_def del: serve.simps)
  then show ?thesis
    unfolding demo_trace_def
    by (rule broker_reach.served [where w = demo_world and w' = "snd (snd demo_out4)"])
        (simp add: demo_out4_def del: serve.simps)
qed

section \<open>What the start request gives\<close>

text \<open>The identifiers in an answer to a start are ASCII.\<close>

lemma start_reply_ascii:
  assumes "serve env EpStart r b w = (Reply x, b', w')" and "rs_Body x = BodyStart sr"
  shows "json_string (sr_SessionID sr) = sr_SessionID sr \<and> json_string (sr_UserCode sr) = sr_UserCode sr"
proof -
  obtain p ttl iv w1 s0 w2 where new: "newSession p ttl iv w1 = (Some s0, w2)" "sr_SessionID sr = s_ID s0"
      "sr_UserCode sr = s_UserCode s0"
    using assms
    by (auto simp: handleStart_def start_session_def writeJSON_def writeJSONError_def Let_def
        split: option.splits prod.splits if_splits)
  from new(1) have "\<exists>w'. newSessionID w1 = (Some (s_ID s0), w')"
    by (auto simp: newSession_def Let_def split: prod.splits option.splits)
  moreover have "wf_code (s_UserCode s0)" using new(1) by (rule newSession_Some)
  ultimately show ?thesis using new(2,3) json_string_session_id json_string_user_code by metis
qed

lemma demo_start_decoded:
  "decode_startRequest (r_Body demo_start) = Some \<lparr>sq_LoginHint = ''alice'',
     sq_CodeChallenge = S256 demo_verifier, sq_CodeChallengeMethod = ''S256'', sq_ClientKind = ''ssh'', sq_ClientHost = ''h''\<rparr>"
  by (simp add: demo_start_def decode_startRequest_def json_Decode_Marshal maxNestingDepth_def json_string_ascii
      decode_string_def json_members_def fold_names del: json_fold.simps)

lemma demo_started:
  "\<exists>s0. reply_start (fst demo_out1) = Some demo_sr \<and> m_sessions (b_store (fst (snd demo_out1))) demo_sid = Some s0 \<and>
     s_ExpiresAt s0 = 1305 * second \<and> sr_ExpiresIn demo_sr = 300 \<and> sr_Interval demo_sr = 3"
proof -
  define w1 where "w1 = demo_world\<lparr>w_tick := Suc (Suc (Suc (Suc (Suc 0))))\<rparr>"
  define p where "p = \<lparr>sp_LoginHint = ''alice'', sp_CodeChallenge = S256 demo_verifier, sp_ClientKind = ''ssh'',
    sp_ClientHost = ''h'', sp_ClientIP = resolveClientIP demo_start [], sp_VerifiedClient = ''''\<rparr>"
  obtain s0 w2 where new: "newSession p (300 * second) (3 * second) w1 = (Some s0, w2)"
      "s_ExpiresAt s0 = 1305 * second"
    by (simp add: newSession_def newSessionID_def random_hex_def rand_Read_def w1_def demo_world_def
        GenerateUserCode_def Let_def time_Now_def time_Add_def)
  have tick: "w_tick demo_world = 0" by (simp add: demo_world_def)
  have "reply_start (fst demo_out1) = Some \<lparr>sr_SessionID = s_ID s0,
      sr_VerificationURI = ''https://auth.example'' @ ''/auth/verify/'' @ s_ID s0, sr_UserCode = s_UserCode s0,
      sr_ExpiresIn = 300, sr_Interval = 3\<rparr> \<and>
    m_sessions (b_store (fst (snd demo_out1))) (s_ID s0) = Some s0"
    using new(1)
    by (simp add: demo_out1_def handleStart_def client_gate_def demo_start_decoded demo_broker_def New_def
        applyDefaults_def demo_cfg_def isAllowedClient_def demo_env_def limiter_Allow_alt Let_def
        time_Now_def start_session_def p_def w1_def b_Create_def Memory_def memory_Create_def
        duration_Seconds_def tick)
  then show ?thesis using new(2) by (auto simp: demo_sr_def demo_sid_def)
qed

section \<open>The rest of the login\<close>

text \<open>The steps of the login, with what each leaves: the hypotheses of an honest login hold.\<close>

lemma demo_world_ok [simp]: "no_rand_failure demo_world" "instant demo_world = 1000 * second"
  by (simp_all add: demo_world_def no_rand_failure_def instant_def)

lemma demo_outs:
  "serve demo_env EpStart demo_start demo_broker demo_world = (fst demo_out1, fst (snd demo_out1), snd (snd demo_out1))"
  "serve demo_env EpVerify demo_verify (fst (snd demo_out1)) demo_world = (fst demo_out2, fst (snd demo_out2), snd (snd demo_out2))"
  "serve demo_env EpIdPResponse demo_callback (fst (snd demo_out2)) demo_world = (fst demo_out3, fst (snd demo_out3), snd (snd demo_out3))"
  "serve demo_env EpApprove demo_approval (fst (snd demo_out3)) demo_world = (fst demo_out4, fst (snd demo_out4), snd (snd demo_out4))"
  "serve demo_env EpPoll demo_poll_request (fst (snd demo_out4)) demo_world = (fst demo_out5, fst (snd demo_out5), snd (snd demo_out5))"
  by (simp_all add: demo_out1_def demo_out2_def demo_out3_def demo_out4_def demo_out5_def del: serve.simps)

lemma demo_ascii: "json_string demo_sid = demo_sid" "json_string demo_verifier = demo_verifier"
proof -
  obtain x where x: "fst demo_out1 = Reply x" "rs_Body x = BodyStart demo_sr"
    using demo_started by (auto simp: reply_start_def split: reply.splits body.splits)
  show "json_string demo_sid = demo_sid"
    using start_reply_ascii [OF demo_outs(1) [unfolded x(1)] x(2)] by (simp add: demo_sid_def)
qed (simp add: demo_verifier_def json_string_ascii)

lemma demo_poll_decoded:
  "decode_pollRequest (r_Body demo_poll_request) =
     Some \<lparr>pq_SessionID = demo_sid, pq_CodeVerifier = demo_verifier\<rparr>"
  by (simp add: demo_poll_request_def decode_pollRequest_def json_Decode_Marshal maxNestingDepth_def demo_ascii json_string_ascii
      decode_string_def json_members_def fold_names del: json_fold.simps)

lemma demo_ids: "ids_ok (m_sessions (b_store demo_broker))"
  by (simp add: demo_broker_def NewMemory_def ids_ok_def)

lemma demo_begins: "\<exists>url s' w'. idp_BeginLogin (e_idp demo_env) s w = (Inr url, s', w')"
  by (simp add: demo_env_def demo_idp_def)

lemma demo_completes: "idp_CompleteLogin (e_idp demo_env) r s w = (Inr demo_identity, w)"
  by (simp add: demo_env_def demo_idp_def)

lemma demo_env_parts:
  "e_idp demo_env = demo_idp" "e_store demo_env = Memory"
  "idp_CompleteLogin demo_idp r s w = (Inr demo_identity, w)"
  by (simp_all add: demo_env_def demo_idp_def)

lemma demo_normalized:
  "normalizer_or_default (e_unicode demo_env) n (id_Value demo_identity) =
   normalizer_or_default (e_unicode demo_env) n ''alice''"
  by (simp add: demo_identity_def)

lemma demo_sid_nonempty: "demo_sid \<noteq> ''''"
  using demo.started_session [OF demo_outs(1) _ demo_start_decoded demo_ids] demo_started
  by (metis demo_sid_def)

lemma demo_session_cookie: "readSessionCookie demo_callback = Some demo_sid" "readSessionCookie demo_approval = Some demo_sid"
  using demo_sid_nonempty
  by (simp_all add: readSessionCookie_def r_Cookie_def demo_callback_def demo_approval_def blank_request_def)

lemma demo_approval_page:
  "\<exists>secret. secret \<noteq> '''' \<and> reply_cookies (fst demo_out3) = [(approvalCookieName, secret)] \<and>
     reply_csrf (fst demo_out3) \<noteq> None"
proof -
  obtain s0 where s0: "reply_start (fst demo_out1) = Some demo_sr"
    "m_sessions (b_store (fst (snd demo_out1))) demo_sid = Some s0" "s_ExpiresAt s0 = 1305 * second"
    using demo_started by blast
  have st: "s_State s0 = StatePending" "ids_ok (m_sessions (b_store (fst (snd demo_out1))))"
    "s_LoginHint s0 = ''alice''"
    using demo.started_session [OF demo_outs(1) s0(1) demo_start_decoded demo_ids] s0(2) demo_sid_def
    by (metis option.inject startRequest.select_convs(1))+
  have ver: "r_PathID demo_verify = demo_sid" by (simp add: demo_verify_def)
  obtain pr st no ve rq where b2: "m_sessions (b_store (fst (snd demo_out2))) =
      (m_sessions (b_store (fst (snd demo_out1))))(demo_sid \<mapsto> begin_fields pr st no ve rq s0)"
    by (rule demo.verified_session [OF demo_outs(2), of s0, unfolded ver])
      (use s0 st demo_begins in \<open>simp_all del: demo_world_ok(2) add: demo_world_ok(2) [simplified]\<close>)
  show ?thesis
    by (rule demo.logged_in_session [OF demo_outs(3) demo_session_cookie(1), where s = "begin_fields pr st no ve rq s0"
          and ident = demo_identity])
      (use b2 st s0 in \<open>auto simp: begin_fields_def ids_ok_def demo_completes demo_normalized [simplified]\<close>)
qed

lemma demo_presented:
  "reply_cookies (fst demo_out3) = [(approvalCookieName, presented_secret demo_approval)]"
  "reply_csrf (fst demo_out3) = Some (r_FormValue demo_approval ''csrf_token'')"
  "r_FormValue demo_approval ''user_code'' = sr_UserCode demo_sr"
  "r_FormValue demo_approval ''decision'' = ''approve''" "\<not> r_FormErr demo_approval"
proof -
  obtain secret token where s: "secret \<noteq> ''''" "reply_cookies (fst demo_out3) = [(approvalCookieName, secret)]"
    "reply_csrf (fst demo_out3) = Some token"
    using demo_approval_page by blast
  note [simp] = demo_approval_def blank_request_def r_FormValue_def first_value_def
  have "presented_secret demo_approval = secret"
    using s(1,2) by (simp add: presented_secret_def readApprovalCookie_def r_Cookie_def sessionCookieName_def
        approvalCookieName_def)
  then show "reply_cookies (fst demo_out3) = [(approvalCookieName, presented_secret demo_approval)]"
    using s(2) by simp
  show "reply_csrf (fst demo_out3) = Some (r_FormValue demo_approval ''csrf_token'')" using s(3) by simp
qed (simp_all add: demo_approval_def blank_request_def r_FormValue_def first_value_def)

lemma demo_expiry: "1000 * second \<le> s_ExpiresAt (the (m_sessions (b_store (fst (snd demo_out1))) demo_sid))"
  using demo_started by auto

definition demo_artifact :: Artifact where
  "demo_artifact = \<lparr>a_Subject = ''sub-alice'', a_Identity = ''alice'', a_Claims = Map.empty,
     a_ApprovedAt = 1000 * second, a_ExpiresAt = 1120 * second\<rparr>"

lemma demo_verifier_nonempty: "demo_verifier \<noteq> ''''"
  by (simp add: demo_verifier_def)

lemma demo_ttl: "cfg_ArtifactTTL (b_cfg demo_broker) = 120 * second"
  by (simp add: demo_broker_def applyDefaults_def demo_cfg_def)

lemma demo_released: "reply_artifact (fst demo_out5) = Some demo_artifact"
proof -
  obtain s0 where s0: "reply_start (fst demo_out1) = Some demo_sr" using demo_started by blast
  note h = demo.honest_login [OF demo_sid_def demo_ids demo_begins _ _ demo_outs(1) s0 demo_start_decoded _
      demo_verifier_nonempty demo_outs(2) _ demo_outs(3) demo_session_cookie(1) _ demo_outs(4)
      demo_session_cookie(2) demo_presented(5,1,2,4,3) demo_outs(5) demo_poll_decoded refl _ _ _
      meanwhile.none meanwhile.none meanwhile.none meanwhile.none, where ident = demo_identity]
  have "reply_artifact (fst demo_out5) = Some \<lparr>a_Subject = id_Subject demo_identity,
      a_Identity = id_Value demo_identity, a_Claims = id_Claims demo_identity, a_ApprovedAt = instant demo_world,
      a_ExpiresAt = instant demo_world + cfg_ArtifactTTL (b_cfg demo_broker)\<rparr>"
    by (rule h [THEN conjunct2])
      (use demo_expiry in \<open>simp_all add: demo_completes demo_verify_def demo_normalized [simplified]\<close>)
  then show ?thesis by (simp add: demo_artifact_def demo_identity_def demo_ttl)
qed

lemma serve_start_only:
  assumes "serve env ep r b w = (rep, b', w')" and "ep \<noteq> EpStart"
  shows "reply_start rep = None"
proof (cases ep)
  case EpVerify
  then show ?thesis using assms(1)
    by (auto simp: handleVerify_def begin_login_def Let_def
        split: sum.splits prod.splits if_splits option.splits state.splits)
next
  case EpIdPResponse
  then show ?thesis using assms(1)
    by (auto simp: handleIdPResponse_def finish_login_def Let_def
        split: sum.splits prod.splits if_splits option.splits)
next
  case EpApprove
  then show ?thesis using assms(1)
    by (auto simp: handleApprove_def approve_reply_def Let_def
        split: sum.splits prod.splits if_splits option.splits)
next
  case EpPoll
  then show ?thesis using assms(1)
    by (auto simp: handlePoll_def poll_reply_def Let_def
        split: sum.splits prod.splits if_splits option.splits poll_outcome.splits)
next
  case EpHealthz
  then show ?thesis using assms(1) by (auto simp: reply_start_def)
qed (use assms(2) in simp)

lemma demo_trace_started: "started_ids demo_trace = [demo_sid]"
proof -
  obtain s0 where s0: "reply_start (fst demo_out1) = Some demo_sr" using demo_started by blast
  have "reply_start (fst demo_out2) = None" "reply_start (fst demo_out3) = None" "reply_start (fst demo_out4) = None"
    using serve_start_only [OF demo_outs(2)] serve_start_only [OF demo_outs(3)]
      serve_start_only [OF demo_outs(4)] by simp_all
  then show ?thesis using s0 by (simp add: demo_trace_def demo_sid_def)
qed

lemma demo_wrong_code: "normalizeUserCode demo_unicode ''WRONG'' \<noteq> normalizeUserCode demo_unicode ''ABCD-2345''"
  by code_simp

end
