(* ===== verification/GoTime.thy ===== *)
theory GoTime
  imports GoNet
begin

text \<open>
  What the program uses of package \<open>time\<close>: the calendar date and the clock of an instant in a zone,
  \<open>Format(time.RFC1123)\<close> on the approval page, the JSON form of a time and the printed form of a duration. Day 0 is Go's zero time, Monday 1 January of year 1, and the calendar is the proleptic
  Gregorian one. The lemmas show that the date of a day determines the day.
\<close>

section \<open>Dates\<close>

definition is_leap :: "nat \<Rightarrow> bool" where
  "is_leap y \<longleftrightarrow> 4 dvd y \<and> (\<not> 100 dvd y \<or> 400 dvd y)"

definition year_len :: "nat \<Rightarrow> nat" where
  "year_len y = (if is_leap y then 366 else 365)"

definition month_lens :: "nat \<Rightarrow> nat list" where
  "month_lens y = [31, if is_leap y then 29 else 28, 31, 30, 31, 30, 31, 31, 30, 31, 30, 31]"

text \<open>The year a day falls into, counting from the first day of year \<open>y\<close>, and the day within that year.\<close>

function year_loop :: "nat \<Rightarrow> nat \<Rightarrow> nat \<times> nat" where
  "year_loop d y = (if d < year_len y then (y, d) else year_loop (d - year_len y) (Suc y))"
  by pat_completeness auto

termination
  by (relation "measure fst") (auto simp: year_len_def split: if_splits)

declare year_loop.simps [simp del]

fun month_loop :: "nat list \<Rightarrow> nat \<Rightarrow> nat \<Rightarrow> nat \<times> nat" where
  "month_loop [] d m = (m, d)"
| "month_loop (l # ls) d m = (if d < l then (m, d) else month_loop ls (d - l) (Suc m))"

record date =
  dt_year :: int
  dt_month :: nat
  dt_day :: nat

text \<open>146097 days are 400 years, after which the calendar repeats.\<close>

definition date_of_days :: "int \<Rightarrow> date" where
  "date_of_days d =
     (let (y, yd) = year_loop (nat (d mod 146097)) 1;
          (m, md) = month_loop (month_lens y) yd 1
      in \<lparr>dt_year = int y + 400 * (d div 146097), dt_month = m, dt_day = Suc md\<rparr>)"

section \<open>Formatting\<close>

record zone =
  z_name :: string
  z_offset :: int

abbreviation day :: duration where
  "day \<equiv> 86400000000000"

definition pad :: "nat \<Rightarrow> int \<Rightarrow> string" where
  "pad k n =
     (let ds = nat_lit (nat \<bar>n\<bar>) in
      (if n < 0 then ''-'' else '''') @ replicate (k - length ds) (CHR ''0'') @ ds)"

definition weekdays :: "string list" where
  "weekdays = [''Mon'', ''Tue'', ''Wed'', ''Thu'', ''Fri'', ''Sat'', ''Sun'']"

definition months :: "string list" where
  "months = [''Jan'', ''Feb'', ''Mar'', ''Apr'', ''May'', ''Jun'', ''Jul'', ''Aug'', ''Sep'', ''Oct'', ''Nov'', ''Dec'']"

text \<open>The zone is printed by its name, or as its offset in hours and minutes when it has none.\<close>

definition zone_text :: "zone \<Rightarrow> string" where
  "zone_text z =
     (if z_name z \<noteq> '''' then z_name z
      else
        let m = sgn (z_offset z) * (\<bar>z_offset z\<bar> div 60) in
        (if m < 0 then ''-'' else ''+'') @ pad 2 (\<bar>m\<bar> div 60) @ pad 2 (\<bar>m\<bar> mod 60))"

definition format_RFC1123 :: "zone \<Rightarrow> time \<Rightarrow> string" where
  "format_RFC1123 z t =
     (let local = t + z_offset z * second;
          days = local div day;
          secs = (local mod day) div second;
          d = date_of_days days
      in weekdays ! nat (days mod 7) @ '', '' @ pad 2 (int (dt_day d)) @ '' '' @ months ! (dt_month d - 1) @ '' '' @
         pad 4 (dt_year d) @ '' '' @ pad 2 (secs div 3600) @ '':'' @ pad 2 (secs mod 3600 div 60) @ '':'' @
         pad 2 (secs mod 60) @ '' '' @ zone_text z)"

section \<open>Dates determine days\<close>

definition days_before_year :: "nat \<Rightarrow> nat" where
  "days_before_year y = sum_list (map year_len [1..<y])"

lemma days_before_Suc: "1 \<le> y \<Longrightarrow> days_before_year (Suc y) = days_before_year y + year_len y"
  by (simp add: days_before_year_def)

lemma year_loop_days:
  "year_loop d y = (y', yd) \<Longrightarrow> 1 \<le> y \<Longrightarrow> yd < year_len y' \<and> y \<le> y' \<and> days_before_year y + d = days_before_year y' + yd"
proof (induction d y rule: year_loop.induct)
  case (1 d y)
  show ?case
  proof (cases "d < year_len y")
    case True
    then show ?thesis using 1(2) by (simp add: year_loop.simps [of d y])
  next
    case False
    then have "year_loop (d - year_len y) (Suc y) = (y', yd)" using 1(2) by (simp add: year_loop.simps [of d y])
    from 1(1) [OF False this] show ?thesis using False 1(3) days_before_Suc [OF 1(3)] by simp
  qed
qed

lemma month_loop_days:
  "month_loop ls d m = (m', md) \<Longrightarrow> d < sum_list ls \<Longrightarrow>
    m \<le> m' \<and> m' - m < length ls \<and> md < ls ! (m' - m) \<and> d = sum_list (take (m' - m) ls) + md"
proof (induction ls d m rule: month_loop.induct)
  case (2 l ls d m)
  show ?case
  proof (cases "d < l")
    case True
    then show ?thesis using 2(2) by simp
  next
    case False
    then have ih: "Suc m \<le> m'" "m' - Suc m < length ls" "md < ls ! (m' - Suc m)"
      "d - l = sum_list (take (m' - Suc m) ls) + md"
      using 2 by auto
    then have "m' - m = Suc (m' - Suc m)" by simp
    then show ?thesis using ih False by auto
  qed
qed simp

lemma sum_month_lens: "sum_list (month_lens y) = year_len y"
  by (simp add: month_lens_def year_len_def)

text \<open>The closed form, with the leap days every 4, 100 and 400 years.\<close>

lemma days_before_closed: "days_before_year (Suc n) + n div 100 = 365 * n + n div 4 + n div 400"
proof (induction n)
  case (Suc n)
  have k: "Suc n div k = n div k + (if k dvd Suc n then 1 else 0)" for k by (simp add: div_Suc dvd_eq_mod_eq_0)
  have "(100 :: nat) dvd 400" "(4 :: nat) dvd 100" by simp_all
  then have "400 dvd Suc n \<Longrightarrow> 100 dvd Suc n" "100 dvd Suc n \<Longrightarrow> 4 dvd Suc n" by (meson dvd_trans)+
  then show ?case
    using Suc unfolding k
    by (auto simp: days_before_Suc [of "Suc n"] year_len_def is_leap_def)
qed (simp add: days_before_year_def)

lemma year_loop_400: "d < 146097 \<Longrightarrow> year_loop d 1 = (y, yd) \<Longrightarrow> y \<le> 400"
proof -
  assume d: "d < 146097" and l: "year_loop d 1 = (y, yd)"
  have "days_before_year 401 = 146097" using days_before_closed [of 400] by simp
  moreover have "days_before_year 401 \<le> days_before_year y" if "401 \<le> y"
    using that by (induction rule: dec_induct) (auto simp: days_before_Suc)
  moreover have "days_before_year y + yd = d" using year_loop_days [OF l] by (simp add: days_before_year_def)
  ultimately show "y \<le> 400" using d by (cases "y \<le> 400") auto
qed

text \<open>The day of a date: the inverse of \<open>date_of_days\<close>, which is therefore injective.\<close>

definition days_of_date :: "date \<Rightarrow> int" where
  "days_of_date dt =
     (let q = (dt_year dt - 1) div 400; y = nat ((dt_year dt - 1) mod 400 + 1) in
      146097 * q + int (days_before_year y + sum_list (take (dt_month dt - 1) (month_lens y)) + (dt_day dt - 1)))"

lemma days_of_date_of_days: "days_of_date (date_of_days d) = d"
proof -
  obtain y yd where y: "year_loop (nat (d mod 146097)) 1 = (y, yd)" by fastforce
  obtain m md where m: "month_loop (month_lens y) yd 1 = (m, md)" by fastforce
  have yy: "yd < year_len y" "1 \<le> y" "days_before_year y + yd = nat (d mod 146097)"
    using year_loop_days [OF y] by (simp_all add: days_before_year_def)
  have "y \<le> 400" using year_loop_400 [OF _ y] by simp
  then have q: "(int y + 400 * (d div 146097) - 1) div 400 = d div 146097"
      "(int y + 400 * (d div 146097) - 1) mod 400 = int y - 1"
  proof -
    have "int y + 400 * (d div 146097) - 1 = (int y - 1) + 400 * (d div 146097)" by simp
    then show "(int y + 400 * (d div 146097) - 1) div 400 = d div 146097"
      "(int y + 400 * (d div 146097) - 1) mod 400 = int y - 1"
      using yy(2) \<open>y \<le> 400\<close> by (simp_all only: div_mult_self2 mod_mult_self2) simp_all
  qed
  have "yd = sum_list (take (m - 1) (month_lens y)) + md"
    using month_loop_days [OF m] yy(1) by (simp add: sum_month_lens)
  then have "int (days_before_year y + sum_list (take (m - 1) (month_lens y)) + md) = d mod 146097"
    using yy(3) by simp
  moreover have "nat (int y - 1 + 1) = y" by simp
  moreover have "date_of_days d = \<lparr>dt_year = int y + 400 * (d div 146097), dt_month = m, dt_day = Suc md\<rparr>"
    using y m by (simp add: date_of_days_def)
  ultimately show ?thesis using q by (simp add: days_of_date_def Let_def)
qed

lemma date_in_range:
  "1 \<le> dt_month (date_of_days d) \<and> dt_month (date_of_days d) \<le> 12 \<and>
   1 \<le> dt_day (date_of_days d) \<and> dt_day (date_of_days d) \<le> 31"
proof -
  obtain y yd where y: "year_loop (nat (d mod 146097)) 1 = (y, yd)" by fastforce
  obtain m md where m: "month_loop (month_lens y) yd 1 = (m, md)" by fastforce
  have r: "1 \<le> m" "m - 1 < length (month_lens y)" "md < month_lens y ! (m - 1)"
    using month_loop_days [OF m] year_loop_days [OF y] by (auto simp: sum_month_lens)
  have "list_all (\<lambda>l. l \<le> 31) (month_lens y)" by (simp add: month_lens_def)
  then have "md < 31" using r(2,3) by (fastforce simp: list_all_length)
  moreover have "m \<le> 12" using r(1,2) by (simp add: month_lens_def)
  moreover have "dt_month (date_of_days d) = m" "dt_day (date_of_days d) = Suc md"
    using y m by (simp_all add: date_of_days_def)
  ultimately show ?thesis using r(1) by simp
qed

section \<open>Times in JSON\<close>

text \<open>
  \<open>Time.MarshalJSON\<close> and \<open>Time.UnmarshalJSON\<close>: RFC 3339 with up to nine digits of the second (\<open>appendStrictRFC3339\<close>,
  \<open>parseRFC3339\<close>). The offset is that of the zone the time is held in, in seconds; it is printed in minutes. A year
  outside 0 to 9999 and an offset of a day or more are errors.
\<close>

definition trim_zeros :: "string \<Rightarrow> string" where
  "trim_zeros s = rev (dropWhile (\<lambda>c. c = CHR ''0'') (rev s))"

definition appendNano :: "int \<Rightarrow> string" where
  "appendNano n = (if n = 0 then '''' else CHR ''.'' # trim_zeros (pad 9 n))"

definition offset_text :: "int \<Rightarrow> string" where
  "offset_text off =
     (if off = 0 then ''Z''
      else let zone = \<bar>off\<bar> div 60 in
        (if off \<le> - 60 then ''-'' else ''+'') @ pad 2 (zone div 60) @ '':'' @ pad 2 (zone mod 60))"

definition format_RFC3339 :: "int \<Rightarrow> time \<Rightarrow> string option" where
  "format_RFC3339 off t =
     (let local = t + off * second;
          d = date_of_days (local div day);
          ns = local mod day;
          secs = ns div second
      in if dt_year d < 0 \<or> 9999 < dt_year d \<or> 86400 \<le> \<bar>off\<bar> then None
         else Some (pad 4 (dt_year d) @ ''-'' @ pad 2 (int (dt_month d)) @ ''-'' @ pad 2 (int (dt_day d)) @ ''T'' @
           pad 2 (secs div 3600) @ '':'' @ pad 2 (secs mod 3600 div 60) @ '':'' @ pad 2 (secs mod 60) @
           appendNano (ns mod second) @ offset_text off))"

text \<open>\<open>parseUint\<close> on the bytes from \<open>i\<close> to \<open>j\<close>.\<close>

definition parseUint :: "string \<Rightarrow> nat \<Rightarrow> nat \<Rightarrow> int \<Rightarrow> int \<Rightarrow> int option" where
  "parseUint s i j lo hi =
     (case parse_digits (take (j - i) (drop i s)) of
        None \<Rightarrow> None
      | Some n \<Rightarrow> if lo \<le> n \<and> n \<le> hi then Some n else None)"

definition parse_fraction :: "string \<Rightarrow> int \<times> string" where
  "parse_fraction s =
     (case s of
        c # r \<Rightarrow>
          let ds = takeWhile is_digit r in
          if c = CHR ''.'' \<and> ds \<noteq> []
          then (the (parse_digits (take 9 (ds @ replicate 9 (CHR ''0'')))), dropWhile is_digit r) else (0, s)
      | [] \<Rightarrow> (0, s))"

definition parse_offset :: "string \<Rightarrow> int option" where
  "parse_offset s =
     (if s = ''Z'' then Some 0
      else if length s \<noteq> 6 then None
      else
        case (parseUint s 1 3 0 23, parseUint s 4 6 0 59) of
          (Some hr, Some mm) \<Rightarrow>
            if s ! 3 \<noteq> CHR '':'' then None
            else if s ! 0 = CHR ''-'' then Some (- ((hr * 60 + mm) * 60))
            else if s ! 0 = CHR ''+'' then Some ((hr * 60 + mm) * 60) else None
        | _ \<Rightarrow> None)"

definition parse_RFC3339 :: "string \<Rightarrow> time option" where
  "parse_RFC3339 s =
     (if length s < 19 then None
      else
        case (parseUint s 0 4 0 9999, parseUint s 5 7 1 12) of
          (Some y, Some m) \<Rightarrow>
            (case (parseUint s 8 10 1 (int (month_lens (nat y) ! (nat m - 1))), parseUint s 11 13 0 23,
                   parseUint s 14 16 0 59, parseUint s 17 19 0 59) of
               (Some d, Some h, Some mi, Some se) \<Rightarrow>
                 if s ! 4 = CHR ''-'' \<and> s ! 7 = CHR ''-'' \<and> s ! 10 = CHR ''T'' \<and> s ! 13 = CHR '':'' \<and> s ! 16 = CHR '':''
                 then let (nsec, rest) = parse_fraction (drop 19 s) in
                   map_option (\<lambda>off. days_of_date \<lparr>dt_year = y, dt_month = nat m, dt_day = nat d\<rparr> * day +
                       ((h * 60 + mi) * 60 + se - off) * second + nsec) (parse_offset rest)
                 else None
             | _ \<Rightarrow> None)
        | _ \<Rightarrow> None)"

section \<open>Durations\<close>

text \<open>\<open>Duration.String\<close>: hours, minutes and seconds from one second on, else a smaller unit, with the fraction's trailing zeros dropped.\<close>

definition fmtFrac :: "nat \<Rightarrow> int \<Rightarrow> string" where
  "fmtFrac prec v =
     (let f = v mod 10 ^ prec in
      pad 1 (v div 10 ^ prec) @ (if f = 0 then '''' else CHR ''.'' # trim_zeros (pad prec f)))"

definition duration_String :: "duration \<Rightarrow> string" where
  "duration_String d =
     (let u = \<bar>d\<bar>; mins = u div minute; hours = mins div 60 in
      (if d < 0 then ''-'' else '''') @
      (if u = 0 then ''0s''
       else if u < 1000 then fmtFrac 0 u @ ''ns''
       else if u < 1000000 then fmtFrac 3 u @ [CHR 0xC2, CHR 0xB5, CHR ''s'']
       else if u < second then fmtFrac 6 u @ ''ms''
       else (if 0 < hours then pad 1 hours @ ''h'' else '''') @
            (if 0 < mins then pad 1 (mins mod 60) @ ''m'' else '''') @ fmtFrac 9 (u mod minute) @ ''s''))"

section \<open>Times in JSON are read back\<close>

text \<open>A padded number is as wide as asked and is read back.\<close>

lemma nat_lit_width: "n < 10 ^ Suc k \<Longrightarrow> length (nat_lit n) \<le> Suc k"
proof (induction k arbitrary: n)
  case 0
  then show ?case by (simp add: nat_lit.simps [of n])
next
  case (Suc k)
  then show ?case by (cases "n < 10") (simp_all add: nat_lit.simps [of n] less_mult_imp_div_less)
qed

lemma pad_length: "0 \<le> n \<Longrightarrow> n < 10 ^ Suc k \<Longrightarrow> length (pad (Suc k) n) = Suc k"
  using nat_lit_width [of "nat n" k] by (simp add: pad_def Let_def nat_less_iff)

lemma pad_digits: "0 \<le> n \<Longrightarrow> list_all is_digit (pad k n)"
  using nat_lit_digits [of "nat n"] by (auto simp: pad_def Let_def list_all_iff is_digit_def)

lemma parse_pad: "0 \<le> n \<Longrightarrow> parse_digits (pad k n) = Some n"
proof -
  assume n: "0 \<le> n"
  have "fold (\<lambda>d acc. 10 * acc + int (digit_val d)) (replicate j (CHR ''0'')) 0 = 0" for j
    by (induction j) (simp_all add: digit_val_def)
  then have "fold (\<lambda>d acc. 10 * acc + int (digit_val d)) (pad k n) 0 = n"
    using n fold_nat_lit [of "nat n"] by (simp add: pad_def Let_def)
  then show ?thesis using pad_digits [OF n, of k] nat_lit_digits [of "nat n"] n by (simp add: parse_digits_def pad_def Let_def)
qed

lemma parseUint_pad:
  assumes "take (j - i) (drop i s) = pad k n" and "0 \<le> n" and "lo \<le> n" and "n \<le> hi"
  shows "parseUint s i j lo hi = Some n"
  using assms by (simp add: parseUint_def parse_pad)

text \<open>The fraction: trailing zeros are dropped and filled in again.\<close>

lemma trim_zeros_pad: "\<exists>j. s = trim_zeros s @ replicate j (CHR ''0'')"
proof -
  have "\<forall>c \<in> set (takeWhile (\<lambda>c. c = CHR ''0'') (rev s)). c = CHR ''0''" by (auto dest: set_takeWhileD)
  then have "takeWhile (\<lambda>c. c = CHR ''0'') (rev s) = replicate (length (takeWhile (\<lambda>c. c = CHR ''0'') (rev s))) (CHR ''0'')"
    by (simp add: replicate_length_same)
  then have "rev s = replicate (length (takeWhile (\<lambda>c. c = CHR ''0'') (rev s))) (CHR ''0'') @ dropWhile (\<lambda>c. c = CHR ''0'') (rev s)"
    by (metis takeWhile_dropWhile_id)
  then have "s = rev (replicate (length (takeWhile (\<lambda>c. c = CHR ''0'') (rev s))) (CHR ''0'') @ dropWhile (\<lambda>c. c = CHR ''0'') (rev s))"
    by (metis rev_rev_ident)
  then show ?thesis by (metis rev_append rev_replicate trim_zeros_def)
qed

lemma parse_fraction_append:
  assumes "0 \<le> n" and "n < second" and "r = [] \<or> \<not> is_digit (hd r) \<and> hd r \<noteq> CHR ''.''"
  shows "parse_fraction (appendNano n @ r) = (n, r)"
proof (cases "n = 0")
  case True
  then show ?thesis using assms(3) by (cases r) (auto simp: appendNano_def parse_fraction_def)
next
  case False
  define ds where "ds = trim_zeros (pad 9 n)"
  obtain j where j: "pad 9 n = ds @ replicate j (CHR ''0'')" unfolding ds_def using trim_zeros_pad by blast
  have l: "length (pad 9 n) = 9" using pad_length [of n 8] assms by simp
  have d: "list_all is_digit ds" using pad_digits [of n 9] assms(1) j by simp
  have "ds \<noteq> []"
  proof
    assume "ds = []"
    then have "pad 9 n = replicate j (CHR ''0'')" using j by simp
    moreover have "fold (\<lambda>d acc. 10 * acc + int (digit_val d)) (replicate j (CHR ''0'')) 0 = 0"
      by (induction j) (simp_all add: digit_val_def)
    ultimately show False using parse_pad [of n 9] assms(1) False by (simp add: parse_digits_def split: if_splits)
  qed
  moreover have "takeWhile is_digit (ds @ r) = ds" "dropWhile is_digit (ds @ r) = r"
    using d assms(3) by (cases r; auto simp: list_all_iff takeWhile_append dropWhile_append)+
  moreover have "take 9 (ds @ replicate 9 (CHR ''0'')) = pad 9 n"
    using j l by (simp add: take_append take_replicate)
  ultimately show ?thesis
    using False parse_pad [of n 9] assms(1) by (simp add: appendNano_def parse_fraction_def ds_def [symmetric])
qed

lemma parse_offset_text:
  assumes "\<bar>off\<bar> < 86400" and "60 dvd off"
  shows "parse_offset (offset_text off) = Some off"
proof (cases "off = 0")
  case False
  define h m where "h = \<bar>off\<bar> div 60 div 60" and "m = \<bar>off\<bar> div 60 mod 60"
  have r: "0 \<le> h" "h \<le> 23" "0 \<le> m" "m \<le> 59" using assms(1) by (auto simp: h_def m_def)
  have off: "\<bar>off\<bar> = (h * 60 + m) * 60"
    using assms(2) unfolding h_def m_def by (simp add: dvd_abs_iff)
  obtain a b where h: "pad 2 h = [a, b]" using pad_length [of h 1] r by (auto simp: numeral_2_eq_2 length_Suc_conv)
  obtain c d where m: "pad 2 m = [c, d]" using pad_length [of m 1] r by (auto simp: numeral_2_eq_2 length_Suc_conv)
  define g where "g = (if off \<le> - 60 then CHR ''-'' else CHR ''+'')"
  have t: "offset_text off = [g, a, b, CHR '':'', c, d]"
    using False h m by (simp add: offset_text_def Let_def h_def m_def g_def)
  have "parseUint [g, a, b, CHR '':'', c, d] 1 3 0 23 = Some h"
    by (rule parseUint_pad [of _ _ _ 2]) (use r h in \<open>simp_all add: numeral_2_eq_2\<close>)
  moreover have "parseUint [g, a, b, CHR '':'', c, d] 4 6 0 59 = Some m"
    by (rule parseUint_pad [of _ _ _ 2]) (use r m in \<open>simp_all add: eval_nat_numeral\<close>)
  moreover have "off \<le> - 60 \<or> 0 < off" using False assms(2) by (auto elim!: dvdE)
  ultimately show ?thesis using off unfolding t by (auto simp: parse_offset_def g_def numeral_3_eq_3)
qed (simp add: offset_text_def parse_offset_def)

lemma leap_400: "is_leap (nat (int y + 400 * q)) = is_leap y" if "0 \<le> int y + 400 * q"
proof -
  have "k dvd nat (int y + 400 * q) \<longleftrightarrow> k dvd y" if "int k dvd 400" for k
  proof -
    have "k dvd nat (int y + 400 * q) \<longleftrightarrow> int k dvd int y + 400 * q" using \<open>0 \<le> int y + 400 * q\<close> 
      by (metis int_dvd_int_iff int_nat_eq)
    also have "\<dots> \<longleftrightarrow> int k dvd int y" using that by (simp add: dvd_add_left_iff)
    finally show ?thesis by simp
  qed
  then show ?thesis by (simp add: is_leap_def)
qed

lemma day_in_month:
  assumes "0 \<le> dt_year (date_of_days d)"
  shows "dt_day (date_of_days d) \<le> month_lens (nat (dt_year (date_of_days d))) ! (dt_month (date_of_days d) - 1)"
proof -
  obtain y yd where y: "year_loop (nat (d mod 146097)) 1 = (y, yd)" by fastforce
  obtain m md where m: "month_loop (month_lens y) yd 1 = (m, md)" by fastforce
  have dt: "date_of_days d = \<lparr>dt_year = int y + 400 * (d div 146097), dt_month = m, dt_day = Suc md\<rparr>"
    using y m by (simp add: date_of_days_def)
  then have "month_lens (nat (dt_year (date_of_days d))) = month_lens y"
    using leap_400 [of y "d div 146097"] assms by (simp add: month_lens_def)
  moreover have "md < month_lens y ! (m - 1)"
    using month_loop_days [OF m] year_loop_days [OF y] by (auto simp: sum_month_lens)
  ultimately show ?thesis using dt by simp
qed

text \<open>The clock of a day, put together again.\<close>

lemma clock_split:
  fixes ns :: int
  assumes "0 \<le> ns" and "ns < day"
  defines "secs \<equiv> ns div second"
  shows "((secs div 3600 * 60 + secs mod 3600 div 60) * 60 + secs mod 60) * second + ns mod second = ns"
    and "0 \<le> secs div 3600 \<and> secs div 3600 \<le> 23" and "0 \<le> secs mod 3600 div 60 \<and> secs mod 3600 div 60 \<le> 59"
    and "0 \<le> secs mod 60 \<and> secs mod 60 \<le> 59"
proof -
  have s: "0 \<le> secs" "secs < 86400" using assms(1,2) by (auto simp: secs_def)
  define q where "q = secs div 60"
  have h: "secs div 3600 = q div 60" using zdiv_zmult2_eq [of 60 secs 60] by (simp add: q_def)
  have m: "secs mod 3600 div 60 = q mod 60" using zmod_zmult2_eq [of 60 secs 60] by (simp add: q_def)
  have "(q div 60 * 60 + q mod 60) * 60 + secs mod 60 = secs" by (simp add: q_def)
  then show "((secs div 3600 * 60 + secs mod 3600 div 60) * 60 + secs mod 60) * second + ns mod second = ns"
    unfolding h m by (simp add: secs_def)
  show "0 \<le> secs div 3600 \<and> secs div 3600 \<le> 23" using s by auto
  show "0 \<le> secs mod 3600 div 60 \<and> secs mod 3600 div 60 \<le> 59" "0 \<le> secs mod 60 \<and> secs mod 60 \<le> 59"
    unfolding m by simp_all
qed

lemma offset_text_head: "\<not> is_digit (hd (offset_text off)) \<and> hd (offset_text off) \<noteq> CHR ''.'' \<and> offset_text off \<noteq> []"
  by (simp add: offset_text_def Let_def is_digit_def)

text \<open>Reading a date and a clock of fixed widths.\<close>

lemma parse_RFC3339_fields:
  assumes "0 \<le> y" "y \<le> 9999" and "1 \<le> m" "m \<le> 12" and "1 \<le> d" "d \<le> int (month_lens (nat y) ! (nat m - 1))" "d \<le> 31"
    and "0 \<le> h" "h \<le> 23" and "0 \<le> mi" "mi \<le> 59" and "0 \<le> se" "se \<le> 59"
  shows "parse_RFC3339 (pad 4 y @ ''-'' @ pad 2 m @ ''-'' @ pad 2 d @ ''T'' @ pad 2 h @ '':'' @ pad 2 mi @ '':'' @ pad 2 se @ r) =
    (let (nsec, rest) = parse_fraction r in
      map_option (\<lambda>off. days_of_date \<lparr>dt_year = y, dt_month = nat m, dt_day = nat d\<rparr> * day +
        ((h * 60 + mi) * 60 + se - off) * second + nsec) (parse_offset rest))"
proof -
  have two: "\<exists>a b. pad 2 n = [a, b]" if "0 \<le> n" "n \<le> 59" for n
    using pad_length [of n 1] that by (auto simp: numeral_2_eq_2 length_Suc_conv)
  obtain y1 y2 y3 y4 where y: "pad 4 y = [y1, y2, y3, y4]"
    using pad_length [of y 3] assms(1,2) by (auto simp: eval_nat_numeral length_Suc_conv)
  obtain m1 m2 where m: "pad 2 m = [m1, m2]" using two [of m] assms(3,4) by auto
  obtain d1 d2 where d: "pad 2 d = [d1, d2]" using two [of d] assms(5,7) by auto
  obtain h1 h2 where h: "pad 2 h = [h1, h2]" using two [of h] assms(8,9) by auto
  obtain i1 i2 where i: "pad 2 mi = [i1, i2]" using two [of mi] assms(10,11) by auto
  obtain s1 s2 where s: "pad 2 se = [s1, s2]" using two [of se] assms(12,13) by auto
  have n: "parse_digits [y1, y2, y3, y4] = Some y" "parse_digits [m1, m2] = Some m" "parse_digits [d1, d2] = Some d"
    "parse_digits [h1, h2] = Some h" "parse_digits [i1, i2] = Some mi" "parse_digits [s1, s2] = Some se"
    using parse_pad [of y 4] parse_pad [of m 2] parse_pad [of d 2] parse_pad [of h 2] parse_pad [of mi 2] parse_pad [of se 2]
      assms y m d h i s by simp_all
  show ?thesis
    unfolding y m d h i s using n assms by (simp add: parse_RFC3339_def parseUint_def eval_nat_numeral)
qed

text \<open>Every time that can be written is read back, to the nanosecond, if its zone's offset is in whole minutes.\<close>

lemma parse_format_RFC3339:
  assumes "format_RFC3339 off t = Some s" and "60 dvd off"
  shows "parse_RFC3339 s = Some t"
proof -
  define local where "local = t + off * second"
  define d where "d = date_of_days (local div day)"
  define ns where "ns = local mod day"
  define secs where "secs = ns div second"
  have ok: "0 \<le> dt_year d" "dt_year d \<le> 9999" "\<bar>off\<bar> < 86400"
    and s: "s = pad 4 (dt_year d) @ ''-'' @ pad 2 (int (dt_month d)) @ ''-'' @ pad 2 (int (dt_day d)) @ ''T'' @
           pad 2 (secs div 3600) @ '':'' @ pad 2 (secs mod 3600 div 60) @ '':'' @ pad 2 (secs mod 60) @
           appendNano (ns mod second) @ offset_text off"
    using assms(1) unfolding format_RFC3339_def Let_def local_def d_def ns_def secs_def by (auto split: if_splits)
  have ns: "0 \<le> ns" "ns < day" by (simp_all add: ns_def)
  note c = clock_split [OF ns, folded secs_def]
  have f: "parse_fraction (appendNano (ns mod second) @ offset_text off) = (ns mod second, offset_text off)"
    by (rule parse_fraction_append) (use offset_text_head [of off] in auto)
  have dt: "days_of_date \<lparr>dt_year = dt_year d, dt_month = dt_month d, dt_day = dt_day d\<rparr> = local div day"
    using days_of_date_of_days [of "local div day"] by (cases d) (simp add: d_def)
  have r: "1 \<le> int (dt_month d)" "int (dt_month d) \<le> 12" "1 \<le> int (dt_day d)" "int (dt_day d) \<le> 31"
    using date_in_range [of "local div day"] by (simp_all add: d_def)
  have m: "int (dt_day d) \<le> int (month_lens (nat (dt_year d)) ! (nat (int (dt_month d)) - 1))"
    using day_in_month [of "local div day"] ok(1) by (simp add: d_def)
  have "parse_RFC3339 s = Some (local div day * day +
      ((secs div 3600 * 60 + secs mod 3600 div 60) * 60 + secs mod 60 - off) * second + ns mod second)"
    unfolding s parse_RFC3339_fields [OF ok(1,2) r(1,2,3) m r(4) c(2) [THEN conjunct1] c(2) [THEN conjunct2]
        c(3) [THEN conjunct1] c(3) [THEN conjunct2] c(4) [THEN conjunct1] c(4) [THEN conjunct2]] f
    using dt parse_offset_text [OF ok(3) assms(2)] by simp
  also have "\<dots> = Some (local - off * second)"
    using c(1) div_mult_mod_eq [of local day] unfolding ns_def [symmetric] by (simp only: left_diff_distrib option.inject)
  also have "\<dots> = Some t" by (simp add: local_def)
  finally show ?thesis .
qed

end
