(* ===== verification/GoJson.thy ===== *)
theory GoJson
  imports Store Http GoTime "HOL-Library.AList" "HOL-Library.List_Lexorder" "HOL-Library.Char_ord"
begin

text \<open>
  What the program uses of \<open>encoding/json\<close> beyond strings: numbers, times, values of type \<open>any\<close> and maps of them, encoded
  to a document and decoded into a field. \<open>json_conv\<close> holds what the library takes from elsewhere: the decimal form of a
  64-bit float (\<open>strconv\<close>) and the time zone database. The lemmas are the round trips: what a value is when it has been
  sent and received.
\<close>

section \<open>Definitions\<close>

record json_conv =
  jc_format :: "64 word \<Rightarrow> string"
  jc_parse :: "string \<Rightarrow> 64 word option"
  jc_offset :: "time \<Rightarrow> int"

text \<open>Integers: a decimal literal, in the range of 64 bits, which every Go \<open>int\<close> and \<open>Duration\<close> has.\<close>

definition parse_int :: "string \<Rightarrow> int option" where
  "parse_int lit =
     (let r = (case lit of
                 c # ds \<Rightarrow> if c = CHR ''-'' then map_option uminus (parse_digits ds) else parse_digits lit
               | [] \<Rightarrow> None)
      in case r of
           Some n \<Rightarrow> if minInt64 \<le> n \<and> n \<le> maxInt64 then Some n else None
         | None \<Rightarrow> None)"

definition encode_int :: "int \<Rightarrow> json option" where
  "encode_int n = (if minInt64 \<le> n \<and> n \<le> maxInt64 then Some (JNum (int_lit n)) else None)"

definition decode_int_value :: "int \<Rightarrow> json \<Rightarrow> int option" where
  "decode_int_value cur v = (case v of JNum lit \<Rightarrow> parse_int lit | JNull \<Rightarrow> Some cur | _ \<Rightarrow> None)"

definition decode_str_value :: "string \<Rightarrow> json \<Rightarrow> string option" where
  "decode_str_value cur v = (case v of JStr s \<Rightarrow> Some s | JNull \<Rightarrow> Some cur | _ \<Rightarrow> None)"

definition decode_bool_value :: "bool \<Rightarrow> json \<Rightarrow> bool option" where
  "decode_bool_value cur v = (case v of JBool b \<Rightarrow> Some b | JNull \<Rightarrow> Some cur | _ \<Rightarrow> None)"

text \<open>Times: the zero time is held in UTC, every other one in the local zone.\<close>

definition encode_time :: "json_conv \<Rightarrow> time \<Rightarrow> json option" where
  "encode_time P t = map_option JStr (format_RFC3339 (if t = 0 then 0 else jc_offset P t) t)"

definition decode_time_value :: "time \<Rightarrow> json \<Rightarrow> time option" where
  "decode_time_value cur v = (case v of JStr s \<Rightarrow> parse_RFC3339 s | JNull \<Rightarrow> Some cur | _ \<Rightarrow> None)"

text \<open>
  Values of type \<open>any\<close>. Strings go through \<open>tx\<close>. A map is written in the order of its keys; NaN and infinities are
  errors. Reading a map sets its keys one after the other.
\<close>

definition float_finite :: "64 word \<Rightarrow> bool" where
  "float_finite w \<longleftrightarrow> unat w div 2 ^ 52 mod 2 ^ 11 \<noteq> 2 ^ 11 - 1"

fun encode_any :: "(string \<Rightarrow> string) \<Rightarrow> json_conv \<Rightarrow> goany \<Rightarrow> json option" where
  "encode_any tx P ANil = Some JNull"
| "encode_any tx P (ABool b) = Some (JBool b)"
| "encode_any tx P (AFloat w) = (if float_finite w then Some (JNum (jc_format P w)) else None)"
| "encode_any tx P (AStr s) = Some (JStr (tx s))"
| "encode_any tx P (AStrs ss) = Some (JArr (map (\<lambda>s. JStr (tx s)) ss))"
| "encode_any tx P (AArr vs) = map_option JArr (those (map (encode_any tx P) vs))"
| "encode_any tx P (AObj ms) =
     map_option (\<lambda>js. JObj (map (apfst tx) (sort_key fst js)))
       (those (map (\<lambda>(k, v). map_option (Pair k) (encode_any tx P v)) ms))"

fun decode_any :: "json_conv \<Rightarrow> json \<Rightarrow> goany option" where
  "decode_any P JNull = Some ANil"
| "decode_any P (JBool b) = Some (ABool b)"
| "decode_any P (JNum lit) = map_option AFloat (jc_parse P lit)"
| "decode_any P (JStr s) = Some (AStr s)"
| "decode_any P (JArr vs) = map_option AArr (those (map (decode_any P) vs))"
| "decode_any P (JObj ms) =
     map_option (\<lambda>kvs. AObj (fold (\<lambda>(k, v). AList.update k v) kvs []))
       (those (map (\<lambda>(k, v). map_option (Pair k) (decode_any P v)) ms))"

text \<open>Claims: a map of such values. Go maps are finite; reading one adds to the map the field holds.\<close>

definition encode_claims :: "(string \<Rightarrow> string) \<Rightarrow> json_conv \<Rightarrow> claims \<Rightarrow> json option" where
  "encode_claims tx P cs =
     (if finite (dom cs) then
        map_option JObj (those (map (\<lambda>(k, v). map_option (Pair k) (encode_any tx P v))
          (map (\<lambda>k. (tx k, the (cs k))) (sorted_list_of_set (dom cs)))))
      else None)"

definition decode_claims :: "json_conv \<Rightarrow> claims \<Rightarrow> json \<Rightarrow> claims option" where
  "decode_claims P cur v =
     (case v of
        JObj ms \<Rightarrow>
          map_option (\<lambda>kvs. cur ++ map_of (rev kvs)) (those (map (\<lambda>(k, v). map_option (Pair k) (decode_any P v)) ms))
      | JNull \<Rightarrow> Some Map.empty
      | _ \<Rightarrow> None)"

text \<open>A field of a struct: every member whose name matches is decoded into it, in order.\<close>

fun decode_member :: "string \<Rightarrow> ('a \<Rightarrow> json \<Rightarrow> 'a option) \<Rightarrow> (string \<times> json) list \<Rightarrow> 'a \<Rightarrow> 'a option" where
  "decode_member name f [] cur = Some cur"
| "decode_member name f ((k, v) # ms) cur =
     (if json_fold k = json_fold name
      then (case f cur v of None \<Rightarrow> None | Some x \<Rightarrow> decode_member name f ms x)
      else decode_member name f ms cur)"

section \<open>Round trips\<close>

text \<open>What the receiver gets of a value: strings through \<open>tx\<close>, lists of strings as lists of values, maps in order.\<close>

fun sent_any :: "(string \<Rightarrow> string) \<Rightarrow> goany \<Rightarrow> goany" where
  "sent_any tx ANil = ANil"
| "sent_any tx (ABool b) = ABool b"
| "sent_any tx (AFloat w) = AFloat w"
| "sent_any tx (AStr s) = AStr (tx s)"
| "sent_any tx (AStrs ss) = AArr (map (\<lambda>s. AStr (tx s)) ss)"
| "sent_any tx (AArr vs) = AArr (map (sent_any tx) vs)"
| "sent_any tx (AObj ms) =
     AObj (fold (\<lambda>(k, v). AList.update k v) (map (apfst tx) (sort_key fst (map (\<lambda>(k, v). (k, sent_any tx v)) ms))) [])"

definition sent_claims :: "(string \<Rightarrow> string) \<Rightarrow> claims \<Rightarrow> claims" where
  "sent_claims tx cs = map_of (rev (map (\<lambda>k. (tx k, sent_any tx (the (cs k)))) (sorted_list_of_set (dom cs))))"

text \<open>What is relied on: \<open>strconv\<close> prints a finite float as a JSON number and reads it back, and offsets of time zones are whole minutes.\<close>

definition conv_ok :: "json_conv \<Rightarrow> bool" where
  "conv_ok P \<longleftrightarrow> (\<forall>w. float_finite w \<longrightarrow> json_number (jc_format P w) \<and> jc_parse P (jc_format P w) = Some w) \<and> (\<forall>t. 60 dvd jc_offset P t)"

lemma those_Some: "those (map f xs) = Some ys \<longleftrightarrow> list_all2 (\<lambda>x y. f x = Some y) xs ys"
proof (induction xs arbitrary: ys)
  case (Cons x xs)
  then show ?case by (cases ys) (auto simp: list_all2_Cons split: option.splits)
qed auto

lemma those_map_Some: "(\<And>x. x \<in> set xs \<Longrightarrow> f x = Some (g x)) \<Longrightarrow> those (map f xs) = Some (map g xs)"
  by (simp add: those_Some list_all2_conv_all_nth)

lemma those_all: "those (map f xs) = Some ys \<Longrightarrow> x \<in> set xs \<Longrightarrow> f x \<noteq> None"
  by (induction xs arbitrary: ys) (auto split: option.splits)

lemma insort_key_map: "(\<And>x. key (f x) = key' x) \<Longrightarrow> insort_key key (f x) (map f xs) = map f (insort_key key' x xs)"
  by (induction xs) auto

lemma sort_key_map: "(\<And>x. key (f x) = key' x) \<Longrightarrow> sort_key key (map f xs) = map f (sort_key key' xs)"
  by (induction xs) (simp_all add: insort_key_map)

text \<open>Members: decoding what was encoded, for a pair of functions that are inverse on the values at hand.\<close>

lemma decode_members:
  assumes "those (map (\<lambda>(k, v). map_option (Pair k) (enc v)) ms) = Some js"
    and "\<And>k v j. (k, v) \<in> set ms \<Longrightarrow> enc v = Some j \<Longrightarrow> dec j = Some (g v)"
  shows "those (map (\<lambda>(k, j). map_option (Pair k) (dec j)) js) = Some (map (\<lambda>(k, v). (k, g v)) ms)"
  using assms
proof (induction ms arbitrary: js)
  case (Cons m ms)
  obtain k v where m: "m = (k, v)" by fastforce
  obtain j js' where j: "enc v = Some j" "js = (k, j) # js'"
      "those (map (\<lambda>(k, v). map_option (Pair k) (enc v)) ms) = Some js'"
    using Cons.prems(1) m by (auto split: option.splits)
  show ?case using Cons.IH [OF j(3)] Cons.prems(2) m j by (fastforce split: option.splits)
qed simp

lemma decode_members_keys:
  fixes js :: "(string \<times> json) list"
  assumes "those (map (\<lambda>(k, j). map_option (Pair k) (dec j)) js) = Some kvs"
  shows "those (map (\<lambda>(k, j). map_option (Pair k) (dec j)) (map (apfst tx) (sort_key fst js))) = Some (map (apfst tx) (sort_key fst kvs))"
proof -
  define f where "f = (\<lambda>(k :: string, j). (k, the (dec j)))"
  have all: "dec (snd m) \<noteq> None" if "m \<in> set js" for m
    using those_all [OF assms that] by (cases m) simp
  have "kvs = map f js"
    using assms all by (subst (asm) those_map_Some [where g = f]) (auto simp: f_def split: prod.splits)
  moreover have "fst (f m) = fst m" for m by (cases m) (simp add: f_def)
  ultimately have "sort_key fst kvs = map f (sort_key fst js)" by (simp add: sort_key_map [of fst f fst])
  moreover have "those (map (\<lambda>(k, j). map_option (Pair k) (dec j)) (map (apfst tx) (sort_key fst js))) =
      Some (map (\<lambda>m. apfst tx (f m)) (sort_key fst js))"
    unfolding map_map by (rule those_map_Some) (use all in \<open>auto simp: f_def split: prod.splits\<close>)
  ultimately show ?thesis by (simp add: comp_def)
qed

lemma decode_encode_any: "conv_ok P \<Longrightarrow> encode_any tx P v = Some j \<Longrightarrow> decode_any P j = Some (sent_any tx v)"
proof (induction v arbitrary: j)
  case (AArr vs)
  then obtain js where js: "j = JArr js" "list_all2 (\<lambda>v j. encode_any tx P v = Some j) vs js" by (auto simp: those_Some)
  then have "list_all2 (\<lambda>j y. decode_any P j = Some y) js (map (sent_any tx) vs)"
    using AArr by (auto simp: list_all2_conv_all_nth)
  then show ?case using js(1) by (simp add: those_Some)
next
  case (AObj ms)
  then obtain js where js: "j = JObj (map (apfst tx) (sort_key fst js))"
      "those (map (\<lambda>(k, v). map_option (Pair k) (encode_any tx P v)) ms) = Some js" by auto
  have "those (map (\<lambda>(k, j). map_option (Pair k) (decode_any P j)) js) = Some (map (\<lambda>(k, v). (k, sent_any tx v)) ms)"
    by (rule decode_members [OF js(2)]) (use AObj in fastforce)
  from decode_members_keys [OF this, of tx] show ?case using js(1) by simp
next
  case (AStrs ss)
  then show ?case by (auto simp: those_map_Some [where g = "\<lambda>s. AStr (tx s)"] comp_def)
qed (auto simp: conv_ok_def split: if_splits)

lemma decode_encode_claims:
  assumes "conv_ok P" and "encode_claims tx P cs = Some j"
  shows "decode_claims P Map.empty j = Some (sent_claims tx cs)"
proof -
  let ?ms = "map (\<lambda>k. (tx k, the (cs k))) (sorted_list_of_set (dom cs))"
  obtain js where js: "j = JObj js" "those (map (\<lambda>(k, v). map_option (Pair k) (encode_any tx P v)) ?ms) = Some js"
    using assms(2) by (auto simp: encode_claims_def split: if_splits)
  have "those (map (\<lambda>(k, j). map_option (Pair k) (decode_any P j)) js) = Some (map (\<lambda>(k, v). (k, sent_any tx v)) ?ms)"
    by (rule decode_members [OF js(2)]) (use decode_encode_any [OF assms(1)] in blast)
  then show ?thesis using js(1) by (simp add: decode_claims_def sent_claims_def comp_def)
qed

text \<open>With strings kept as they are, the receiver's claims are the sender's, value by value.\<close>

lemma sent_claims_plain:
  assumes "finite (dom cs)"
  shows "sent_claims (\<lambda>s. s) cs = (\<lambda>k. map_option (sent_any (\<lambda>s. s)) (cs k))"
proof
  fix k
  let ?l = "map (\<lambda>k. (k, sent_any (\<lambda>s. s) (the (cs k)))) (sorted_list_of_set (dom cs))"
  have "map_of (rev ?l) = map_of ?l" by (subst map_of_inject_set) (simp_all add: comp_def rev_map [symmetric])
  then show "sent_claims (\<lambda>s. s) cs k = map_option (sent_any (\<lambda>s. s)) (cs k)"
    using assms by (cases "cs k") (auto simp: sent_claims_def map_of_map_restrict restrict_map_def dom_def)
qed

lemma decode_encode_time:
  assumes "conv_ok P" and "encode_time P t = Some j"
  shows "decode_time_value cur j = Some t"
  using assms parse_format_RFC3339 [of "if t = 0 then 0 else jc_offset P t" t]
  by (auto simp: encode_time_def decode_time_value_def conv_ok_def)

lemma parse_int_lit:
  assumes "minInt64 \<le> n" and "n \<le> maxInt64"
  shows "parse_int (int_lit n) = Some n"
proof (cases "n < 0")
  case True
  then show ?thesis using assms by (simp add: parse_int_def int_lit_def parse_nat_lit)
next
  case False
  obtain c ds where cd: "nat_lit (nat n) = c # ds" using nat_lit_digits [of "nat n"] by (cases "nat_lit (nat n)") auto
  moreover have "c \<noteq> CHR ''-''" using nat_lit_digits [of "nat n"] cd by (auto simp: is_digit_def)
  ultimately show ?thesis
    using assms False parse_nat_lit [of "nat n"] by (simp add: parse_int_def int_lit_def)
qed

lemma decode_encode_int: "encode_int n = Some j \<Longrightarrow> decode_int_value cur j = Some n"
  by (auto simp: encode_int_def decode_int_value_def parse_int_lit split: if_splits)

lemma decode_str_value_JStr [simp]: "decode_str_value cur (JStr s) = Some s"
  by (simp add: decode_str_value_def)

text \<open>A member is found by its name if no other member's name matches.\<close>

lemma decode_member_absent:
  "json_fold name \<notin> json_fold ` fst ` set ms \<Longrightarrow> decode_member name f ms cur = Some cur"
  by (induction ms) auto

lemma decode_member_unique:
  assumes "distinct (map (\<lambda>m. json_fold (fst m)) ms)" and "(name, v) \<in> set ms"
  shows "decode_member name f ms cur = f cur v"
  using assms
proof (induction ms)
  case (Cons m ms)
  obtain k u where m: "m = (k, u)" by fastforce
  show ?case
  proof (cases "m = (name, v)")
    case True
    then have "json_fold name \<notin> json_fold ` fst ` set ms" using Cons.prems(1) by (simp add: image_image)
    then show ?thesis using True by (simp add: decode_member_absent split: option.split)
  next
    case False
    then have "json_fold k \<noteq> json_fold name" using Cons.prems m by (auto simp: rev_image_eqI)
    then show ?thesis using Cons m False by auto
  qed
qed simp

section \<open>Encoded values as bytes\<close>

text \<open>What is encoded with \<open>json_string\<close> has proper numbers and strings: it is read back as it is (theory \<open>JsonText\<close>).\<close>

definition proper :: "json \<Rightarrow> bool" where
  "proper j \<longleftrightarrow> numbers_ok j \<and> norm_json j = j"

lemma proper_simps [simp]:
  "proper JNull" "proper (JBool b)" "proper (JNum lit) \<longleftrightarrow> json_number lit" "proper (JStr s) \<longleftrightarrow> json_string s = s"
  "proper (JArr vs) \<longleftrightarrow> (\<forall>v \<in> set vs. proper v)"
  "proper (JObj ms) \<longleftrightarrow> (\<forall>(k, v) \<in> set ms. json_string k = k \<and> proper v)"
proof -
  have l: "map f xs = xs \<longleftrightarrow> (\<forall>x \<in> set xs. f x = x)" for f :: "'a \<Rightarrow> 'a" and xs by (induction xs) auto
  show "proper (JArr vs) \<longleftrightarrow> (\<forall>v \<in> set vs. proper v)"
    by (auto simp: proper_def l list_all_iff)
  show "proper (JObj ms) \<longleftrightarrow> (\<forall>(k, v) \<in> set ms. json_string k = k \<and> proper v)"
    by (fastforce simp: proper_def l list_all_iff)
qed (simp_all add: proper_def)

lemma proper_Decode:
  "proper j \<Longrightarrow> json_Decode (json_Marshal j) = (if json_depth j \<le> maxNestingDepth then Some j else None)"
  "proper j \<Longrightarrow> json_Decode (json_Encode j) = (if json_depth j \<le> maxNestingDepth then Some j else None)"
  "proper j \<Longrightarrow> json_Unmarshal (json_Marshal j) = (if json_depth j \<le> maxNestingDepth then Some j else None)"
  "proper j \<Longrightarrow> json_Unmarshal (json_MarshalIndent j) = (if json_depth j \<le> maxNestingDepth then Some j else None)"
  by (simp_all add: proper_def json_Decode_Marshal json_Decode_Encode json_Unmarshal_Marshal json_Unmarshal_MarshalIndent)

lemma members_proper:
  assumes "those (map (\<lambda>(k, v). map_option (Pair k) (enc v)) ms) = Some js"
    and "\<And>k v j. (k, v) \<in> set ms \<Longrightarrow> enc v = Some j \<Longrightarrow> proper j"
  shows "\<forall>(k, j) \<in> set js. k \<in> fst ` set ms \<and> proper j"
  using assms
proof (induction ms arbitrary: js)
  case (Cons m ms)
  obtain k v where m: "m = (k, v)" by fastforce
  obtain j js' where j: "enc v = Some j" "js = (k, j) # js'"
      "those (map (\<lambda>(k, v). map_option (Pair k) (enc v)) ms) = Some js'"
    using Cons.prems(1) m by (auto split: option.splits)
  show ?case using Cons.IH [OF j(3)] Cons.prems(2) m j by fastforce
qed simp

lemma encode_any_proper: "conv_ok P \<Longrightarrow> encode_any json_string P v = Some j \<Longrightarrow> proper j"
proof (induction v arbitrary: j)
  case (AArr vs)
  then show ?case by (fastforce simp: those_Some list_all2_conv_all_nth in_set_conv_nth)
next
  case (AObj ms)
  then obtain js where js: "j = JObj (map (apfst json_string) (sort_key fst js))"
      "those (map (\<lambda>(k, v). map_option (Pair k) (encode_any json_string P v)) ms) = Some js" by auto
  have "\<forall>(k, j) \<in> set js. k \<in> fst ` set ms \<and> proper j"
    by (rule members_proper [OF js(2)]) (use AObj in fastforce)
  then show ?case using js(1) by (auto split: prod.splits)
qed (auto simp: conv_ok_def split: if_splits)

lemma encode_claims_proper: "conv_ok P \<Longrightarrow> encode_claims json_string P cs = Some j \<Longrightarrow> proper j"
proof -
  let ?ms = "map (\<lambda>k. (json_string k, the (cs k))) (sorted_list_of_set (dom cs))"
  assume P: "conv_ok P" and "encode_claims json_string P cs = Some j"
  then obtain js where js: "j = JObj js" "those (map (\<lambda>(k, v). map_option (Pair k) (encode_any json_string P v)) ?ms) = Some js"
    by (auto simp: encode_claims_def split: if_splits)
  have "\<forall>(k, j) \<in> set js. k \<in> fst ` set ?ms \<and> proper j"
    by (rule members_proper [OF js(2)]) (use encode_any_proper [OF P] in blast)
  then show ?thesis using js(1) by fastforce
qed

lemma encode_int_proper: "encode_int n = Some j \<Longrightarrow> proper j"
  by (auto simp: encode_int_def int_lit_number split: if_splits)

text \<open>Times are ASCII.\<close>

lemma pad_ascii: "0 \<le> n \<Longrightarrow> list_all (\<lambda>c. of_char c < (128::nat)) (pad k n)"
  using pad_digits [of n k] by (auto simp: list_all_iff is_digit_def)

lemma format_RFC3339_ascii: "format_RFC3339 off t = Some s \<Longrightarrow> list_all (\<lambda>c. of_char c < (128::nat)) s"
proof -
  have "list_all (\<lambda>c. of_char c < (128::nat)) (offset_text off)"
    by (simp add: offset_text_def Let_def pad_ascii)
  moreover have "list_all (\<lambda>c. of_char c < (128::nat)) (appendNano n)" if "0 \<le> n" for n
    using pad_ascii [OF that, of 9] by (auto simp: appendNano_def trim_zeros_def list_all_iff dest: set_dropWhileD)
  ultimately show "format_RFC3339 off t = Some s \<Longrightarrow> ?thesis"
    by (auto simp: format_RFC3339_def Let_def pad_ascii split: if_splits)
qed

lemma encode_time_proper: "encode_time P t = Some j \<Longrightarrow> proper j"
  using format_RFC3339_ascii json_string_ascii by (auto simp: encode_time_def)

section \<open>Concrete conversions\<close>

text \<open>A float by its bits, and a zone one hour east of Greenwich.\<close>

definition demo_json :: json_conv where
  "demo_json = \<lparr>jc_format = (\<lambda>w. nat_lit (unat w)), jc_parse = (\<lambda>s. map_option word_of_int (parse_digits s)),
     jc_offset = (\<lambda>_. 3600)\<rparr>"

lemma demo_json_ok: "conv_ok demo_json"
  using int_lit_number [of "int n" for n] by (simp add: conv_ok_def demo_json_def parse_nat_lit int_lit_def)

end
