(* ===== verification/ClientLib.thy ===== *)
theory ClientLib
  imports Handlers GoJson "HOL-Library.Monad_Syntax"
begin

text \<open>
  \<open>pkg/client/client.go\<close>: the library a login client uses. The network is the parameter \<open>transport\<close>: it takes
  a POST (URL and body) and gives an error or the status and the body of the answer, and it has a
  state of its own, of any type. \<open>json_conv\<close> holds what the JSON form of an artifact's times and claims takes from
  elsewhere (theory \<open>GoJson\<close>). The context of a call is the
  function that says whether it is done at the n-th wait.
\<close>

section \<open>Definitions\<close>

record client_StartRequest =
  cq_BrokerURL :: string
  cq_LoginHint :: string
  cq_ClientKind :: string
  cq_ClientHost :: string

record client_Session =
  cs_ID :: string
  cs_VerificationURI :: string
  cs_UserCode :: string
  cs_ExpiresIn :: duration
  cs_Interval :: duration
  cs_brokerURL :: string
  cs_verifier :: string

record 'n transport =
  tr_urlOK :: "string \<Rightarrow> bool"
  tr_Do :: "string \<Rightarrow> string \<Rightarrow> 'n \<Rightarrow> (string + int \<times> string) \<times> 'n"

definition newPKCEPair :: "world \<Rightarrow> (string \<times> string) option \<times> world" where
  "newPKCEPair w =
     (case rand_Read 32 w of
        (None, w1) \<Rightarrow> (None, w1)
      | (Some raw, w1) \<Rightarrow>
          let verifier = base64_RawURL raw;
              sum = sha256_Sum256 (bytes_of verifier);
              challenge = base64_RawURL sum
          in (Some (verifier, challenge), w1))"

definition startWireRequest :: "client_StartRequest \<Rightarrow> string \<Rightarrow> json" where
  "startWireRequest req challenge =
     JObj [(''login_hint'', JStr (json_string (cq_LoginHint req))),
           (''code_challenge'', JStr (json_string challenge)),
           (''code_challenge_method'', JStr ''S256''),
           (''client_kind'', JStr (json_string (cq_ClientKind req))),
           (''client_host'', JStr (json_string (cq_ClientHost req)))]"

fun decode_int_field :: "string \<Rightarrow> (string \<times> json) list \<Rightarrow> int \<Rightarrow> int option" where
  "decode_int_field name [] cur = Some cur"
| "decode_int_field name ((k, v) # ms) cur =
     (if json_fold k = json_fold name then
        (case v of
           JNum lit \<Rightarrow> (case parse_int lit of None \<Rightarrow> None | Some n \<Rightarrow> decode_int_field name ms n)
         | JNull \<Rightarrow> decode_int_field name ms cur
         | _ \<Rightarrow> None)
      else decode_int_field name ms cur)"

definition decode_int :: "string \<Rightarrow> json option \<Rightarrow> int option" where
  "decode_int name doc = (case json_members doc of None \<Rightarrow> None | Some ms \<Rightarrow> decode_int_field name ms 0)"

record startWireResponse =
  sw_SessionID :: string
  sw_VerificationURI :: string
  sw_UserCode :: string
  sw_ExpiresIn :: int
  sw_Interval :: int
  sw_Error :: string

definition decode_startWireResponse :: "string \<Rightarrow> startWireResponse option" where
  "decode_startWireResponse body =
     (let doc = json_Decode body in
      case (decode_string ''session_id'' doc, decode_string ''verification_uri'' doc, decode_string ''user_code'' doc,
            decode_int ''expires_in'' doc, decode_int ''interval'' doc, decode_string ''error'' doc) of
        (Some sid, Some uri, Some code, Some ex, Some iv, Some err) \<Rightarrow>
          Some \<lparr>sw_SessionID = sid, sw_VerificationURI = uri, sw_UserCode = code, sw_ExpiresIn = ex,
                sw_Interval = iv, sw_Error = err\<rparr>
      | _ \<Rightarrow> None)"

definition client_Start ::
  "'n transport \<Rightarrow> client_StartRequest \<Rightarrow> world \<Rightarrow> 'n \<Rightarrow> (string + client_Session) \<times> world \<times> 'n" where
  "client_Start T req w n =
     (if cq_BrokerURL req = '''' \<or> cq_LoginHint req = ''''
      then (Inl ''xdauth/client: BrokerURL and LoginHint are required'', w, n)
      else
     (case newPKCEPair w of
        (None, w1) \<Rightarrow> (Inl ''xdauth/client: generate pkce verifier'', w1, n)
      | (Some (verifier, challenge), w1) \<Rightarrow>
          let body = json_Marshal (startWireRequest req challenge);
              url = strings_TrimRight (CHR ''/'') (cq_BrokerURL req) @ ''/auth/start''
          in if \<not> tr_urlOK T url then (Inl ''xdauth/client: build start request'', w1, n)
             else
     (case tr_Do T url body n of
        (Inl err, n1) \<Rightarrow> (Inl (''xdauth/client: start request: '' @ err), w1, n1)
      | (Inr (status, doc), n1) \<Rightarrow>
     (case decode_startWireResponse doc of
        None \<Rightarrow> (Inl ''xdauth/client: decode start response'', w1, n1)
      | Some wire \<Rightarrow>
          if status \<noteq> 200 then (Inl (''xdauth/client: start failed: '' @ sw_Error wire), w1, n1)
          else (Inr \<lparr>cs_ID = sw_SessionID wire, cs_VerificationURI = sw_VerificationURI wire,
                     cs_UserCode = sw_UserCode wire,
                     cs_ExpiresIn = wrap64 (sw_ExpiresIn wire * second),
                     cs_Interval = wrap64 (sw_Interval wire * second),
                     cs_brokerURL = strings_TrimRight (CHR ''/'') (cq_BrokerURL req),
                     cs_verifier = verifier\<rparr>, w1, n1)))))"

definition pollWireRequest :: "client_Session \<Rightarrow> json" where
  "pollWireRequest s = JObj [(''session_id'', JStr (json_string (cs_ID s))), (''code_verifier'', JStr (json_string (cs_verifier s)))]"

text \<open>The artifact member, a pointer: null clears it, an object is decoded into what it points to.\<close>

definition zero_artifact :: Artifact where
  "zero_artifact = \<lparr>a_Subject = '''', a_Identity = '''', a_Claims = Map.empty, a_ApprovedAt = 0, a_ExpiresAt = 0\<rparr>"

definition decode_artifact :: "json_conv \<Rightarrow> Artifact option \<Rightarrow> json \<Rightarrow> Artifact option option" where
  "decode_artifact C cur v =
     (case v of
        JNull \<Rightarrow> Some None
      | JObj ms \<Rightarrow>
          let a = (case cur of Some a \<Rightarrow> a | None \<Rightarrow> zero_artifact) in
          do {
            su \<leftarrow> decode_member ''subject'' decode_str_value ms (a_Subject a);
            ident \<leftarrow> decode_member ''identity'' decode_str_value ms (a_Identity a);
            cs \<leftarrow> decode_member ''claims'' (decode_claims C) ms (a_Claims a);
            ap \<leftarrow> decode_member ''approved_at'' decode_time_value ms (a_ApprovedAt a);
            ex \<leftarrow> decode_member ''expires_at'' decode_time_value ms (a_ExpiresAt a);
            Some (Some \<lparr>a_Subject = su, a_Identity = ident, a_Claims = cs, a_ApprovedAt = ap, a_ExpiresAt = ex\<rparr>)
          }
      | _ \<Rightarrow> None)"

record pollWireResponse =
  pw_Status :: string
  pw_Artifact :: "Artifact option"
  pw_Error :: string

definition decode_pollWireResponse :: "json_conv \<Rightarrow> string \<Rightarrow> pollWireResponse option" where
  "decode_pollWireResponse C body =
     (let doc = json_Decode body in
      case (json_members doc, decode_string ''status'' doc, decode_string ''error'' doc) of
        (Some ms, Some status, Some err) \<Rightarrow>
          (case decode_member ''artifact'' (decode_artifact C) ms None of
             None \<Rightarrow> None
           | Some a \<Rightarrow> Some \<lparr>pw_Status = status, pw_Artifact = a, pw_Error = err\<rparr>)
      | _ \<Rightarrow> None)"

definition pollOnce ::
  "json_conv \<Rightarrow> 'n transport \<Rightarrow> client_Session \<Rightarrow> 'n \<Rightarrow> (string + string \<times> Artifact option) \<times> 'n" where
  "pollOnce C T s n =
     (let body = json_Marshal (pollWireRequest s); url = cs_brokerURL s @ ''/auth/poll'' in
      if \<not> tr_urlOK T url then (Inl ''xdauth/client: build poll request'', n)
      else
     (case tr_Do T url body n of
        (Inl err, n1) \<Rightarrow> (Inl (''xdauth/client: poll request: '' @ err), n1)
      | (Inr (status, doc), n1) \<Rightarrow>
     (case decode_pollWireResponse C doc of
        None \<Rightarrow> (Inl ''xdauth/client: decode poll response'', n1)
      | Some wire \<Rightarrow>
          if status \<noteq> 200 then (Inl (''xdauth/client: poll failed: '' @ pw_Error wire), n1)
          else (Inr (pw_Status wire, pw_Artifact wire), n1))))"

record client_Result =
  rr_Status :: string
  rr_Artifact :: "Artifact option"

text \<open>
  The loop of \<open>Poll\<close>, with fuel for its rounds: \<open>i\<close> counts the waits, \<open>interval\<close> is the wait in force, and the
  intervals the timer was set to are collected, newest first. \<open>ctxDone i\<close> says that the \<open>select\<close> of round \<open>i\<close>
  takes the context's branch. No fuel left is \<open>None\<close>.
\<close>

fun poll_loop ::
  "nat \<Rightarrow> json_conv \<Rightarrow> 'n transport \<Rightarrow> (nat \<Rightarrow> bool) \<Rightarrow> client_Session \<Rightarrow> nat \<Rightarrow> duration \<Rightarrow> duration list \<Rightarrow> 'n
     \<Rightarrow> ((string + client_Result) \<times> duration list \<times> 'n) option" where
  "poll_loop 0 C T ctxDone s i interval waits n = None"
| "poll_loop (Suc fuel) C T ctxDone s i interval waits n =
     (if ctxDone i then Some (Inl ''context done'', waits, n)
      else
     (case pollOnce C T s n of
        (Inl err, n1) \<Rightarrow> Some (Inl err, waits, n1)
      | (Inr (status, artifact), n1) \<Rightarrow>
          if status = ''pending''
          then poll_loop fuel C T ctxDone s (Suc i) interval (interval # waits) n1
          else if status = ''slow_down''
          then let interval' = wrap64 (interval + sgn interval * (\<bar>interval\<bar> div 2)) in
               poll_loop fuel C T ctxDone s (Suc i) interval' (interval' # waits) n1
          else if status = ''approved'' \<or> status = ''denied'' \<or> status = ''expired''
          then Some (Inr \<lparr>rr_Status = status, rr_Artifact = artifact\<rparr>, waits, n1)
          else Some (Inl ''xdauth/client: unexpected status'', waits, n1)))"

definition client_Poll ::
  "nat \<Rightarrow> json_conv \<Rightarrow> 'n transport \<Rightarrow> (nat \<Rightarrow> bool) \<Rightarrow> client_Session \<Rightarrow> 'n
     \<Rightarrow> ((string + client_Result) \<times> duration list \<times> 'n) option" where
  "client_Poll fuel C T ctxDone s n =
     (let interval = (if cs_Interval s \<le> 0 then 3 * second else cs_Interval s)
      in poll_loop fuel C T ctxDone s 0 interval [] n)"

section \<open>The other end of the wire\<close>

text \<open>The JSON the broker's \<open>writeJSON\<close> sends: decimal integers, and members left out when empty.\<close>

definition json_of_start :: "startResponse \<Rightarrow> json" where
  "json_of_start r =
     JObj [(''session_id'', JStr (json_string (sr_SessionID r))), (''verification_uri'', JStr (json_string (sr_VerificationURI r))),
           (''user_code'', JStr (json_string (sr_UserCode r))), (''expires_in'', JNum (int_lit (sr_ExpiresIn r))),
           (''interval'', JNum (int_lit (sr_Interval r)))]"

text \<open>The JSON of an artifact; where it has none, \<open>writeJSON\<close> sends an empty body.\<close>

definition json_of_artifact :: "json_conv \<Rightarrow> Artifact \<Rightarrow> json option" where
  "json_of_artifact C a = do {
     cs \<leftarrow> encode_claims json_string C (a_Claims a);
     ap \<leftarrow> encode_time C (a_ApprovedAt a);
     ex \<leftarrow> encode_time C (a_ExpiresAt a);
     Some (JObj [(''subject'', JStr (json_string (a_Subject a))), (''identity'', JStr (json_string (a_Identity a))),
       (''claims'', cs), (''approved_at'', ap), (''expires_at'', ex)])
   }"

definition json_of_poll :: "json_conv \<Rightarrow> pollResponse \<Rightarrow> json option" where
  "json_of_poll C p = do {
     art \<leftarrow> (case po_Artifact p of None \<Rightarrow> Some [] | Some a \<Rightarrow> map_option (\<lambda>j. [(''artifact'', j)]) (json_of_artifact C a));
     Some (JObj ((''status'', JStr (json_string (po_Status p))) # art @
       (if po_Error p = '''' then [] else [(''error'', JStr (json_string (po_Error p)))])))
   }"

section \<open>Lemmas\<close>

lemma wire_names:
  "json_fold ''verification_uri'' = ''VERIFICATION_URI''" "json_fold ''user_code'' = ''USER_CODE''"
  "json_fold ''expires_in'' = ''EXPIRES_IN''" "json_fold ''interval'' = ''INTERVAL''"
  "json_fold ''error'' = ''ERROR''" "json_fold ''status'' = ''STATUS''" "json_fold ''artifact'' = ''ARTIFACT''"
  by (simp_all add: ascii_upper_def char_of_eq_iff)

text \<open>What the client gets of an artifact.\<close>

definition sent_artifact :: "Artifact \<Rightarrow> Artifact" where
  "sent_artifact a = a\<lparr>a_Subject := json_string (a_Subject a), a_Identity := json_string (a_Identity a),
     a_Claims := sent_claims json_string (a_Claims a)\<rparr>"

lemma artifact_names_distinct:
  "distinct (map (\<lambda>m. json_fold (fst m))
    [(''subject'', a), (''identity'', b), (''claims'', c), (''approved_at'', d), (''expires_at'', e :: json)])"
  by (simp add: ascii_upper_def)

lemma json_of_artifact_members:
  assumes "json_of_artifact C a = Some j"
  obtains cs ap ex where "encode_claims json_string C (a_Claims a) = Some cs" "encode_time C (a_ApprovedAt a) = Some ap"
    "encode_time C (a_ExpiresAt a) = Some ex"
    "j = JObj [(''subject'', JStr (json_string (a_Subject a))), (''identity'', JStr (json_string (a_Identity a))),
       (''claims'', cs), (''approved_at'', ap), (''expires_at'', ex)]"
  using assms by (auto simp: json_of_artifact_def bind_eq_Some_conv)

lemma decode_artifact_sent:
  assumes "conv_ok C" and "json_of_artifact C a = Some j"
  shows "decode_artifact C None j = Some (Some (sent_artifact a))"
  using assms(2)
proof (cases rule: json_of_artifact_members)
  case (1 cs ap ex)
  then show ?thesis
    using decode_encode_claims [OF assms(1) 1(1)] decode_encode_time [OF assms(1) 1(2)] decode_encode_time [OF assms(1) 1(3)]
    by (simp add: decode_artifact_def decode_member_unique [OF artifact_names_distinct] zero_artifact_def sent_artifact_def
        del: decode_member.simps)
qed

text \<open>The identity is read as it was sent, whatever becomes of the rest.\<close>

lemma decode_artifact_identity:
  assumes "json_of_artifact C a = Some j" and "decode_artifact C None j = Some art"
  shows "\<exists>a'. art = Some a' \<and> a_Identity a' = json_string (a_Identity a)"
  using assms(1)
proof (cases rule: json_of_artifact_members)
  case (1 cs ap ex)
  then show ?thesis
    using assms(2)
    by (auto simp: decode_artifact_def decode_member_unique [OF artifact_names_distinct] bind_eq_Some_conv
        simp del: decode_member.simps)
qed

lemmas wire_text = proper_Decode maxNestingDepth_def json_string_ascii int_lit_number

lemmas wire_simps = fold_names wire_names decode_string_def decode_int_def json_members_def

lemma decode_startRequest_wire:
  "decode_startRequest (json_Marshal (startWireRequest req challenge)) =
      Some \<lparr>sq_LoginHint = json_string (cq_LoginHint req), sq_CodeChallenge = json_string challenge, sq_CodeChallengeMethod = ''S256'',
            sq_ClientKind = json_string (cq_ClientKind req), sq_ClientHost = json_string (cq_ClientHost req)\<rparr>"
  by (simp add: decode_startRequest_def startWireRequest_def wire_text wire_simps del: json_fold.simps)

text \<open>Login names that differ only in bytes that are not UTF-8 give the same request.\<close>

lemma invalid_names_look_alike:
  assumes "utf8_len [b] = 0" and "utf8_len [b'] = 0"
  shows "startWireRequest (req\<lparr>cq_LoginHint := [b]\<rparr>) c = startWireRequest (req\<lparr>cq_LoginHint := [b']\<rparr>) c"
  using assms by (simp add: startWireRequest_def json_string_bad)

lemma decode_pollRequest_wire:
  "decode_pollRequest (json_Marshal (pollWireRequest s)) = Some \<lparr>pq_SessionID = json_string (cs_ID s), pq_CodeVerifier = json_string (cs_verifier s)\<rparr>"
  by (simp add: decode_pollRequest_def pollWireRequest_def wire_text wire_simps del: json_fold.simps)

lemma decode_start_sent:
  assumes "minInt64 \<le> sr_ExpiresIn sr" and "sr_ExpiresIn sr \<le> maxInt64"
    and "minInt64 \<le> sr_Interval sr" and "sr_Interval sr \<le> maxInt64"
  shows "decode_startWireResponse (json_Encode (json_of_start sr)) =
      Some \<lparr>sw_SessionID = json_string (sr_SessionID sr), sw_VerificationURI = json_string (sr_VerificationURI sr), sw_UserCode = json_string (sr_UserCode sr),
            sw_ExpiresIn = sr_ExpiresIn sr, sw_Interval = sr_Interval sr, sw_Error = ''''\<rparr>"
  using parse_int_lit [OF assms(1,2)] parse_int_lit [OF assms(3,4)]
  by (simp add: decode_startWireResponse_def json_of_start_def wire_text wire_simps del: json_fold.simps)

lemma json_of_poll_members:
  assumes "json_of_poll C p = Some j"
  obtains "po_Artifact p = None" "j = JObj ((''status'', JStr (json_string (po_Status p))) #
       (if po_Error p = '''' then [] else [(''error'', JStr (json_string (po_Error p)))]))"
  | a aj where "po_Artifact p = Some a" "json_of_artifact C a = Some aj"
    "j = JObj ((''status'', JStr (json_string (po_Status p))) # (''artifact'', aj) #
       (if po_Error p = '''' then [] else [(''error'', JStr (json_string (po_Error p)))]))"
  using assms by (auto simp: json_of_poll_def bind_eq_Some_conv split: option.splits)

lemma json_of_artifact_proper:
  assumes "conv_ok C" and "json_of_artifact C a = Some j"
  shows "proper j"
  using assms(2)
proof (cases rule: json_of_artifact_members)
  case (1 cs ap ex)
  then show ?thesis
    using encode_claims_proper [OF assms(1) 1(1)] encode_time_proper [OF 1(2)] encode_time_proper [OF 1(3)]
    by (simp add: json_string_ascii)
qed

lemma json_of_poll_proper: "conv_ok C \<Longrightarrow> json_of_poll C p = Some j \<Longrightarrow> proper j"
  by (erule json_of_poll_members) (auto simp: json_string_ascii json_of_artifact_proper)

text \<open>Decoding a poll answer comes down to decoding its artifact, if it is not nested too deep.\<close>

lemma decode_poll_artifact:
  assumes "conv_ok C" and "json_of_poll C p = Some j"
  shows "decode_pollWireResponse C (json_Encode j) =
    (if json_depth j \<le> maxNestingDepth then
       map_option (\<lambda>art. \<lparr>pw_Status = json_string (po_Status p), pw_Artifact = art, pw_Error = json_string (po_Error p)\<rparr>)
         (case po_Artifact p of None \<Rightarrow> Some None | Some a \<Rightarrow> decode_artifact C None (the (json_of_artifact C a)))
     else None)"
proof -
  have d: "json_Decode (json_Encode j) = (if json_depth j \<le> maxNestingDepth then Some j else None)"
    by (rule proper_Decode(2)) (rule json_of_poll_proper [OF assms])
  show ?thesis
  proof (cases "json_depth j \<le> maxNestingDepth")
    case True
    then have "json_Decode (json_Encode j) = Some j" using d by simp
    with True show ?thesis
      by (cases rule: json_of_poll_members [OF assms(2)])
        (auto simp: decode_pollWireResponse_def wire_simps simp del: json_fold.simps split: option.splits)
  qed (simp add: decode_pollWireResponse_def d json_members_def)
qed

lemma decode_poll_sent:
  assumes "conv_ok C" and "json_of_poll C p = Some j" and "json_depth j \<le> maxNestingDepth"
  shows "decode_pollWireResponse C (json_Encode j) =
      Some \<lparr>pw_Status = json_string (po_Status p), pw_Artifact = map_option sent_artifact (po_Artifact p), pw_Error = json_string (po_Error p)\<rparr>"
  unfolding decode_poll_artifact [OF assms(1,2)] using assms(2,3)
  by (cases rule: json_of_poll_members) (simp_all add: decode_artifact_sent [OF assms(1)])

text \<open>One round of the loop: the next wait a status asks for, or the final outcome.\<close>

definition next_wait :: "string \<Rightarrow> duration \<Rightarrow> duration option" where
  "next_wait status iv =
     (if status = ''pending'' then Some iv
      else if status = ''slow_down'' then Some (wrap64 (iv + sgn iv * (\<bar>iv\<bar> div 2))) else None)"

definition final_outcome :: "string \<Rightarrow> Artifact option \<Rightarrow> string + client_Result" where
  "final_outcome status artifact =
     (if status = ''approved'' \<or> status = ''denied'' \<or> status = ''expired''
      then Inr \<lparr>rr_Status = status, rr_Artifact = artifact\<rparr> else Inl ''xdauth/client: unexpected status'')"

lemma poll_loop_Suc:
  "poll_loop (Suc fuel) C T ctxDone s i iv waits n =
     (if ctxDone i then Some (Inl ''context done'', waits, n)
      else case pollOnce C T s n of
        (Inl err, n1) \<Rightarrow> Some (Inl err, waits, n1)
      | (Inr (status, artifact), n1) \<Rightarrow>
         (case next_wait status iv of
            Some iv' \<Rightarrow> poll_loop fuel C T ctxDone s (Suc i) iv' (iv' # waits) n1
          | None \<Rightarrow> Some (final_outcome status artifact, waits, n1)))"
  by (simp add: next_wait_def final_outcome_def Let_def split: sum.split prod.split)

declare poll_loop.simps(2) [simp del]

definition terminal_result :: "string + client_Result \<Rightarrow> bool" where
  "terminal_result out \<longleftrightarrow>
     (case out of Inl _ \<Rightarrow> True | Inr res \<Rightarrow> rr_Status res \<in> {''approved'', ''denied'', ''expired''})"

lemma poll_loop_round:
  assumes "poll_loop fuel C T ctxDone s i iv waits n = Some (out, ws, n')"
  obtains "ws = waits" and "terminal_result out"
  | fuel' status iv' n1 where "fuel = Suc fuel'" and "next_wait status iv = Some iv'"
      and "poll_loop fuel' C T ctxDone s (Suc i) iv' (iv' # waits) n1 = Some (out, ws, n')"
proof (cases fuel)
  case (Suc fuel')
  have "terminal_result (final_outcome st a)" for st a by (simp add: terminal_result_def final_outcome_def)
  then show ?thesis
    using assms that(1) that(2) [OF Suc] Suc
    by (auto simp: poll_loop_Suc terminal_result_def split: if_splits sum.splits prod.splits option.splits)
qed (use assms in simp)

text \<open>The loop ends when the context is done, and with a terminal status otherwise.\<close>

lemma poll_loop_ends:
  assumes "ctxDone k"
  shows "k = i + d \<Longrightarrow> d < fuel \<Longrightarrow>
    \<exists>out ws n'. length ws \<le> d \<and> (\<forall>m. poll_loop (fuel + m) C T ctxDone s i iv waits n = Some (out, ws @ waits, n'))"
proof (induction fuel arbitrary: i d iv waits n)
  case (Suc fuel)
  show ?case
  proof (cases "ctxDone i")
    case True
    then show ?thesis by (auto simp: poll_loop_Suc intro: exI [of _ "[]"])
  next
    case False
    then obtain d' where d: "d = Suc d'" using assms Suc.prems(1) by (cases d) auto
    have next_round: "\<exists>out ws n'. length ws \<le> d \<and> (\<forall>m. poll_loop (fuel + m) C T ctxDone s (Suc i) iv' (x # waits) n1 =
        Some (out, ws @ waits, n'))" for iv' x n1
    proof -
      obtain out ws n' where *: "length ws \<le> d'"
          "\<And>m. poll_loop (fuel + m) C T ctxDone s (Suc i) iv' (x # waits) n1 = Some (out, ws @ x # waits, n')"
        using Suc.IH [of "Suc i" d' iv' "x # waits" n1] Suc.prems d by auto
      show ?thesis by (rule exI [of _ out], rule exI [of _ "ws @ [x]"], rule exI [of _ n']) (simp add: * d)
    qed
    obtain res n1 where p: "pollOnce C T s n = (res, n1)" by force
    consider err where "res = Inl err" | st a where "res = Inr (st, a)" "next_wait st iv = None"
      | st a iv' where "res = Inr (st, a)" "next_wait st iv = Some iv'" by (metis not_Some_eq obj_sumE surj_pair)
    then show ?thesis
      by cases (use False p next_round in \<open>auto simp: poll_loop_Suc intro: exI [of _ "[]"]\<close>)
  qed
qed simp

lemma poll_loop_status:
  "poll_loop fuel C T ctxDone s i iv waits n = Some (out, ws, n') \<Longrightarrow> terminal_result out \<and> set waits \<subseteq> set ws"
proof (induction fuel arbitrary: i iv waits n)
  case (Suc fuel)
  from Suc.prems show ?case
  proof (cases rule: poll_loop_round)
    case (2 fuel' status iv' n1)
    then show ?thesis using Suc.IH [of "Suc i" iv' "iv' # waits" n1] by simp
  qed simp
qed simp

text \<open>A wait of at most \<open>2 ^ 62\<close> grows by half without overflow.\<close>

lemma backoff_grows:
  assumes "0 < iv" and "iv \<le> 2 ^ 62"
  shows "iv \<le> wrap64 (iv + sgn iv * (\<bar>iv\<bar> div 2))"
proof -
  have "sgn iv * (\<bar>iv\<bar> div 2) = iv div 2" using assms by simp
  moreover have "minInt64 \<le> iv + iv div 2" "iv + iv div 2 \<le> maxInt64"
    using assms by (simp_all add: minInt64_def maxInt64_def)
  ultimately show ?thesis using assms by (simp add: wrap64_id)
qed

lemma poll_loop_waits:
  "poll_loop fuel C T ctxDone s i iv waits n = Some (out, ws, n') \<Longrightarrow> 0 < iv \<Longrightarrow> iv \<le> 2 ^ 62 \<Longrightarrow>
    sorted (rev waits) \<and> (\<forall>x \<in> set waits. x \<le> iv) \<Longrightarrow> \<forall>x \<in> set ws. x \<le> 2 ^ 62 \<Longrightarrow>
    sorted (rev ws) \<and> (\<forall>x \<in> set ws. x \<in> set waits \<or> iv \<le> x)"
proof (induction fuel arbitrary: i iv waits n)
  case (Suc fuel)
  from Suc.prems(1) show ?case
  proof (cases rule: poll_loop_round)
    case 1
    then show ?thesis using Suc.prems by auto
  next
    case (2 fuel' status iv' n1)
    have g: "iv \<le> iv'" using 2(2) Suc.prems(2,3) backoff_grows by (auto simp: next_wait_def split: if_splits)
    have b: "iv' \<le> 2 ^ 62" using poll_loop_status [OF 2(3)] Suc.prems(5) by simp
    have w: "sorted (rev (iv' # waits)) \<and> (\<forall>x \<in> set (iv' # waits). x \<le> iv')"
      using Suc.prems(4) g by (fastforce simp: sorted_append)
    have "sorted (rev ws) \<and> (\<forall>x \<in> set ws. x \<in> set (iv' # waits) \<or> iv' \<le> x)"
      using Suc.IH [OF _ _ b w Suc.prems(5)] 2(1,3) g Suc.prems(2) by simp
    then show ?thesis using g by auto
  qed
qed simp

section \<open>A concrete artifact\<close>

definition demo_wire_artifact :: Artifact where
  "demo_wire_artifact = \<lparr>a_Subject = ''sub'', a_Identity = ''alice'', a_Claims = Map.empty, a_ApprovedAt = 0, a_ExpiresAt = 60 * second\<rparr>"

lemma demo_artifact_times: "Option.is_none (encode_time demo_json 0) = False" "Option.is_none (encode_time demo_json (60 * second)) = False"
  by code_simp+

lemma demo_wire_artifact_json: "\<exists>j. json_of_artifact demo_json demo_wire_artifact = Some j \<and> json_depth j \<le> 2"
  using demo_artifact_times
  by (simp add: json_of_artifact_def demo_wire_artifact_def encode_claims_def Option.is_none_def) (elim exE; auto simp: encode_time_def)

lemma demo_wire_artifact_sent: "sent_artifact demo_wire_artifact = demo_wire_artifact"
  by (simp add: sent_artifact_def demo_wire_artifact_def sent_claims_def json_string_ascii)

text \<open>A session, and a broker that first says \<open>slow_down\<close> and then \<open>denied\<close>.\<close>

definition demo_client_session :: client_Session where
  "demo_client_session =
     \<lparr>cs_ID = ''s'', cs_VerificationURI = ''u'', cs_UserCode = ''c'', cs_ExpiresIn = 300 * second,
      cs_Interval = 4 * second, cs_brokerURL = ''https://b'', cs_verifier = ''v''\<rparr>"

definition demo_slow_transport :: "nat transport" where
  "demo_slow_transport =
     \<lparr>tr_urlOK = (\<lambda>_. True),
      tr_Do = (\<lambda>url body n.
        (Inr (200, json_Encode (JObj [(''status'', JStr (if n = 0 then ''slow_down'' else ''denied''))])), n + 1))\<rparr>"

section \<open>Properties\<close>

text \<open>The client's PKCE pair passes the broker's check: a verifier and challenge drawn by the client are
  accepted by \<open>verifyClientPKCE\<close>, and drawing one fails only if the random source does.\<close>

theorem client_pkce_pair_accepted:
  assumes "\<not> w_rfail w (w_rpos w)"
  shows "\<exists>v c w'. newPKCEPair w = (Some (v, c), w') \<and> verifyClientPKCE v c \<and> length v = 43"
proof -
  obtain raw w1 where r: "rand_Read 32 w = (Some raw, w1)" using assms by (simp add: rand_Read_def)
  then have "length raw = 32" by (rule rand_Read_length)
  then have l: "length (base64_RawURL raw) = 43" by (simp add: length_base64_RawURL)
  then have "base64_RawURL raw \<noteq> ''''" by auto
  then show ?thesis using r l by (simp add: newPKCEPair_def Let_def verifyClientPKCE_iff S256_def)
qed

theorem client_pkce_pair_accepted_witness:
  "\<exists>v c w'. newPKCEPair \<lparr>w_rand = (\<lambda>i. 7), w_rfail = (\<lambda>_. False), w_rpos = 0, w_clock = int, w_tick = 0\<rparr> =
     (Some (v, c), w') \<and> verifyClientPKCE v c \<and> length v = 43"
  by (rule client_pkce_pair_accepted) simp

text \<open>C25: Client and broker agree on the wire, byte by byte. The broker decodes the client's start and poll requests to the
  fields the client put in; the client decodes the broker's start answer and poll answers to the fields the
  broker put in, with a replacement character for every byte that is not UTF-8, times to the nanosecond and claims as
  JSON represents them.\<close>

theorem wire_formats_agree:
  assumes "conv_ok C" and "json_of_poll C p = Some j" and "json_depth j \<le> maxNestingDepth"
    and "minInt64 \<le> sr_ExpiresIn sr" and "sr_ExpiresIn sr \<le> maxInt64"
    and "minInt64 \<le> sr_Interval sr" and "sr_Interval sr \<le> maxInt64"
  shows "decode_startRequest (json_Marshal (startWireRequest req challenge)) =
      Some \<lparr>sq_LoginHint = json_string (cq_LoginHint req), sq_CodeChallenge = json_string challenge, sq_CodeChallengeMethod = ''S256'',
            sq_ClientKind = json_string (cq_ClientKind req), sq_ClientHost = json_string (cq_ClientHost req)\<rparr> \<and>
    decode_pollRequest (json_Marshal (pollWireRequest s)) = Some \<lparr>pq_SessionID = json_string (cs_ID s), pq_CodeVerifier = json_string (cs_verifier s)\<rparr> \<and>
    decode_startWireResponse (json_Encode (json_of_start sr)) =
      Some \<lparr>sw_SessionID = json_string (sr_SessionID sr), sw_VerificationURI = json_string (sr_VerificationURI sr), sw_UserCode = json_string (sr_UserCode sr),
            sw_ExpiresIn = sr_ExpiresIn sr, sw_Interval = sr_Interval sr, sw_Error = ''''\<rparr> \<and>
    decode_pollWireResponse C (json_Encode j) =
      Some \<lparr>pw_Status = json_string (po_Status p), pw_Artifact = map_option sent_artifact (po_Artifact p), pw_Error = json_string (po_Error p)\<rparr>"
  using assms by (simp add: decode_startRequest_wire decode_pollRequest_wire decode_start_sent decode_poll_sent)

theorem wire_formats_agree_witness:
  "decode_startRequest (json_Marshal (startWireRequest \<lparr>cq_BrokerURL = ''https://b'', cq_LoginHint = ''alice'',
       cq_ClientKind = ''cli'', cq_ClientHost = ''host''\<rparr> ''ch'')) =
     Some \<lparr>sq_LoginHint = ''alice'', sq_CodeChallenge = ''ch'', sq_CodeChallengeMethod = ''S256'',
           sq_ClientKind = ''cli'', sq_ClientHost = ''host''\<rparr> \<and>
   (\<exists>j. json_of_poll demo_json \<lparr>po_Status = ''approved'', po_Artifact = Some demo_wire_artifact, po_Error = ''''\<rparr> = Some j \<and>
     decode_pollWireResponse demo_json (json_Encode j) =
       Some \<lparr>pw_Status = ''approved'', pw_Artifact = Some demo_wire_artifact, pw_Error = ''''\<rparr>)"
proof -
  let ?p = "\<lparr>po_Status = ''approved'', po_Artifact = Some demo_wire_artifact, po_Error = ''''\<rparr>"
  obtain j where j: "json_of_poll demo_json ?p = Some j" "json_depth j \<le> maxNestingDepth"
    using demo_wire_artifact_json by (auto simp: json_of_poll_def maxNestingDepth_def)
  then show ?thesis
    using wire_formats_agree [OF demo_json_ok j(1) j(2), of
        "\<lparr>sr_SessionID = ''s'', sr_VerificationURI = ''u'', sr_UserCode = ''c'', sr_ExpiresIn = 300, sr_Interval = 3\<rparr>"
        "\<lparr>cq_BrokerURL = ''https://b'', cq_LoginHint = ''alice'', cq_ClientKind = ''cli'', cq_ClientHost = ''host''\<rparr>" "''ch''"]
    by (simp add: minInt64_def maxInt64_def json_string_ascii demo_wire_artifact_sent)
qed

text \<open>C26: \<open>Poll\<close> returns once its context is done: if round k finds it done, the loop ends within k waits, whatever
  the broker answers, and more fuel does not change the outcome.\<close>

theorem client_poll_returns:
  assumes "ctxDone k" and "k < fuel"
  shows "\<exists>out waits n'. length waits \<le> k \<and> (\<forall>m. client_Poll (fuel + m) C T ctxDone s n = Some (out, waits, n'))"
  using poll_loop_ends [of ctxDone k 0 k fuel C T s "if cs_Interval s \<le> 0 then 3 * second else cs_Interval s" "[]" n] assms
  unfolding client_Poll_def Let_def by simp

theorem client_poll_returns_witness:
  "\<exists>out waits n'. length waits \<le> 2 \<and>
     (\<forall>m. client_Poll (3 + m) demo_json demo_slow_transport (\<lambda>i. i = 2) demo_client_session 0 = Some (out, waits, n'))"
  by (rule client_poll_returns) simp_all

text \<open>What \<open>Poll\<close> returns and how it paces itself. A result carries one of the three terminal statuses. The
  first wait is at least the session's interval (three seconds if it has none), and waits never get shorter, as long
  as none exceeds \<open>2 ^ 62\<close> nanoseconds (146 years).\<close>

theorem client_poll_outcome:
  assumes "client_Poll fuel C T ctxDone s n = Some (out, waits, n')"
    and "cs_Interval s \<le> 2 ^ 62" and "\<forall>x \<in> set waits. x \<le> 2 ^ 62"
  shows "(case out of Inl _ \<Rightarrow> True | Inr res \<Rightarrow> rr_Status res \<in> {''approved'', ''denied'', ''expired''}) \<and>
    sorted (rev waits) \<and> (\<forall>x \<in> set waits. (if cs_Interval s \<le> 0 then 3 * second else cs_Interval s) \<le> x)"
proof -
  let ?iv = "if cs_Interval s \<le> 0 then 3 * second else cs_Interval s"
  have l: "poll_loop fuel C T ctxDone s 0 ?iv [] n = Some (out, waits, n')"
    using assms(1) by (simp add: client_Poll_def Let_def)
  have "0 < ?iv" "?iv \<le> 2 ^ 62" using assms(2) by simp_all
  from poll_loop_waits [OF l this _ assms(3)] poll_loop_status [OF l] show ?thesis
    by (simp add: terminal_result_def)
qed

theorem client_poll_outcome_witness:
  "client_Poll (Suc (Suc 0)) demo_json demo_slow_transport (\<lambda>i. False) demo_client_session 0 =
     Some (Inr \<lparr>rr_Status = ''denied'', rr_Artifact = None\<rparr>, [6 * second], 2) \<and>
   sorted (rev [6 * second]) \<and> 4 * second \<le> 6 * second"
proof -
  have p: "pollOnce demo_json demo_slow_transport demo_client_session n =
      (Inr (if n = 0 then ''slow_down'' else ''denied'', None), n + 1)" for n
    by (simp add: pollOnce_def demo_slow_transport_def Let_def decode_pollWireResponse_def wire_text wire_simps del: json_fold.simps)
  have c: "client_Poll (Suc (Suc 0)) demo_json demo_slow_transport (\<lambda>i. False) demo_client_session 0 =
      Some (Inr \<lparr>rr_Status = ''denied'', rr_Artifact = None\<rparr>, [6 * second], 2)"
    by (simp add: client_Poll_def poll_loop_Suc p next_wait_def final_outcome_def wrap64_def demo_client_session_def [THEN arg_cong, of cs_Interval])
  show ?thesis using client_poll_outcome [OF c] c by (simp add: demo_client_session_def)
qed

end
