(* ===== verification/ClientCmds.thy ===== *)
theory ClientCmds
  imports ClientLib GoNet
begin

text \<open>
  The programs that log somebody in with the client library: \<open>cmd/xdauth-pam\<close> (a helper for \<open>pam_exec\<close>),
  \<open>cmd/xdauth-login\<close> (a command line tool), \<open>cmd/xdauth-pam-native\<close> (a PAM module) and \<open>cmd/xdauth-sshd\<close> (an SSH
  server). The operating system, PAM and the SSH library are arguments: the environment, the arguments, the host
  name (empty on an error, which the programs ignore), the PAM handle, the SSH handshake. The network is the
  \<open>transport\<close> of theory \<open>ClientLib\<close>, and a run that polls is given fuel for its polls; \<open>None\<close> is a run that has not
  ended.
\<close>

section \<open>xdauth-pam\<close>

text \<open>A finished process: its exit code and what it printed, in order.\<close>

record process =
  px_code :: int
  px_stdout :: "string list"
  px_stderr :: "string list"

definition nl :: string where
  "nl = [CHR 0x0A]"

definition pam_fail :: "string list \<Rightarrow> string \<Rightarrow> process" where
  "pam_fail out msg = \<lparr>px_code = 1, px_stdout = out, px_stderr = [''xdauth-pam: '' @ msg @ nl]\<rparr>"

definition pam_prompt :: "client_Session \<Rightarrow> string" where
  "pam_prompt s = ''xdauth: to finish signing in, visit:'' @ nl @ nl @ ''  '' @ cs_VerificationURI s @ nl @ nl @
     ''and enter the code: '' @ cs_UserCode s @ nl @ nl"

text \<open>What the program reads before it talks to the broker: the broker's URL and the start request.\<close>

definition pam_broker :: "(string \<Rightarrow> string) \<Rightarrow> string list \<Rightarrow> string" where
  "pam_broker getenv args = (case args of _ # a # _ \<Rightarrow> a | _ \<Rightarrow> getenv ''XDAUTH_BROKER_URL'')"

definition pam_request :: "(string \<Rightarrow> string) \<Rightarrow> string \<Rightarrow> string list \<Rightarrow> client_StartRequest" where
  "pam_request getenv hostname args =
     \<lparr>cq_BrokerURL = pam_broker getenv args, cq_LoginHint = getenv ''PAM_USER'', cq_ClientKind = ''ssh'',
      cq_ClientHost = (if getenv ''PAM_RHOST'' = '''' then hostname else getenv ''PAM_RHOST'')\<rparr>"

definition pam_run ::
  "nat \<Rightarrow> json_conv \<Rightarrow> 'n transport \<Rightarrow> (nat \<Rightarrow> bool) \<Rightarrow> (string \<Rightarrow> string) \<Rightarrow> string \<Rightarrow> string list \<Rightarrow> world \<Rightarrow> 'n
     \<Rightarrow> (process \<times> 'n) option" where
  "pam_run fuel C T ctxDone getenv hostname args w n =
     (let req = pam_request getenv hostname args in
      if cq_BrokerURL req = ''''
      then Some (pam_fail [] ''broker URL not set: pass it as argv[1] in pam.d (recommended) or set XDAUTH_BROKER_URL'', n)
      else if cq_LoginHint req = ''''
      then Some (pam_fail [] ''PAM_USER is not set; this must be run from pam_exec'', n)
      else
     (case client_Start T req w n of
        (Inl err, _, n1) \<Rightarrow> Some (pam_fail [] (''could not start sign-in: '' @ err), n1)
      | (Inr sess, _, n1) \<Rightarrow>
          let out = [pam_prompt sess, ''xdauth: waiting for approval...'' @ nl] in
     (case client_Poll fuel C T ctxDone sess n1 of
        None \<Rightarrow> None
      | Some (Inl err, _, n2) \<Rightarrow> Some (pam_fail out (''could not poll for approval: '' @ err), n2)
      | Some (Inr result, _, n2) \<Rightarrow>
          Some (if rr_Status result = ''approved''
                then \<lparr>px_code = 0, px_stdout = out @ [''xdauth: approved.'' @ nl], px_stderr = []\<rparr>
                else if rr_Status result = ''denied'' then pam_fail out ''sign-in denied''
                else if rr_Status result = ''expired'' then pam_fail out ''sign-in expired before approval''
                else pam_fail out (''unexpected status '' @ [CHR 0x22] @ rr_Status result @ [CHR 0x22]), n2))))"

section \<open>xdauth-login\<close>

text \<open>
  The flags, after parsing, with their defaults from the environment and the host name; the printed form of an
  artifact and of a duration are arguments.
\<close>

record login_flags =
  lf_brokerURL :: string
  lf_loginHint :: string
  lf_clientHost :: string

definition login_defaults :: "(string \<Rightarrow> string) \<Rightarrow> string \<Rightarrow> login_flags" where
  "login_defaults getenv hostname =
     \<lparr>lf_brokerURL = getenv ''XDAUTH_BROKER_URL'', lf_loginHint = '''', lf_clientHost = hostname\<rparr>"

definition login_request :: "login_flags \<Rightarrow> client_StartRequest" where
  "login_request fl =
     \<lparr>cq_BrokerURL = lf_brokerURL fl, cq_LoginHint = lf_loginHint fl, cq_ClientKind = ''cli'',
      cq_ClientHost = lf_clientHost fl\<rparr>"

definition login_prompt :: "client_Session \<Rightarrow> string list" where
  "login_prompt s =
     [''To sign in, visit:'' @ nl @ nl @ ''  '' @ cs_VerificationURI s @ nl @ nl @
        ''and enter the code: '' @ cs_UserCode s @ nl @ nl,
      ''Waiting for approval (expires in '' @ duration_String (cs_ExpiresIn s) @ '')...'' @ nl]"

text \<open>The artifact as \<open>MarshalIndent\<close> prints it: nothing if it has no JSON form, \<open>null\<close> for a nil pointer.\<close>

definition login_artifact :: "json_conv \<Rightarrow> Artifact option \<Rightarrow> string" where
  "login_artifact C ao =
     (case ao of
        None \<Rightarrow> ''null''
      | Some a \<Rightarrow> (case json_of_artifact C a of None \<Rightarrow> '''' | Some j \<Rightarrow> json_MarshalIndent j))"

definition login_run ::
  "nat \<Rightarrow> json_conv \<Rightarrow> 'n transport \<Rightarrow> (nat \<Rightarrow> bool)
     \<Rightarrow> login_flags \<Rightarrow> world \<Rightarrow> 'n \<Rightarrow> (process \<times> 'n) option" where
  "login_run fuel C T ctxDone fl w n =
     (if lf_brokerURL fl = '''' \<or> lf_loginHint fl = ''''
      then Some (\<lparr>px_code = 2, px_stdout = [],
                  px_stderr = [''usage: xdauth-login --broker-url URL --login-hint USER'' @ nl]\<rparr>, n)
      else
     (case client_Start T (login_request fl) w n of
        (Inl err, _, n1) \<Rightarrow>
          Some (\<lparr>px_code = 1, px_stdout = [], px_stderr = [''xdauth-login: start failed: '' @ err @ nl]\<rparr>, n1)
      | (Inr sess, _, n1) \<Rightarrow>
          let out = login_prompt sess in
     (case client_Poll fuel C T ctxDone sess n1 of
        None \<Rightarrow> None
      | Some (Inl err, _, n2) \<Rightarrow>
          Some (\<lparr>px_code = 1, px_stdout = out, px_stderr = [''xdauth-login: poll failed: '' @ err @ nl]\<rparr>, n2)
      | Some (Inr result, _, n2) \<Rightarrow>
          Some (if rr_Status result = ''approved''
                then \<lparr>px_code = 0, px_stdout = out @ [login_artifact C (rr_Artifact result) @ nl], px_stderr = []\<rparr>
                else if rr_Status result = ''denied''
                then \<lparr>px_code = 1, px_stdout = out, px_stderr = [''xdauth-login: sign-in denied'' @ nl]\<rparr>
                else if rr_Status result = ''expired''
                then \<lparr>px_code = 1, px_stdout = out,
                      px_stderr = [''xdauth-login: sign-in expired before approval'' @ nl]\<rparr>
                else \<lparr>px_code = 0, px_stdout = out, px_stderr = []\<rparr>, n2))))"

section \<open>xdauth-pam-native\<close>

text \<open>
  What the module asks PAM: the user (a code and a string that may be null), whether there is a conversation
  function, the items, and how the application answers a message. The module's arguments are \<open>argv\<close>.
\<close>

datatype pam_code = PAM_SUCCESS | PAM_AUTH_ERR | PAM_OTHER int

record pam_handle =
  ph_get_user :: "pam_code \<times> string option"
  ph_get_conv :: "pam_code \<times> bool"
  ph_get_rhost :: "pam_code \<times> string option"
  ph_converse :: "string \<Rightarrow> pam_code"

definition sessionTimeout :: duration where
  "sessionTimeout = 3 * 60 * second"

definition moduleArg :: "string list \<Rightarrow> nat \<Rightarrow> string" where
  "moduleArg argv i = (if i \<ge> length argv then '''' else argv ! i)"

definition envItem :: "pam_code \<times> string option \<Rightarrow> string" where
  "envItem item =
     (case item of (code, p) \<Rightarrow> if code \<noteq> PAM_SUCCESS then '''' else (case p of None \<Rightarrow> '''' | Some s \<Rightarrow> s))"

definition native_prompt :: "client_Session \<Rightarrow> string" where
  "native_prompt s = ''xdauth: to finish signing in, visit '' @ cs_VerificationURI s @
     '' and enter the code: '' @ cs_UserCode s"

definition pam_sm_authenticate ::
  "nat \<Rightarrow> json_conv \<Rightarrow> 'n transport \<Rightarrow> (duration \<Rightarrow> nat \<Rightarrow> bool) \<Rightarrow> pam_handle \<Rightarrow> string list \<Rightarrow> world \<Rightarrow> 'n
     \<Rightarrow> (pam_code \<times> 'n) option" where
  "pam_sm_authenticate fuel C T timedOut pamh argv w n =
     (let brokerURL = moduleArg argv 0 in
      if brokerURL = '''' then Some (PAM_AUTH_ERR, n)
      else
     (case ph_get_user pamh of
        (code, cUser) \<Rightarrow>
          if code \<noteq> PAM_SUCCESS \<or> cUser = None then Some (PAM_AUTH_ERR, n)
          else
     (case ph_get_conv pamh of
        (code, hasConv) \<Rightarrow>
          if code \<noteq> PAM_SUCCESS \<or> \<not> hasConv then Some (PAM_AUTH_ERR, n)
          else
     (case client_Start T \<lparr>cq_BrokerURL = brokerURL, cq_LoginHint = the cUser, cq_ClientKind = ''ssh'',
                           cq_ClientHost = envItem (ph_get_rhost pamh)\<rparr> w n of
        (Inl err, _, n1) \<Rightarrow> Some (PAM_AUTH_ERR, n1)
      | (Inr sess, _, n1) \<Rightarrow>
          if ph_converse pamh (native_prompt sess) \<noteq> PAM_SUCCESS then Some (PAM_AUTH_ERR, n1)
          else
     (case client_Poll fuel C T (timedOut sessionTimeout) sess n1 of
        None \<Rightarrow> None
      | Some (Inl err, _, n2) \<Rightarrow> Some (PAM_AUTH_ERR, n2)
      | Some (Inr result, _, n2) \<Rightarrow>
          Some (if rr_Status result \<noteq> ''approved'' then PAM_AUTH_ERR else PAM_SUCCESS, n2))))))"

definition pam_sm_setcred :: pam_code where
  "pam_sm_setcred = PAM_SUCCESS"

section \<open>xdauth-sshd\<close>

text \<open>
  A permissions object holds its extensions. The callback of the SSH library ends with permissions, with an error,
  or with the panic of reading a field of a nil artifact. A challenge is how the peer answers an instruction: with
  nothing, or with an error. What is logged is left out.
\<close>

type_synonym permissions = "string \<rightharpoonup> string"

datatype auth_result = AuthPermissions permissions | AuthError string | AuthPanic

type_synonym challenge = "string \<Rightarrow> string option"

type_synonym 'n ssh_callback = "string \<Rightarrow> string \<Rightarrow> challenge \<Rightarrow> world \<Rightarrow> 'n \<Rightarrow> (auth_result \<times> 'n) option"

definition envOr :: "(string \<Rightarrow> string) \<Rightarrow> string \<Rightarrow> string \<Rightarrow> string" where
  "envOr getenv key def = (let v = getenv key in if v \<noteq> '''' then v else def)"

definition loadOrGenerateHostKey ::
  "(string \<Rightarrow> string + byte list) \<Rightarrow> (byte list \<Rightarrow> string + 'k) \<Rightarrow> (world \<Rightarrow> (string + 'p) \<times> world) \<Rightarrow> ('p \<Rightarrow> string + 'k)
     \<Rightarrow> string \<Rightarrow> world \<Rightarrow> (string + 'k) \<times> world" where
  "loadOrGenerateHostKey readFile parsePrivateKey generateKey newSignerFromKey path w =
     (if path \<noteq> '''' then
        (case readFile path of
           Inl err \<Rightarrow> (Inl (''read host key file: '' @ err), w)
         | Inr keyBytes \<Rightarrow> (parsePrivateKey keyBytes, w))
      else
        (case generateKey w of
           (Inl err, w1) \<Rightarrow> (Inl (''generate ephemeral host key: '' @ err), w1)
         | (Inr priv, w1) \<Rightarrow>
             (case newSignerFromKey priv of
                Inl err \<Rightarrow> (Inl (''wrap ephemeral host key: '' @ err), w1)
              | Inr signer \<Rightarrow> (Inr signer, w1))))"

definition ssh_instruction :: "client_Session \<Rightarrow> string" where
  "ssh_instruction s = ''xdauth: to finish signing in, visit:'' @ nl @ nl @ ''  '' @ cs_VerificationURI s @ nl @ nl @
     ''and enter the code: '' @ cs_UserCode s @ nl @ nl @ ''waiting for approval...'' @ nl"

definition ssh_request :: "string \<Rightarrow> string \<Rightarrow> string \<Rightarrow> client_StartRequest" where
  "ssh_request brokerURL user remoteAddr =
     \<lparr>cq_BrokerURL = brokerURL, cq_LoginHint = user, cq_ClientKind = ''ssh'',
      cq_ClientHost = (case net_SplitHostPort remoteAddr of Some (host, _) \<Rightarrow> host | None \<Rightarrow> remoteAddr)\<rparr>"

definition keyboardInteractiveAuth ::
  "nat \<Rightarrow> json_conv \<Rightarrow> 'n transport \<Rightarrow> (nat \<Rightarrow> bool) \<Rightarrow> string \<Rightarrow> 'n ssh_callback" where
  "keyboardInteractiveAuth fuel C T ctxDone brokerURL user remoteAddr challenge w n =
     (case client_Start T (ssh_request brokerURL user remoteAddr) w n of
        (Inl err, _, n1) \<Rightarrow> Some (AuthError (''xdauth-sshd: could not start sign-in: '' @ err), n1)
      | (Inr sess, _, n1) \<Rightarrow>
     (case challenge (ssh_instruction sess) of
        Some err \<Rightarrow> Some (AuthError (''xdauth-sshd: keyboard-interactive challenge: '' @ err), n1)
      | None \<Rightarrow>
     (case client_Poll fuel C T ctxDone sess n1 of
        None \<Rightarrow> None
      | Some (Inl err, _, n2) \<Rightarrow> Some (AuthError (''xdauth-sshd: could not poll for approval: '' @ err), n2)
      | Some (Inr result, _, n2) \<Rightarrow>
          if rr_Status result \<noteq> ''approved''
          then Some (AuthError (''xdauth-sshd: sign-in '' @ rr_Status result), n2)
          else (case rr_Artifact result of
                  None \<Rightarrow> Some (AuthPanic, n2)
                | Some a \<Rightarrow> Some (AuthPermissions [''xdauth-identity'' \<mapsto> a_Identity a], n2)))))"

text \<open>The configuration: the keyboard-interactive callback and the host keys; every other method stays unset.\<close>

record ('n, 'k) ssh_config =
  sc_KeyboardInteractiveCallback :: "'n ssh_callback"
  sc_hostKeys :: "'k list"

definition newServerConfig ::
  "nat \<Rightarrow> json_conv \<Rightarrow> 'n transport \<Rightarrow> (nat \<Rightarrow> bool) \<Rightarrow> string \<Rightarrow> ('n, 'k) ssh_config" where
  "newServerConfig fuel C T ctxDone brokerURL =
     \<lparr>sc_KeyboardInteractiveCallback = keyboardInteractiveAuth fuel C T ctxDone brokerURL, sc_hostKeys = []\<rparr>"

record ssh_req =
  rq_Type :: string
  rq_WantReply :: bool

record ssh_channel =
  ch_Type :: string
  ch_AcceptErr :: bool
  ch_Requests :: "ssh_req list"

datatype ssh_action = ReplyTo bool | WriteOut string | CloseChannel

definition maybe_reply :: "ssh_req \<Rightarrow> bool \<Rightarrow> ssh_action list" where
  "maybe_reply req ok = (if rq_WantReply req then [ReplyTo ok] else [])"

fun session_loop :: "string \<Rightarrow> permissions option \<Rightarrow> ssh_req list \<Rightarrow> ssh_action list" where
  "session_loop shellMessage perms [] = []"
| "session_loop shellMessage perms (req # reqs) =
     (if rq_Type req = ''shell'' \<or> rq_Type req = ''exec'' then
        let ident = (case perms of None \<Rightarrow> '''' | Some p \<Rightarrow> (case p ''xdauth-identity'' of None \<Rightarrow> '''' | Some v \<Rightarrow> v))
        in maybe_reply req True @ [WriteOut (shellMessage @ nl @ ''logged in as: '' @ ident @ nl)]
      else if rq_Type req = ''pty-req'' then maybe_reply req True @ session_loop shellMessage perms reqs
      else maybe_reply req False @ session_loop shellMessage perms reqs)"

definition serveSession :: "string \<Rightarrow> permissions option \<Rightarrow> ssh_req list \<Rightarrow> ssh_action list" where
  "serveSession shellMessage perms reqs = session_loop shellMessage perms reqs @ [CloseChannel]"

text \<open>
  A connection, given by its remote address: the handshake is the SSH library's, given the configuration. It fails, or it
  yields the connection with its user and permissions, and the channels the peer opens.
\<close>

record ssh_conn =
  sn_User :: string
  sn_Permissions :: "permissions option"

type_synonym ('n, 'k) ssh_handshake =
  "string \<Rightarrow> ('n, 'k) ssh_config \<Rightarrow> 'n \<Rightarrow> ((string + ssh_conn \<times> ssh_channel list) \<times> 'n) option"

datatype channel_outcome = ChannelRejected | ChannelFailed | ChannelServed "ssh_action list"

definition handleConn ::
  "('n, 'k) ssh_handshake \<Rightarrow> string \<Rightarrow> ('n, 'k) ssh_config \<Rightarrow> string \<Rightarrow> 'n \<Rightarrow> (channel_outcome list \<times> 'n) option" where
  "handleConn newServerConn nConn config shellMessage n =
     (case newServerConn nConn config n of
        None \<Rightarrow> None
      | Some (Inl err, n1) \<Rightarrow> Some ([], n1)
      | Some (Inr (sshConn, chans), n1) \<Rightarrow>
          Some (map (\<lambda>newChannel.
                  if ch_Type newChannel \<noteq> ''session'' then ChannelRejected
                  else if ch_AcceptErr newChannel then ChannelFailed
                  else ChannelServed (serveSession shellMessage (sn_Permissions sshConn) (ch_Requests newChannel))) chans, n1))"

text \<open>The accept loop hands over connections until the first error.\<close>

fun ssh_serve :: "(string + 'c) list \<Rightarrow> 'c list" where
  "ssh_serve [] = []"
| "ssh_serve (Inl err # cs) = []"
| "ssh_serve (Inr c # cs) = c # ssh_serve cs"

record sshd_flags =
  sf_listen :: string
  sf_brokerURL :: string
  sf_hostKeyFile :: string
  sf_shellMessage :: string

definition sshd_defaults :: "(string \<Rightarrow> string) \<Rightarrow> sshd_flags" where
  "sshd_defaults getenv =
     \<lparr>sf_listen = envOr getenv ''XDAUTH_SSHD_LISTEN_ADDR'' '':2323'',
      sf_brokerURL = getenv ''XDAUTH_BROKER_URL'',
      sf_hostKeyFile = getenv ''XDAUTH_SSHD_HOST_KEY_FILE'',
      sf_shellMessage = envOr getenv ''XDAUTH_SSHD_SHELL_MESSAGE''
        ''xdauth-sshd: this is a demo shell, authenticated via keyboard-interactive.''\<rparr>"

text \<open>
  The whole program: the exit code, and with 0 the configuration it served the accepted connections with. The host
  key and the listener, with what it accepts, come from outside.
\<close>

definition sshd_run ::
  "nat \<Rightarrow> json_conv \<Rightarrow> 'n transport \<Rightarrow> (nat \<Rightarrow> bool) \<Rightarrow> (string \<Rightarrow> string + 'k) \<Rightarrow> (string \<Rightarrow> string + (string + 'c) list)
     \<Rightarrow> sshd_flags \<Rightarrow> int \<times> (('n, 'k) ssh_config \<times> 'c list) option" where
  "sshd_run fuel C T ctxDone hostKey listen fl =
     (if sf_brokerURL fl = '''' then (2, None)
      else (case hostKey (sf_hostKeyFile fl) of
              Inl err \<Rightarrow> (1, None)
            | Inr key \<Rightarrow>
                let config = newServerConfig fuel C T ctxDone (sf_brokerURL fl);
                    config1 = config\<lparr>sc_hostKeys := sc_hostKeys config @ [key]\<rparr>
                in (case listen (sf_listen fl) of
                      Inl err \<Rightarrow> (1, None)
                    | Inr accepts \<Rightarrow> (0, Some (config1, ssh_serve accepts)))))"

section \<open>Lemmas\<close>

text \<open>A sign-in: the broker accepted a start request, and polling that session ended with \<open>approved\<close>.\<close>

definition signed_in ::
  "nat \<Rightarrow> json_conv \<Rightarrow> 'n transport \<Rightarrow> (nat \<Rightarrow> bool) \<Rightarrow> client_StartRequest \<Rightarrow> world \<Rightarrow> 'n
     \<Rightarrow> client_Session \<Rightarrow> Artifact option \<Rightarrow> 'n \<Rightarrow> bool" where
  "signed_in fuel C T ctxDone req w n sess a n2 \<longleftrightarrow>
     (\<exists>w1 n1 waits. client_Start T req w n = (Inr sess, w1, n1) \<and>
        client_Poll fuel C T ctxDone sess n1 = Some (Inr \<lparr>rr_Status = ''approved'', rr_Artifact = a\<rparr>, waits, n2))"

lemma client_Start_hint:
  "client_Start T req w n = (Inr sess, w1, n1) \<Longrightarrow> cq_BrokerURL req \<noteq> '''' \<and> cq_LoginHint req \<noteq> ''''"
  by (auto simp: client_Start_def split: if_splits)

lemma client_Poll_status:
  assumes "client_Poll fuel C T ctxDone sess n1 = Some (Inr result, waits, n2)"
  shows "rr_Status result = ''approved'' \<or> rr_Status result = ''denied'' \<or> rr_Status result = ''expired''"
  using assms poll_loop_status unfolding client_Poll_def Let_def terminal_result_def by fastforce

lemma result_eq: "result = \<lparr>rr_Status = st, rr_Artifact = a\<rparr> \<longleftrightarrow> rr_Status result = st \<and> rr_Artifact result = a"
  by (cases result) auto

text \<open>How a sign-in ends: it could not start, it could not be polled to an end, or the broker gave a final status.\<close>

lemma signed_in_not_start:
  "client_Start T req w n = (Inl err, w1, n1) \<Longrightarrow> \<not> signed_in fuel C T ctxDone req w n sess a n2"
  by (simp add: signed_in_def)

lemma signed_in_poll:
  "client_Start T req w n = (Inr sess', w1, n1) \<Longrightarrow>
    signed_in fuel C T ctxDone req w n sess a n2 \<longleftrightarrow> sess = sess' \<and>
      (\<exists>waits. client_Poll fuel C T ctxDone sess' n1 = Some (Inr \<lparr>rr_Status = ''approved'', rr_Artifact = a\<rparr>, waits, n2))"
  by (auto simp: signed_in_def)

lemmas signed_in_simps = signed_in_not_start signed_in_poll result_eq

text \<open>A broker that accepts every start request and approves at the first poll.\<close>

definition demo_start_reply :: startResponse where
  "demo_start_reply = \<lparr>sr_SessionID = ''s1'', sr_VerificationURI = ''https://b/auth/verify/s1'', sr_UserCode = ''BCDF-GHJK'',
     sr_ExpiresIn = 300, sr_Interval = 3\<rparr>"

definition demo_ok_transport :: "nat transport" where
  "demo_ok_transport =
     \<lparr>tr_urlOK = (\<lambda>_. True),
      tr_Do = (\<lambda>url body n.
        (Inr (200, if n = 0 then json_Encode (json_of_start demo_start_reply)
           else json_Encode (the (json_of_poll demo_json
             \<lparr>po_Status = ''approved'', po_Artifact = Some demo_wire_artifact, po_Error = ''''\<rparr>))),
         n + 1))\<rparr>"

definition demo_client_world :: world where
  "demo_client_world = \<lparr>w_rand = (\<lambda>i. 7), w_rfail = (\<lambda>_. False), w_rpos = 0, w_clock = int, w_tick = 0\<rparr>"

lemma demo_sign_in:
  assumes "cq_BrokerURL req \<noteq> ''''" and "cq_LoginHint req \<noteq> ''''"
  obtains sess w1 where "client_Start demo_ok_transport req demo_client_world 0 = (Inr sess, w1, 1)"
    "client_Poll (Suc 0) demo_json demo_ok_transport (\<lambda>_. False) sess 1 =
       Some (Inr \<lparr>rr_Status = ''approved'', rr_Artifact = Some demo_wire_artifact\<rparr>, [], 2)"
proof -
  obtain v c w1 where p: "newPKCEPair demo_client_world = (Some (v, c), w1)"
    by (simp add: newPKCEPair_def rand_Read_def demo_client_world_def Let_def)
  have st: "\<exists>sess. client_Start demo_ok_transport req demo_client_world 0 = (Inr sess, w1, 1)"
    using assms p by (simp add: client_Start_def Let_def demo_ok_transport_def decode_start_sent
        demo_start_reply_def minInt64_def maxInt64_def)
  obtain j where j: "json_of_poll demo_json \<lparr>po_Status = ''approved'', po_Artifact = Some demo_wire_artifact, po_Error = ''''\<rparr> = Some j"
      "json_depth j \<le> maxNestingDepth"
    using demo_wire_artifact_json by (auto simp: json_of_poll_def maxNestingDepth_def)
  have "pollOnce demo_json demo_ok_transport sess 1 = (Inr (''approved'', Some demo_wire_artifact), 2)" for sess
    using decode_poll_sent [OF demo_json_ok j(1) j(2)]
    by (simp add: pollOnce_def Let_def demo_ok_transport_def j(1) demo_wire_artifact_sent json_string_ascii)
  then have "client_Poll (Suc 0) demo_json demo_ok_transport (\<lambda>_. False) sess 1 =
       Some (Inr \<lparr>rr_Status = ''approved'', rr_Artifact = Some demo_wire_artifact\<rparr>, [], 2)" for sess
    by (simp add: client_Poll_def poll_loop_Suc next_wait_def final_outcome_def)
  then show ?thesis using that st by blast
qed

section \<open>Outcomes of the programs\<close>

lemma pam_run_outcome:
  assumes "pam_run fuel C T ctxDone getenv hostname args w n = Some (p, n2)"
  shows "px_code p \<in> {0, 1} \<and>
    (px_code p = 0 \<longleftrightarrow> (\<exists>sess a. signed_in fuel C T ctxDone (pam_request getenv hostname args) w n sess a n2 \<and>
      pam_prompt sess \<in> set (px_stdout p)))"
proof -
  let ?req = "pam_request getenv hostname args"
  obtain res w1 n1 where st: "client_Start T ?req w n = (res, w1, n1)" by (metis prod_cases3)
  show ?thesis
  proof (cases res)
    case (Inl err)
    then show ?thesis using assms st
      by (auto simp: pam_run_def Let_def pam_fail_def signed_in_simps split: if_splits)
  next
    case (Inr sess)
    have go: "cq_BrokerURL ?req \<noteq> ''''" "cq_LoginHint ?req \<noteq> ''''" using client_Start_hint [OF st [unfolded Inr]] by auto
    then obtain out waits where po: "client_Poll fuel C T ctxDone sess n1 = Some (out, waits, n2)"
      using assms st Inr by (auto simp: pam_run_def Let_def split: option.splits sum.splits)
    show ?thesis
    proof (cases out)
      case no: (Inl err)
      then show ?thesis using assms st Inr po go by (auto simp: pam_run_def pam_fail_def signed_in_simps)
    next
      case yes: (Inr result)
      have "px_code p = (if rr_Status result = ''approved'' then 0 else 1)" "pam_prompt sess \<in> set (px_stdout p)"
        using assms st Inr po go yes by (auto simp: pam_run_def pam_fail_def Let_def)
      then show ?thesis using st Inr po yes by (auto simp: signed_in_simps)
    qed
  qed
qed

lemma native_outcome:
  assumes "pam_sm_authenticate fuel C T timedOut pamh argv w n = Some (code, n2)"
  shows "code \<in> {PAM_SUCCESS, PAM_AUTH_ERR} \<and>
    (code = PAM_SUCCESS \<longleftrightarrow>
      (\<exists>user sess a. argv \<noteq> [] \<and> ph_get_user pamh = (PAM_SUCCESS, Some user) \<and> ph_get_conv pamh = (PAM_SUCCESS, True) \<and>
        signed_in fuel C T (timedOut (3 * 60 * second)) \<lparr>cq_BrokerURL = hd argv, cq_LoginHint = user, cq_ClientKind = ''ssh'',
          cq_ClientHost = envItem (ph_get_rhost pamh)\<rparr> w n sess a n2 \<and>
        ph_converse pamh (native_prompt sess) = PAM_SUCCESS))"
proof (cases "moduleArg argv 0 = '''' \<or> fst (ph_get_user pamh) \<noteq> PAM_SUCCESS \<or> snd (ph_get_user pamh) = None \<or>
    fst (ph_get_conv pamh) \<noteq> PAM_SUCCESS \<or> \<not> snd (ph_get_conv pamh)")
  case True
  have "argv \<noteq> [] \<Longrightarrow> moduleArg argv 0 = hd argv" by (simp add: moduleArg_def hd_conv_nth)
  then show ?thesis using True assms
    by (auto simp: pam_sm_authenticate_def Let_def signed_in_def split: prod.splits if_splits dest: client_Start_hint)
next
  case False
  then obtain user where u: "ph_get_user pamh = (PAM_SUCCESS, Some user)" "ph_get_conv pamh = (PAM_SUCCESS, True)"
    by (cases "ph_get_user pamh"; cases "ph_get_conv pamh") auto
  have a: "argv \<noteq> []" "moduleArg argv 0 = hd argv" "hd argv \<noteq> ''''"
    using False by (auto simp: moduleArg_def hd_conv_nth split: if_splits)
  let ?req = "\<lparr>cq_BrokerURL = hd argv, cq_LoginHint = user, cq_ClientKind = ''ssh'',
    cq_ClientHost = envItem (ph_get_rhost pamh)\<rparr>"
  obtain res w1 n1 where st: "client_Start T ?req w n = (res, w1, n1)" by (metis prod_cases3)
  show ?thesis
    using assms u a st
    by (cases res) (auto simp: pam_sm_authenticate_def Let_def signed_in_simps sessionTimeout_def
        split: if_splits option.splits sum.splits)
qed

lemma keyboard_outcome:
  assumes "keyboardInteractiveAuth fuel C T ctxDone brokerURL user addr challenge w n = Some (out, n2)"
  shows "(\<forall>perms. out = AuthPermissions perms \<longleftrightarrow>
      (\<exists>sess a. signed_in fuel C T ctxDone (ssh_request brokerURL user addr) w n sess (Some a) n2 \<and>
        challenge (ssh_instruction sess) = None \<and> perms = [''xdauth-identity'' \<mapsto> a_Identity a])) \<and>
    (out = AuthPanic \<longleftrightarrow>
      (\<exists>sess. signed_in fuel C T ctxDone (ssh_request brokerURL user addr) w n sess None n2 \<and>
        challenge (ssh_instruction sess) = None))"
proof -
  obtain res w1 n1 where st: "client_Start T (ssh_request brokerURL user addr) w n = (res, w1, n1)" by (metis prod_cases3)
  show ?thesis
    using assms st
    by (cases res) (auto simp: keyboardInteractiveAuth_def signed_in_simps
        split: if_splits option.splits sum.splits)
qed

lemma keyboard_permissions:
  assumes "keyboardInteractiveAuth fuel C T ctxDone brokerURL user addr challenge w n = Some (AuthPermissions perms, n2)"
  obtains sess a where "signed_in fuel C T ctxDone (ssh_request brokerURL user addr) w n sess (Some a) n2"
    "perms = [''xdauth-identity'' \<mapsto> a_Identity a]"
  using keyboard_outcome [OF assms] by blast

lemma keyboard_panic:
  assumes "keyboardInteractiveAuth fuel C T ctxDone brokerURL user addr challenge w n = Some (AuthPanic, n2)"
  obtains sess where "signed_in fuel C T ctxDone (ssh_request brokerURL user addr) w n sess None n2"
  using keyboard_outcome [OF assms] by blast

lemma login_outcome:
  assumes "login_run fuel C T ctxDone fl w n = Some (p, n2)"
  shows "px_code p \<in> {0, 1, 2} \<and> (px_code p = 2 \<longleftrightarrow> lf_brokerURL fl = '''' \<or> lf_loginHint fl = '''') \<and>
    (px_code p = 0 \<longleftrightarrow> (\<exists>sess a. signed_in fuel C T ctxDone (login_request fl) w n sess a n2 \<and>
      px_stdout p = login_prompt sess @ [login_artifact C a @ nl]))"
proof (cases "lf_brokerURL fl = '''' \<or> lf_loginHint fl = ''''")
  case True
  then show ?thesis using assms
    by (auto simp: login_run_def signed_in_def login_request_def dest: client_Start_hint)
next
  case False
  obtain res w1 n1 where st: "client_Start T (login_request fl) w n = (res, w1, n1)" by (metis prod_cases3)
  show ?thesis
  proof (cases res)
    case (Inl err)
    then show ?thesis using assms st False by (auto simp: login_run_def signed_in_simps)
  next
    case (Inr sess)
    obtain out waits where po: "client_Poll fuel C T ctxDone sess n1 = Some (out, waits, n2)"
      using assms st Inr False by (auto simp: login_run_def Let_def split: option.splits sum.splits)
    show ?thesis
    proof (cases out)
      case no: (Inl err)
      then show ?thesis using assms st Inr po False by (auto simp: login_run_def signed_in_simps)
    next
      case yes: (Inr result)
      have "rr_Status result = ''approved'' \<or> rr_Status result = ''denied'' \<or> rr_Status result = ''expired''"
        by (rule client_Poll_status [OF po [unfolded yes]])
      then show ?thesis using assms st Inr po yes False by (elim disjE) (auto simp: login_run_def signed_in_simps Let_def)
    qed
  qed
qed

section \<open>Properties\<close>

text \<open>C27: \<open>xdauth-pam\<close> fails closed: it exits with 0 or 1, and with 0 exactly when the broker accepted a start request
  for the user PAM named and polling that session ended with approved; the user was then shown that session's link
  and code.\<close>

theorem pam_fails_closed:
  assumes "pam_run fuel C T ctxDone getenv hostname args w n = Some (p, n2)"
  shows "px_code p \<in> {0, 1} \<and>
    (px_code p = 0 \<longleftrightarrow> (\<exists>sess a. signed_in fuel C T ctxDone (pam_request getenv hostname args) w n sess a n2 \<and>
      pam_prompt sess \<in> set (px_stdout p)))"
  by (rule pam_run_outcome [OF assms])

text \<open>The environment and arguments of a login of alice.\<close>

definition demo_getenv :: "string \<Rightarrow> string" where
  "demo_getenv key = (if key = ''PAM_USER'' then ''alice'' else '''')"

theorem pam_fails_closed_witness:
  "\<exists>p sess a. pam_run (Suc 0) demo_json demo_ok_transport (\<lambda>_. False) demo_getenv ''h'' [''xdauth-pam'', ''https://b'']
       demo_client_world 0 = Some (p, 2) \<and> px_code p = 0 \<and>
     signed_in (Suc 0) demo_json demo_ok_transport (\<lambda>_. False)
       (pam_request demo_getenv ''h'' [''xdauth-pam'', ''https://b'']) demo_client_world 0 sess a 2 \<and>
     pam_prompt sess \<in> set (px_stdout p)"
proof -
  let ?req = "pam_request demo_getenv ''h'' [''xdauth-pam'', ''https://b'']"
  have req: "cq_BrokerURL ?req = ''https://b''" "cq_LoginHint ?req = ''alice''"
    by (simp_all add: pam_request_def pam_broker_def demo_getenv_def)
  obtain sess w1 where s: "client_Start demo_ok_transport ?req demo_client_world 0 = (Inr sess, w1, 1)"
    "client_Poll (Suc 0) demo_json demo_ok_transport (\<lambda>_. False) sess 1 =
       Some (Inr \<lparr>rr_Status = ''approved'', rr_Artifact = Some demo_wire_artifact\<rparr>, [], 2)"
    using demo_sign_in [of ?req] req by auto
  then obtain p where p: "pam_run (Suc 0) demo_json demo_ok_transport (\<lambda>_. False) demo_getenv ''h''
      [''xdauth-pam'', ''https://b''] demo_client_world 0 = Some (p, 2)" "px_code p = 0"
    using req by (simp add: pam_run_def Let_def)
  then show ?thesis using pam_fails_closed [OF p(1)] by blast
qed

text \<open>The PAM module fails closed: it answers success or an authentication error, and success exactly when it was
  given a broker, PAM gave it a user and a conversation, the user was shown the link and the code of a session the
  broker started for that user, and polling that session ended with approved within the module's timeout.\<close>

theorem native_fails_closed:
  assumes "pam_sm_authenticate fuel C T timedOut pamh argv w n = Some (code, n2)"
  shows "code \<in> {PAM_SUCCESS, PAM_AUTH_ERR} \<and>
    (code = PAM_SUCCESS \<longleftrightarrow>
      (\<exists>user sess a. argv \<noteq> [] \<and> ph_get_user pamh = (PAM_SUCCESS, Some user) \<and> ph_get_conv pamh = (PAM_SUCCESS, True) \<and>
        signed_in fuel C T (timedOut (3 * 60 * second)) \<lparr>cq_BrokerURL = hd argv, cq_LoginHint = user, cq_ClientKind = ''ssh'',
          cq_ClientHost = envItem (ph_get_rhost pamh)\<rparr> w n sess a n2 \<and>
        ph_converse pamh (native_prompt sess) = PAM_SUCCESS))"
  by (rule native_outcome [OF assms])

theorem native_fails_closed_witness:
  "pam_sm_authenticate (Suc 0) demo_json demo_ok_transport (\<lambda>_ _. False)
     \<lparr>ph_get_user = (PAM_SUCCESS, Some ''alice''), ph_get_conv = (PAM_SUCCESS, True),
      ph_get_rhost = (PAM_OTHER 29, None), ph_converse = (\<lambda>_. PAM_SUCCESS)\<rparr>
     [''https://b''] demo_client_world 0 = Some (PAM_SUCCESS, 2) \<and>
   (\<exists>sess a. signed_in (Suc 0) demo_json demo_ok_transport (\<lambda>_. False)
      \<lparr>cq_BrokerURL = ''https://b'', cq_LoginHint = ''alice'', cq_ClientKind = ''ssh'', cq_ClientHost = ''''\<rparr>
      demo_client_world 0 sess a 2)"
proof -
  let ?req = "\<lparr>cq_BrokerURL = ''https://b'', cq_LoginHint = ''alice'', cq_ClientKind = ''ssh'', cq_ClientHost = ''''\<rparr>"
  let ?h = "\<lparr>ph_get_user = (PAM_SUCCESS, Some ''alice''), ph_get_conv = (PAM_SUCCESS, True),
      ph_get_rhost = (PAM_OTHER 29, None), ph_converse = (\<lambda>_. PAM_SUCCESS)\<rparr>"
  obtain sess w1 where s: "client_Start demo_ok_transport ?req demo_client_world 0 = (Inr sess, w1, 1)"
    "client_Poll (Suc 0) demo_json demo_ok_transport (\<lambda>_. False) sess 1 =
       Some (Inr \<lparr>rr_Status = ''approved'', rr_Artifact = Some demo_wire_artifact\<rparr>, [], 2)"
    using demo_sign_in [of ?req] by auto
  have p: "pam_sm_authenticate (Suc 0) demo_json demo_ok_transport (\<lambda>_ _. False) ?h [''https://b''] demo_client_world 0 =
      Some (PAM_SUCCESS, 2)"
    using s by (simp add: pam_sm_authenticate_def moduleArg_def envItem_def)
  show ?thesis using native_fails_closed [OF p] p by (auto simp: envItem_def)
qed

text \<open>The exit codes of \<open>xdauth-login\<close>: 2 exactly for a missing flag; 0 exactly when the sign-in was approved, and
  then the artifact is printed last; 1 otherwise.\<close>

theorem login_exit_codes:
  assumes "login_run fuel C T ctxDone fl w n = Some (p, n2)"
  shows "px_code p \<in> {0, 1, 2} \<and> (px_code p = 2 \<longleftrightarrow> lf_brokerURL fl = '''' \<or> lf_loginHint fl = '''') \<and>
    (px_code p = 0 \<longleftrightarrow> (\<exists>sess a. signed_in fuel C T ctxDone (login_request fl) w n sess a n2 \<and>
      px_stdout p = login_prompt sess @ [login_artifact C a @ nl]))"
  by (rule login_outcome [OF assms])

theorem login_exit_codes_witness:
  "\<exists>p. login_run (Suc 0) demo_json demo_ok_transport (\<lambda>_. False)
     \<lparr>lf_brokerURL = ''https://b'', lf_loginHint = '''', lf_clientHost = ''h''\<rparr> demo_client_world 0 = Some (p, 0) \<and>
     px_code p = 2"
proof -
  let ?fl = "\<lparr>lf_brokerURL = ''https://b'', lf_loginHint = '''', lf_clientHost = ''h''\<rparr>"
  obtain p where p: "login_run (Suc 0) demo_json demo_ok_transport (\<lambda>_. False) ?fl
      demo_client_world 0 = Some (p, 0)"
    by (simp add: login_run_def)
  show ?thesis using login_exit_codes [OF p] p by auto
qed

lemma session_loop_writes:
  "WriteOut text \<in> set (session_loop shellMessage perms reqs) \<Longrightarrow>
    text = shellMessage @ nl @ ''logged in as: '' @
      (case perms of None \<Rightarrow> '''' | Some p \<Rightarrow> (case p ''xdauth-identity'' of None \<Rightarrow> '''' | Some v \<Rightarrow> v)) @ nl"
  by (induction reqs) (auto simp: maybe_reply_def Let_def split: if_splits)

text \<open>How the SSH server's sign-in ends. It grants permissions exactly when the peer took the instruction and the
  sign-in was approved with an artifact, and they name the artifact's identity; it panics exactly when the broker
  says approved without an artifact; otherwise the attempt is refused with an error.\<close>

theorem keyboard_auth_outcomes:
  assumes "keyboardInteractiveAuth fuel C T ctxDone brokerURL user addr challenge w n = Some (out, n2)"
  shows "(\<forall>perms. out = AuthPermissions perms \<longleftrightarrow>
      (\<exists>sess a. signed_in fuel C T ctxDone (ssh_request brokerURL user addr) w n sess (Some a) n2 \<and>
        challenge (ssh_instruction sess) = None \<and> perms = [''xdauth-identity'' \<mapsto> a_Identity a])) \<and>
    (out = AuthPanic \<longleftrightarrow>
      (\<exists>sess. signed_in fuel C T ctxDone (ssh_request brokerURL user addr) w n sess None n2 \<and>
        challenge (ssh_instruction sess) = None))"
  by (rule keyboard_outcome [OF assms])

theorem keyboard_auth_outcomes_witness:
  "keyboardInteractiveAuth (Suc 0) demo_json demo_ok_transport (\<lambda>_. False) ''https://b'' ''alice'' ''10.0.0.1:22''
     (\<lambda>_. None) demo_client_world 0 = Some (AuthPermissions [''xdauth-identity'' \<mapsto> ''alice''], 2) \<and>
   (\<exists>sess a. signed_in (Suc 0) demo_json demo_ok_transport (\<lambda>_. False) (ssh_request ''https://b'' ''alice'' ''10.0.0.1:22'')
      demo_client_world 0 sess (Some a) 2)"
proof -
  let ?req = "ssh_request ''https://b'' ''alice'' ''10.0.0.1:22''"
  obtain sess w1 where s: "client_Start demo_ok_transport ?req demo_client_world 0 = (Inr sess, w1, 1)"
    "client_Poll (Suc 0) demo_json demo_ok_transport (\<lambda>_. False) sess 1 =
       Some (Inr \<lparr>rr_Status = ''approved'', rr_Artifact = Some demo_wire_artifact\<rparr>, [], 2)"
    using demo_sign_in [of ?req] by (auto simp: ssh_request_def)
  have k: "keyboardInteractiveAuth (Suc 0) demo_json demo_ok_transport (\<lambda>_. False) ''https://b'' ''alice'' ''10.0.0.1:22''
     (\<lambda>_. None) demo_client_world 0 = Some (AuthPermissions [''xdauth-identity'' \<mapsto> ''alice''], 2)"
    using s by (simp add: keyboardInteractiveAuth_def demo_wire_artifact_def)
  show ?thesis using keyboard_auth_outcomes [OF k] k by blast
qed

text \<open>
  What the server relies on in the SSH library: on a connection, the library calls the configured callback with the
  connection's address, any number of times until it grants permissions; the handshake succeeds only then, for the user
  of that last call, and the connection carries the permissions it returned.
\<close>

inductive auth_attempts :: "'n ssh_callback \<Rightarrow> string \<Rightarrow> 'n \<Rightarrow> 'n \<Rightarrow> bool" for callback nConn where
  none: "auth_attempts callback nConn n n"
| refused: "auth_attempts callback nConn n n1 \<Longrightarrow> callback user nConn challenge w n1 = Some (AuthError e, n2) \<Longrightarrow>
    auth_attempts callback nConn n n2"

definition handshake_authenticates :: "('n, 'k) ssh_handshake \<Rightarrow> ('n, 'k) ssh_config \<Rightarrow> bool" where
  "handshake_authenticates newServerConn config \<longleftrightarrow>
     (\<forall>nConn n sshConn chans n1. newServerConn nConn config n = Some (Inr (sshConn, chans), n1) \<longrightarrow>
        (\<exists>challenge w n0 p. auth_attempts (sc_KeyboardInteractiveCallback config) nConn n n0 \<and>
           sc_KeyboardInteractiveCallback config (sn_User sshConn) nConn challenge w n0 = Some (AuthPermissions p, n1) \<and>
           sn_Permissions sshConn = Some p))"

text \<open>No shell without a sign-in. If a connection gets any output on a session channel, then on this connection, after any number of
  refused attempts, a sign-in through the broker was approved for the connection's user, with an artifact, and the output
  names the artifact's identity.\<close>

lemma shell_needs_sign_in:
  assumes "handshake_authenticates newServerConn ((newServerConfig fuel C T ctxDone brokerURL)\<lparr>sc_hostKeys := keys\<rparr>)"
    and "handleConn newServerConn nConn ((newServerConfig fuel C T ctxDone brokerURL)\<lparr>sc_hostKeys := keys\<rparr>) shellMessage n =
      Some (outs, n1)"
    and "ChannelServed acts \<in> set outs" and "WriteOut text \<in> set acts"
  obtains sshConn chans n0 w sess a where
    "newServerConn nConn ((newServerConfig fuel C T ctxDone brokerURL)\<lparr>sc_hostKeys := keys\<rparr>) n = Some (Inr (sshConn, chans), n1)"
    "auth_attempts (keyboardInteractiveAuth fuel C T ctxDone brokerURL) nConn n n0"
    "signed_in fuel C T ctxDone (ssh_request brokerURL (sn_User sshConn) nConn) w n0 sess (Some a) n1"
    "text = shellMessage @ nl @ ''logged in as: '' @ a_Identity a @ nl"
proof -
  let ?cfg = "(newServerConfig fuel C T ctxDone brokerURL)\<lparr>sc_hostKeys := keys\<rparr>"
  obtain sshConn chans where h: "newServerConn nConn ?cfg n = Some (Inr (sshConn, chans), n1)"
    using assms(2,3) by (auto simp: handleConn_def split: option.splits sum.splits)
  obtain challenge w n0 p where at: "auth_attempts (keyboardInteractiveAuth fuel C T ctxDone brokerURL) nConn n n0"
      and cb: "keyboardInteractiveAuth fuel C T ctxDone brokerURL (sn_User sshConn) nConn challenge w n0 = Some (AuthPermissions p, n1)"
      and p: "sn_Permissions sshConn = Some p"
    using assms(1) [unfolded handshake_authenticates_def, rule_format, OF h] by (auto simp: newServerConfig_def)
  obtain sess a where s: "signed_in fuel C T ctxDone (ssh_request brokerURL (sn_User sshConn) nConn) w n0 sess (Some a) n1"
      "p = [''xdauth-identity'' \<mapsto> a_Identity a]"
    using cb by (rule keyboard_permissions)
  obtain reqs where "acts = serveSession shellMessage (sn_Permissions sshConn) reqs"
    using assms(2,3) h by (auto simp: handleConn_def split: if_splits)
  then have "text = shellMessage @ nl @ ''logged in as: '' @ a_Identity a @ nl"
    using assms(4) p s(2) by (auto simp: serveSession_def dest!: session_loop_writes)
  then show ?thesis using that h at s(1) by blast
qed

text \<open>A handshake that makes one attempt, for alice, and opens one channel for a shell.\<close>

definition demo_handshake :: "world \<Rightarrow> ('n, 'k) ssh_handshake" where
  "demo_handshake w nConn config n =
     (case sc_KeyboardInteractiveCallback config ''alice'' nConn (\<lambda>_. None) w n of
        None \<Rightarrow> None
      | Some (AuthPermissions p, n1) \<Rightarrow>
          Some (Inr (\<lparr>sn_User = ''alice'', sn_Permissions = Some p\<rparr>, [\<lparr>ch_Type = ''session'', ch_AcceptErr = False,
                               ch_Requests = [\<lparr>rq_Type = ''shell'', rq_WantReply = True\<rparr>]\<rparr>]), n1)
      | Some (_, n1) \<Rightarrow> Some (Inl ''permission denied'', n1))"

lemma demo_handshake_authenticates: "handshake_authenticates (demo_handshake w) config"
  unfolding handshake_authenticates_def demo_handshake_def
  by (fastforce intro: auth_attempts.none split: option.splits auth_result.splits)

end
