(* ===== verification/EndToEnd.thy ===== *)
theory EndToEnd
  imports Broker_Demo ClientCmds
begin

text \<open>
  A client program connected to a broker. The connection carries the client's requests to the broker's handlers and
  their answers back as the bytes of JSON; between any two of them the broker may serve any requests of anybody else, and its
  sweeper may run. The properties of broker runs then become properties of the login programs: what must have
  happened for a program to let its user in.
\<close>

section \<open>The connection\<close>

text \<open>
  What the broker does before it serves the client's next request, and how that request fares: the requests of others
  and the sweeps, the clock and random bytes the request is served with, and whether its answer is lost on the way.
\<close>

datatype happening = Served endpoint request world | Swept time

record turn =
  tn_before :: "happening list"
  tn_world :: world
  tn_lost :: "string option"

record 'l net =
  net_trace :: "exchange list"
  net_broker :: "(memory, 'l) broker"
  net_turns :: "turn list"

definition net_serve ::
  "(memory, 'l) env \<Rightarrow> endpoint \<Rightarrow> request \<Rightarrow> world \<Rightarrow> 'l net \<Rightarrow> reply \<times> 'l net" where
  "net_serve env ep r w n =
     (case serve env ep r (net_broker n) w of
        (rep, b', w') \<Rightarrow> (rep, n\<lparr>net_trace := (ep, r, rep) # net_trace n, net_broker := b'\<rparr>))"

definition net_sweep :: "time \<Rightarrow> 'l net \<Rightarrow> 'l net" where
  "net_sweep now n =
     n\<lparr>net_broker := (net_broker n)\<lparr>b_store := memory_sweep now (b_store (net_broker n))\<rparr>\<rparr>"

fun happen :: "(memory, 'l) env \<Rightarrow> happening \<Rightarrow> 'l net \<Rightarrow> 'l net" where
  "happen env (Served ep r w) n = snd (net_serve env ep r w n)"
| "happen env (Swept now) n = net_sweep now n"

text \<open>
  The answer on the wire: its status and the bytes of its body, as \<open>writeJSON\<close> sends them (nothing for a value that has no
  JSON form); starts and polls have no other bodies. A panic closes the connection.
\<close>

definition body_bytes :: "json_conv \<Rightarrow> body \<Rightarrow> string" where
  "body_bytes C b =
     (case b of
        BodyStart sr \<Rightarrow> json_Encode (json_of_start sr)
      | BodyPoll p \<Rightarrow> (case json_of_poll C p of None \<Rightarrow> '''' | Some j \<Rightarrow> json_Encode j)
      | _ \<Rightarrow> '''')"

definition wire_answer :: "json_conv \<Rightarrow> reply \<Rightarrow> string + int \<times> string" where
  "wire_answer C rep =
     (case rep of
        Panicked \<Rightarrow> Inl ''EOF''
      | Reply x \<Rightarrow> Inr (rs_Status x, body_bytes C (rs_Body x)))"

definition endpoint_of :: "string \<Rightarrow> string \<Rightarrow> endpoint option" where
  "endpoint_of base url =
     (if url = base @ ''/auth/start'' then Some EpStart
      else if url = base @ ''/auth/poll'' then Some EpPoll else None)"

text \<open>The client's request as the broker receives it; \<open>from\<close> holds its remote address, headers and connection.\<close>

definition wire_request :: "request \<Rightarrow> string \<Rightarrow> request" where
  "wire_request from body = from\<lparr>r_Method := ''POST'', r_Body := body\<rparr>"

definition net_Do ::
  "(memory, 'l) env \<Rightarrow> json_conv \<Rightarrow> string \<Rightarrow> request \<Rightarrow> string \<Rightarrow> string \<Rightarrow> 'l net
     \<Rightarrow> (string + int \<times> string) \<times> 'l net" where
  "net_Do env C base from url body n =
     (case net_turns n of
        [] \<Rightarrow> (Inl ''connection refused'', n)
      | t # ts \<Rightarrow>
          let n1 = fold (happen env) (tn_before t) (n\<lparr>net_turns := ts\<rparr>) in
          (case endpoint_of base url of
             None \<Rightarrow> (Inr (404, ''404 page not found''), n1)
           | Some ep \<Rightarrow>
               let (rep, n2) = net_serve env ep (wire_request from body) (tn_world t) n1 in
               (case tn_lost t of Some err \<Rightarrow> (Inl err, n2) | None \<Rightarrow> (wire_answer C rep, n2))))"

definition broker_link ::
  "(memory, 'l) env \<Rightarrow> json_conv \<Rightarrow> string \<Rightarrow> request \<Rightarrow> 'l net transport" where
  "broker_link env C base from = \<lparr>tr_urlOK = (\<lambda>_. True), tr_Do = net_Do env C base from\<rparr>"

section \<open>Runs of the broker behind the connection\<close>

abbreviation net_ok :: "(memory, 'l) env \<Rightarrow> config \<Rightarrow> 'l net \<Rightarrow> bool" where
  "net_ok env cfg n \<equiv> broker_reach env m_sessions cfg (net_trace n) (net_broker n)"

lemma net_serve_ok:
  assumes "net_ok env cfg n" and "net_serve env ep r w n = (rep, n')"
  shows "net_ok env cfg n' \<and> net_trace n' = (ep, r, rep) # net_trace n"
  using assms by (auto simp: net_serve_def intro: broker_reach.served split: prod.splits)

lemma net_sweep_ok: "net_ok env cfg n \<Longrightarrow> net_ok env cfg (net_sweep now n)"
  by (simp add: net_sweep_def) (rule broker_reach.evicted, auto simp: map_le_def dom_def memory_sweep_lookup)

lemma happen_ok:
  assumes "net_ok env cfg n"
  shows "net_ok env cfg (happen env e n) \<and> suffix (net_trace n) (net_trace (happen env e n))"
proof (cases e)
  case (Served ep r w)
  obtain rep n' where s: "net_serve env ep r w n = (rep, n')" by force
  have "happen env e n = n'" using Served s by simp
  with net_serve_ok [OF assms s] show ?thesis by (auto simp del: happen.simps intro: suffix_ConsI)
next
  case (Swept now)
  then show ?thesis using net_sweep_ok [OF assms, of now] by (simp add: net_sweep_def)
qed

lemma fold_happen_ok:
  "net_ok env cfg n \<Longrightarrow> net_ok env cfg (fold (happen env) es n) \<and> suffix (net_trace n) (net_trace (fold (happen env) es n))"
proof (induction es arbitrary: n)
  case (Cons e es)
  note h = happen_ok [OF Cons.prems, of e]
  with Cons.IH [of "happen env e n"] show ?case using suffix_order.trans by auto
qed simp

text \<open>
  A request of the client: the broker runs on, and an answer that arrives is the one the handler gave to that
  request.
\<close>

lemma net_Do_ok:
  assumes n: "net_ok env cfg n" and "net_Do env C base from url body n = (res, n')"
  shows "net_ok env cfg n' \<and> suffix (net_trace n) (net_trace n')"
    and "res = Inr (st, doc) \<Longrightarrow> endpoint_of base url = Some ep \<Longrightarrow>
      \<exists>n1 w rep. net_ok env cfg n1 \<and> suffix (net_trace n) (net_trace n1) \<and>
        net_serve env ep (wire_request from body) w n1 = (rep, n') \<and> wire_answer C rep = res"
proof -
  have "net_ok env cfg n' \<and> suffix (net_trace n) (net_trace n') \<and>
    (res = Inr (st, doc) \<and> endpoint_of base url = Some ep \<longrightarrow>
      (\<exists>n1 w rep. net_ok env cfg n1 \<and> suffix (net_trace n) (net_trace n1) \<and>
        net_serve env ep (wire_request from body) w n1 = (rep, n') \<and> wire_answer C rep = res))"
  proof (cases "net_turns n")
    case Nil
    then show ?thesis using assms by (auto simp: net_Do_def)
  next
    case (Cons t ts)
    define n1 where "n1 = fold (happen env) (tn_before t) (n\<lparr>net_turns := ts\<rparr>)"
    have n1: "net_ok env cfg n1" "suffix (net_trace n) (net_trace n1)"
      using fold_happen_ok [of env cfg "n\<lparr>net_turns := ts\<rparr>" "tn_before t"] n by (simp_all add: n1_def)
    note do = assms(2) [unfolded net_Do_def Cons list.case Let_def, folded n1_def]
    show ?thesis
    proof (cases "endpoint_of base url")
      case None
      then show ?thesis using do n1 by simp
    next
      case (Some ep')
      obtain rep n2 where s: "net_serve env ep' (wire_request from body) (tn_world t) n1 = (rep, n2)" by force
      have "n' = n2" "tn_lost t = None \<Longrightarrow> res = wire_answer C rep" "tn_lost t \<noteq> None \<Longrightarrow> \<exists>err. res = Inl err"
        using do Some s by (auto split: option.splits)
      moreover have "suffix (net_trace n) (net_trace n2)" "net_ok env cfg n2"
        using net_serve_ok [OF n1(1) s] n1(2) by (auto intro: suffix_ConsI)
      ultimately show ?thesis using Some s n1 by (cases "tn_lost t") auto
    qed
  qed
  then show "net_ok env cfg n' \<and> suffix (net_trace n) (net_trace n')"
    and "res = Inr (st, doc) \<Longrightarrow> endpoint_of base url = Some ep \<Longrightarrow>
      \<exists>n1 w rep. net_ok env cfg n1 \<and> suffix (net_trace n) (net_trace n1) \<and>
        net_serve env ep (wire_request from body) w n1 = (rep, n') \<and> wire_answer C rep = res"
    by blast+
qed

text \<open>The client's start: the session it got was handed out to its own request.\<close>

lemma start_reply_status:
  assumes "serve env EpStart r b w = (Reply x, b', w')" and "rs_Status x = 200"
  shows "\<exists>sr q. rs_Body x = BodyStart sr \<and> decode_startRequest (r_Body r) = Some q"
  using assms
  by (auto simp: handleStart_def start_session_def writeJSON_def writeJSONError_def Let_def
      split: option.splits prod.splits if_splits)

lemma decode_start_id:
  "decode_startWireResponse (json_Encode (json_of_start sr)) = Some wire \<Longrightarrow>
    sw_SessionID wire = json_string (sr_SessionID sr) \<and> sw_UserCode wire = json_string (sr_UserCode sr)"
  by (auto simp: decode_startWireResponse_def json_of_start_def wire_text wire_simps simp del: json_fold.simps
      split: option.splits)

lemma decode_poll_status:
  "conv_ok C \<Longrightarrow> json_of_poll C p = Some j \<Longrightarrow> decode_pollWireResponse C (json_Encode j) = Some wire \<Longrightarrow>
    pw_Status wire = json_string (po_Status p)"
  by (auto simp: decode_poll_artifact split: if_splits)

lemma link_Do: "tr_Do (broker_link env C base from) = net_Do env C base from"
  by (simp add: broker_link_def)

lemma newPKCEPair_S256: "newPKCEPair w = (Some (v, c), w1) \<Longrightarrow> c = S256 v"
  by (auto simp: newPKCEPair_def Let_def S256_def split: option.splits prod.splits)

lemma client_Start_Inr:
  assumes "client_Start T req w n = (Inr sess, w1, n1)"
  obtains v doc wire where "newPKCEPair w = (Some (v, S256 v), w1)"
    "tr_Do T (strings_TrimRight (CHR ''/'') (cq_BrokerURL req) @ ''/auth/start'') (json_Marshal (startWireRequest req (S256 v))) n =
      (Inr (200, doc), n1)"
    "decode_startWireResponse doc = Some wire" "cs_ID sess = sw_SessionID wire" "cs_UserCode sess = sw_UserCode wire"
    "cs_verifier sess = v" "cs_brokerURL sess = strings_TrimRight (CHR ''/'') (cq_BrokerURL req)"
proof -
  let ?url = "strings_TrimRight (CHR ''/'') (cq_BrokerURL req) @ ''/auth/start''"
  have ne: "\<not> (cq_BrokerURL req = '''' \<or> cq_LoginHint req = '''')" using client_Start_hint [OF assms] by simp
  obtain po w2 where p: "newPKCEPair w = (po, w2)" by force
  then obtain v c where po: "po = Some (v, c)" using assms ne by (cases po) (auto simp: client_Start_def)
  have c: "c = S256 v" using newPKCEPair_S256 p po by simp
  have url: "tr_urlOK T ?url" using assms ne p po by (auto simp: client_Start_def Let_def split: if_splits)
  note st = assms [unfolded client_Start_def p po prod.case option.case Let_def if_not_P [OF ne]]
  obtain res n2 where do: "tr_Do T ?url (json_Marshal (startWireRequest req c)) n = (res, n2)" by force
  then obtain status doc where r: "res = Inr (status, doc)" using st url by (cases res) auto
  obtain wire where wire: "decode_startWireResponse doc = Some wire"
    using st url do r by (cases "decode_startWireResponse doc") auto
  have "status = 200" using st url do r wire by (simp split: if_splits)
  then show ?thesis using that [of v doc wire] st url do r wire p po c by auto
qed

lemma link_start:
  assumes n: "net_ok env cfg n" and base: "strings_TrimRight (CHR ''/'') (cq_BrokerURL req) = base"
    and "client_Start (broker_link env C base from) req w n = (Inr sess, w1, n1)"
  shows "net_ok env cfg n1 \<and> cs_brokerURL sess = base \<and>
    (\<exists>x \<in> set (net_trace n1). start_exchange (cs_ID sess) (json_string (cq_LoginHint req)) (S256 (cs_verifier sess)) (cs_UserCode sess) x) \<and>
    json_string (cs_ID sess) = cs_ID sess \<and> json_string (cs_verifier sess) = cs_verifier sess"
proof -
  let ?url = "base @ ''/auth/start''"
  have ep: "endpoint_of base ?url = Some EpStart" by (simp add: endpoint_of_def)
  obtain v doc wire where do: "net_Do env C base from ?url (json_Marshal (startWireRequest req (S256 v))) n = (Inr (200, doc), n1)"
      and wire: "decode_startWireResponse doc = Some wire"
      and sess: "cs_ID sess = sw_SessionID wire" "cs_UserCode sess = sw_UserCode wire" "cs_verifier sess = v"
        "cs_brokerURL sess = base" and verifier: "json_string v = v"
    using assms(3) by (rule client_Start_Inr) (auto simp: base link_Do newPKCEPair_def Let_def split: option.splits prod.splits)
  obtain n0 w0 rep where s: "net_ok env cfg n0"
      "net_serve env EpStart (wire_request from (json_Marshal (startWireRequest req (S256 v)))) w0 n0 = (rep, n1)"
      "wire_answer C rep = Inr (200, doc)"
    using net_Do_ok(2) [OF n do refl ep] by blast
  obtain x where x: "rep = Reply x" "rs_Status x = 200" using s(3) by (cases rep) (auto simp: wire_answer_def)
  obtain b' w' where sv: "serve env EpStart (wire_request from (json_Marshal (startWireRequest req (S256 v)))) (net_broker n0) w0 = (Reply x, b', w')"
    using s(2) x(1) by (auto simp: net_serve_def split: prod.splits)
  then obtain sr where sr: "rs_Body x = BodyStart sr" using start_reply_status x(2) by blast
  note ascii = start_reply_ascii [OF sv sr]
  from sr have "sr_SessionID sr = cs_ID sess" "sr_UserCode sr = cs_UserCode sess"
    using ascii s(3) x wire sess decode_start_id [of sr wire] by (auto simp: wire_answer_def body_bytes_def)
  moreover from this have "start_exchange (cs_ID sess) (json_string (cq_LoginHint req)) (S256 (cs_verifier sess)) (cs_UserCode sess)
      (EpStart, wire_request from (json_Marshal (startWireRequest req (S256 v))), rep)"
    using sess x(1) sr
    by (auto simp: start_exchange_def wire_request_def decode_startRequest_wire reply_start_def)
  ultimately show ?thesis using net_serve_ok [OF s(1,2)] sess(3,4) ascii verifier by auto
qed

text \<open>Polls: an answer that says approved carried an artifact out of the broker.\<close>

lemma poll_reply_approved:
  assumes "poll v now ttl s = (PollReturn res, s')" and "poll_reply res sid b = (Reply x, b')"
    and "rs_Body x = BodyPoll p" and "po_Status p = ''approved''"
  shows "po_Artifact p \<noteq> None"
proof -
  have "pr_Status res = PollApproved \<Longrightarrow> pr_Artifact res \<noteq> None"
    using assms(1) by (cases rule: poll_cases) (auto simp: poll_status_def)
  moreover have "string_of_status st = ''approved'' \<Longrightarrow> st = PollApproved" for st by (cases st) simp_all
  ultimately show ?thesis using assms(2-4) by (auto simp: poll_reply_def writeJSON_def split: if_splits)
qed

lemma poll_answer_cases:
  assumes h: "serve env EpPoll r b w = (Reply x, b', w')"
  obtains v now ttl s res s' sid b0 where "poll v now ttl s = (PollReturn res, s')" "poll_reply res sid b0 = (Reply x, b')"
  | p where "rs_Body x = BodyPoll p" "po_Artifact p = None" "po_Status p \<noteq> ''approved''"
proof (cases "decode_pollRequest (r_Body r)")
  case None
  then show ?thesis using h that(2) by (auto simp: handlePoll_def writeJSON_def writeJSONError_def)
next
  case (Some q)
  note h' = h [unfolded serve.simps handlePoll_def Some option.case]
  show ?thesis
  proof (cases "pq_SessionID q = ''''")
    case True
    then show ?thesis using h' that(2) by (auto simp: writeJSON_def writeJSONError_def)
  next
    case False
    note h'' = h' [unfolded if_not_P [OF False]]
    show ?thesis
    proof (cases "b_Get env (pq_SessionID q) w b")
      case (Inl e)
      then show ?thesis using h'' that(2) by (auto simp: writeJSON_def)
    next
      case (Inr s)
      obtain now w1 where now: "time_Now w = (now, w1)" by force
      obtain out s1 where out: "poll (pq_CodeVerifier q) now (cfg_ArtifactTTL (b_cfg b)) s = (out, s1)" by force
      note h3 = h'' [unfolded Inr sum.case Let_def now prod.case out]
      show ?thesis
      proof (cases out)
        case (PollReturn res)
        then obtain sid b0 where "poll_reply res sid b0 = (Reply x, b')"
          using h3 by (auto split: prod.splits if_splits)
        then show ?thesis using that(1) out PollReturn by blast
      qed (use h3 that(2) in \<open>auto simp: writeJSON_def writeJSONError_def split: if_splits\<close>)
    qed
  qed
qed

lemma poll_answer_approved:
  assumes "serve env EpPoll r b w = (Reply x, b', w')" and "rs_Body x = BodyPoll p" and "po_Status p = ''approved''"
  shows "po_Artifact p \<noteq> None"
  using assms(1)
proof (cases rule: poll_answer_cases)
  case (1 v now ttl s res s' sid b0)
  then show ?thesis using poll_reply_approved assms(2,3) by blast
qed (use assms in auto)

lemma poll_answer_artifact:
  assumes "serve env EpPoll r b w = (rep, b', w')" and "reply_artifact rep = Some a"
  shows "wire_answer C rep = Inr (200, body_bytes C (BodyPoll \<lparr>po_Status = ''approved'', po_Artifact = Some a, po_Error = ''''\<rparr>))"
proof -
  obtain x where x: "rep = Reply x" using assms(2) by (cases rep) (auto simp: reply_artifact_def)
  show ?thesis using assms(1) [unfolded x]
  proof (cases rule: poll_answer_cases)
    case (1 v now ttl s res s' sid b0)
    then show ?thesis using assms(2) x
      by (auto simp: poll_reply_def writeJSON_def reply_artifact_def wire_answer_def split: if_splits)
  qed (use assms(2) x in \<open>auto simp: reply_artifact_def\<close>)
qed

lemma decode_poll_identity:
  assumes "conv_ok C" and "json_of_poll C p = Some j" and "decode_pollWireResponse C (json_Encode j) = Some wire"
    and "po_Artifact p = Some a"
  shows "\<exists>a'. pw_Artifact wire = Some a' \<and> a_Identity a' = json_string (a_Identity a)"
  using assms(2)
proof (cases rule: json_of_poll_members)
  case (2 b aj)
  then have "json_of_artifact C a = Some aj" "decode_artifact C None aj = Some (pw_Artifact wire)"
    using assms(3,4) unfolding decode_poll_artifact [OF assms(1,2)] by (auto split: if_splits)
  then show ?thesis by (rule decode_artifact_identity)
qed (use assms(4) in simp)

lemma link_pollOnce:
  assumes C: "conv_ok C" and n: "net_ok env cfg n" and base: "cs_brokerURL s = base"
    and po: "pollOnce C (broker_link env C base from) s n = (Inr (''approved'', art), n')"
  shows "\<exists>n1 w rep b' w' a. net_ok env cfg n1 \<and> suffix (net_trace n) (net_trace n1) \<and>
    serve env EpPoll (wire_request from (json_Marshal (pollWireRequest s))) (net_broker n1) w = (rep, b', w') \<and>
    reply_artifact rep = Some a \<and> net_trace n' = (EpPoll, wire_request from (json_Marshal (pollWireRequest s)), rep) # net_trace n1 \<and>
    (\<exists>a'. art = Some a' \<and> a_Identity a' = json_string (a_Identity a))"
proof -
  have ep: "endpoint_of base (base @ ''/auth/poll'') = Some EpPoll" by (simp add: endpoint_of_def)
  obtain doc wire where do: "net_Do env C base from (base @ ''/auth/poll'') (json_Marshal (pollWireRequest s)) n = (Inr (200, doc), n')"
      and wire: "decode_pollWireResponse C doc = Some wire" "pw_Status wire = ''approved''" "pw_Artifact wire = art"
    using po base by (auto simp: pollOnce_def Let_def link_Do broker_link_def split: if_splits option.splits prod.splits sum.splits)
  obtain n1 w rep where s: "net_ok env cfg n1" "suffix (net_trace n) (net_trace n1)"
      "net_serve env EpPoll (wire_request from (json_Marshal (pollWireRequest s))) w n1 = (rep, n')"
      "wire_answer C rep = Inr (200, doc)"
    using net_Do_ok(2) [OF n do refl ep] by blast
  obtain x where x: "rep = Reply x" using s(4) by (cases rep) (auto simp: wire_answer_def)
  obtain b' w' where sv: "serve env EpPoll (wire_request from (json_Marshal (pollWireRequest s))) (net_broker n1) w = (rep, b', w')"
    using s(3) by (auto simp: net_serve_def split: prod.splits)
  have "reply_start rep = None" using serve_start_only [OF sv] by simp
  moreover have "doc \<noteq> ''''" using wire(1) by (auto simp: decode_pollWireResponse_def json_members_def)
  ultimately obtain p j where p: "rs_Body x = BodyPoll p" "json_of_poll C p = Some j" "doc = json_Encode j"
    using s(4) x by (auto simp: wire_answer_def body_bytes_def reply_start_def split: body.splits option.splits)
  have "json_string (po_Status p) = ''approved''" using decode_poll_status [OF C p(2)] wire p(3) by simp
  then have "po_Status p = ''approved''" using json_string_reads_ascii [of "po_Status p"] by simp
  then obtain a where a: "po_Artifact p = Some a" using poll_answer_approved [OF sv [unfolded x] p(1)] by auto
  moreover have "\<exists>a'. art = Some a' \<and> a_Identity a' = json_string (a_Identity a)"
    using decode_poll_identity [OF C p(2) _ a] wire p(3) by auto
  moreover have "reply_artifact rep = Some a" using x p(1) a by (simp add: reply_artifact_def)
  ultimately show ?thesis using s(1,2) sv net_serve_ok [OF s(1,3)] by blast
qed

text \<open>The polling loop: if it ends with approved, its last poll did.\<close>

lemma pollOnce_ok:
  assumes "net_ok env cfg n" and "pollOnce C (broker_link env C base from) s n = (res, n')"
  shows "net_ok env cfg n' \<and> suffix (net_trace n) (net_trace n')"
proof -
  obtain r n1 where do: "net_Do env C base from (cs_brokerURL s @ ''/auth/poll'') (json_Marshal (pollWireRequest s)) n = (r, n1)" by force
  then have "n' = n1"
    using assms(2) by (auto simp: pollOnce_def Let_def broker_link_def split: sum.splits option.splits if_splits)
  then show ?thesis using net_Do_ok(1) [OF assms(1) do] by simp
qed

lemma link_poll_loop:
  "net_ok env cfg n \<Longrightarrow>
   poll_loop fuel C (broker_link env C base from) ctxDone s i iv waits n =
     Some (Inr \<lparr>rr_Status = ''approved'', rr_Artifact = art\<rparr>, ws, n') \<Longrightarrow>
   \<exists>m. net_ok env cfg m \<and> suffix (net_trace n) (net_trace m) \<and>
     pollOnce C (broker_link env C base from) s m = (Inr (''approved'', art), n')"
proof (induction fuel arbitrary: i iv waits n)
  case (Suc fuel)
  obtain res n1 where p: "pollOnce C (broker_link env C base from) s n = (res, n1)" by force
  have ok: "net_ok env cfg n1" "suffix (net_trace n) (net_trace n1)" using pollOnce_ok [OF Suc.prems(1) p] by auto
  obtain st a where r: "res = Inr (st, a)"
    using Suc.prems(2) p by (cases res) (auto simp: poll_loop_Suc split: if_splits)
  show ?case
  proof (cases "next_wait st iv")
    case None
    then have "final_outcome st a = Inr \<lparr>rr_Status = ''approved'', rr_Artifact = art\<rparr>" "n' = n1"
      using Suc.prems(2) p r by (auto simp: poll_loop_Suc split: if_splits)
    then have "st = ''approved''" "a = art" by (auto simp: final_outcome_def split: if_splits)
    then show ?thesis using p r Suc.prems(1) \<open>n' = n1\<close> by blast
  next
    case (Some iv')
    then have "poll_loop fuel C (broker_link env C base from) ctxDone s (Suc i) iv' (iv' # waits) n1 =
        Some (Inr \<lparr>rr_Status = ''approved'', rr_Artifact = art\<rparr>, ws, n')"
      using Suc.prems(2) p r by (auto simp: poll_loop_Suc split: if_splits)
    from Suc.IH [OF ok(1) this] show ?thesis using ok(2) suffix_order.trans by blast
  qed
qed simp

text \<open>With no id handed out twice, a session has one start exchange.\<close>

lemma started_in: "x \<in> set tr \<Longrightarrow> start_exchange sid h c code x \<Longrightarrow> sid \<in> set (started_ids tr)"
  by (induction tr) (auto simp: start_exchange_def split: option.splits)

lemma start_exchange_unique:
  assumes "distinct (started_ids tr)" and "x \<in> set tr" and "y \<in> set tr"
    and "start_exchange sid h c code x" and "start_exchange sid h' c' code' y"
  shows "h = h' \<and> c = c' \<and> code = code'"
  using assms
proof (induction tr)
  case (Cons z tr)
  have d: "distinct (started_ids tr)" using Cons.prems(1) by (cases z) (auto split: option.splits)
  have z: "sid \<notin> set (started_ids tr)" if "start_exchange sid k e cd z" for k e cd
    using that Cons.prems(1) by (auto simp: start_exchange_def)
  show ?case
  proof (cases "x = z \<or> y = z")
    case True
    then have "x = z \<and> y = z" using z Cons.prems(2-5) started_in by (metis set_ConsD)
    then show ?thesis using Cons.prems(4,5) by (auto simp: start_exchange_def)
  next
    case False
    then show ?thesis using Cons.IH d Cons.prems by auto
  qed
qed simp

lemma started_ids_suffix: "suffix tr' tr \<Longrightarrow> distinct (started_ids tr) \<Longrightarrow> distinct (started_ids tr')"
proof -
  have "distinct (started_ids (zs @ tr')) \<Longrightarrow> distinct (started_ids tr')" for zs
    by (induction zs) (auto dest: started_ids_Cons)
  then show "suffix tr' tr \<Longrightarrow> distinct (started_ids tr) \<Longrightarrow> distinct (started_ids tr')" by (auto simp: suffix_def)
qed

section \<open>What a sign-in means\<close>

text \<open>
  A verified login in a run: the client's own start request with its login hint, its PKCE challenge and the code it
  showed; later a login at the identity provider by a browser with the session's cookie, with a verified identity that
  equals the hint after normalisation; later an approval of that session with the code, from the browser that logged in.
\<close>

definition verified_login ::
  "('st, 'l) env \<Rightarrow> config \<Rightarrow> string \<Rightarrow> client_Session \<Rightarrow> exchange list \<Rightarrow> identity \<Rightarrow> bool" where
  "verified_login env cfg hint sess tr ident \<longleftrightarrow>
     (\<exists>secret t1 x2 t2 x1 x0. x0 \<in> set tr \<and>
        start_exchange (cs_ID sess) hint (S256 (cs_verifier sess)) (cs_UserCode sess) x0 \<and>
        tr = t1 @ x2 # t2 \<and> approval_exchange (e_unicode env) (cs_ID sess) (cs_UserCode sess) secret x2 \<and>
        x1 \<in> set t2 \<and> login_exchange (e_idp env) (cs_ID sess) ident secret x1 \<and>
        normalizer_or_default (e_unicode env) (cfg_IdentityNormalizer cfg) (id_Value ident) =
          normalizer_or_default (e_unicode env) (cfg_IdentityNormalizer cfg) hint)"

lemma verified_login_Cons: "verified_login env cfg hint sess tr ident \<Longrightarrow> verified_login env cfg hint sess (x # tr) ident"
  unfolding verified_login_def by (metis append_Cons list.set_intros(2))

lemma sign_in_verified:
  assumes idp: "identity_provider (e_idp env)" and store: "e_store env = Memory" and C: "conv_ok C"
    and n: "net_ok env cfg n" and base: "strings_TrimRight (CHR ''/'') (cq_BrokerURL req) = base"
    and s: "signed_in fuel C (broker_link env C base from) ctxDone req w n sess art n2"
    and d: "distinct (started_ids (net_trace n2))"
  obtains ident where "verified_login env cfg (json_string (cq_LoginHint req)) sess (net_trace n2) ident"
    "\<exists>a. art = Some a \<and> a_Identity a = json_string (id_Value ident)"
proof -
  have be: "broker_env env m_sessions" using idp store by (rule memory_broker_env)
  obtain w1 n1 waits where st: "client_Start (broker_link env C base from) req w n = (Inr sess, w1, n1)"
      and po: "client_Poll fuel C (broker_link env C base from) ctxDone sess n1 =
        Some (Inr \<lparr>rr_Status = ''approved'', rr_Artifact = art\<rparr>, waits, n2)"
    using s by (auto simp: signed_in_def)
  obtain x where n1: "net_ok env cfg n1" "cs_brokerURL sess = base" and x: "x \<in> set (net_trace n1)"
      "start_exchange (cs_ID sess) (json_string (cq_LoginHint req)) (S256 (cs_verifier sess)) (cs_UserCode sess) x"
      and ascii: "json_string (cs_ID sess) = cs_ID sess" "json_string (cs_verifier sess) = cs_verifier sess"
    using link_start [OF n base st] by blast
  obtain m where m: "net_ok env cfg m" "suffix (net_trace n1) (net_trace m)"
      "pollOnce C (broker_link env C base from) sess m = (Inr (''approved'', art), n2)"
    using link_poll_loop [OF n1(1)] po unfolding client_Poll_def Let_def by blast
  obtain m1 w2 rep b' w' a where p: "net_ok env cfg m1" "suffix (net_trace m) (net_trace m1)"
      "serve env EpPoll (wire_request from (json_Marshal (pollWireRequest sess))) (net_broker m1) w2 = (rep, b', w')"
      "reply_artifact rep = Some a"
      "net_trace n2 = (EpPoll, wire_request from (json_Marshal (pollWireRequest sess)), rep) # net_trace m1"
      "\<exists>a'. art = Some a' \<and> a_Identity a' = json_string (a_Identity a)"
    using link_pollOnce [OF C m(1) n1(2) m(3)] by blast
  have dm: "distinct (started_ids (net_trace m1))" using d p(5) started_ids_Cons by metis
  have xm: "x \<in> set (net_trace m1)" using x(1) m(2) p(2) by (auto dest: set_mono_suffix)
  have q: "decode_pollRequest (r_Body (wire_request from (json_Marshal (pollWireRequest sess)))) =
      Some \<lparr>pq_SessionID = cs_ID sess, pq_CodeVerifier = cs_verifier sess\<rparr>"
    by (simp add: wire_request_def decode_pollRequest_wire ascii)
  obtain hint code secret ident t1 x2 t2 x1 x0 where r:
      "x0 \<in> set (net_trace m1)" "start_exchange (cs_ID sess) hint (S256 (cs_verifier sess)) code x0"
      "net_trace m1 = t1 @ x2 # t2" "approval_exchange (e_unicode env) (cs_ID sess) code secret x2"
      "x1 \<in> set t2" "login_exchange (e_idp env) (cs_ID sess) ident secret x1"
      "normalizer_or_default (e_unicode env) (cfg_IdentityNormalizer cfg) (id_Value ident) =
        normalizer_or_default (e_unicode env) (cfg_IdentityNormalizer cfg) hint" "a_Identity a = id_Value ident"
    using broker_env.release_exchanges [OF be p(1) dm p(3,4)] q by auto
  have "hint = json_string (cq_LoginHint req)" "code = cs_UserCode sess" using start_exchange_unique [OF dm r(1) xm r(2) x(2)] by auto
  then have "verified_login env cfg (json_string (cq_LoginHint req)) sess (net_trace m1) ident"
    unfolding verified_login_def using r by metis
  then have v: "verified_login env cfg (json_string (cq_LoginHint req)) sess (net_trace n2) ident"
    unfolding p(5) by (rule verified_login_Cons)
  show ?thesis using v that p(6) r(8) by simp
qed

text \<open>Whatever comes of a sign-in, the broker behind the connection runs on.\<close>

lemma start_ok:
  assumes "net_ok env cfg n" and "client_Start (broker_link env C base from) req w n = (res, w1, n1)"
  shows "net_ok env cfg n1 \<and> suffix (net_trace n) (net_trace n1)"
proof -
  have "n1 = n \<or> (\<exists>url body r. net_Do env C base from url body n = (r, n1))"
    using assms(2) by (auto simp: client_Start_def Let_def broker_link_def split: if_splits option.splits prod.splits sum.splits)
  then show ?thesis using assms(1) net_Do_ok(1) [OF assms(1)] by blast
qed

lemma poll_loop_ok:
  "net_ok env cfg n \<Longrightarrow> poll_loop fuel C (broker_link env C base from) ctxDone s i iv waits n = Some (out, ws, n') \<Longrightarrow>
    net_ok env cfg n' \<and> suffix (net_trace n) (net_trace n')"
proof (induction fuel arbitrary: i iv waits n)
  case (Suc fuel)
  obtain res n1 where p: "pollOnce C (broker_link env C base from) s n = (res, n1)" by force
  note ok = pollOnce_ok [OF Suc.prems(1) p]
  have "n' = n \<or> n' = n1 \<or> (\<exists>i iv waits. poll_loop fuel C (broker_link env C base from) ctxDone s i iv waits n1 = Some (out, ws, n'))"
    using Suc.prems(2) p by (auto simp: poll_loop_Suc split: if_splits sum.splits prod.splits option.splits)
  then show ?case using Suc.prems(1) ok Suc.IH suffix_order.trans by blast
qed simp

lemma signed_in_ok:
  assumes "net_ok env cfg n" and "signed_in fuel C (broker_link env C base from) ctxDone req w n sess a n2"
  shows "net_ok env cfg n2 \<and> suffix (net_trace n) (net_trace n2)"
proof -
  obtain w1 n1 out ws where st: "client_Start (broker_link env C base from) req w n = (Inr sess, w1, n1)"
      and po: "client_Poll fuel C (broker_link env C base from) ctxDone sess n1 = Some (out, ws, n2)"
    using assms(2) by (auto simp: signed_in_def)
  have n1: "net_ok env cfg n1" "suffix (net_trace n) (net_trace n1)" using start_ok [OF assms(1) st] by auto
  show ?thesis using poll_loop_ok [OF n1(1) po [unfolded client_Poll_def Let_def]] n1(2) suffix_order.trans by blast
qed

lemma keyboard_ok:
  assumes "net_ok env cfg n"
    and "keyboardInteractiveAuth fuel C (broker_link env C base from) ctxDone brokerURL user addr challenge w n = Some (out, n2)"
  shows "net_ok env cfg n2 \<and> suffix (net_trace n) (net_trace n2)"
proof -
  obtain res w1 n1 where st: "client_Start (broker_link env C base from) (ssh_request brokerURL user addr) w n = (res, w1, n1)"
    by (metis prod_cases3)
  note ok = start_ok [OF assms(1) st]
  have "n2 = n1 \<or> (\<exists>sess out ws. client_Poll fuel C (broker_link env C base from) ctxDone sess n1 = Some (out, ws, n2))"
    using assms(2) st by (auto simp: keyboardInteractiveAuth_def split: sum.splits option.splits prod.splits if_splits)
  then show ?thesis
  proof (elim disjE exE)
    fix sess out ws
    assume "client_Poll fuel C (broker_link env C base from) ctxDone sess n1 = Some (out, ws, n2)"
    from poll_loop_ok [OF conjunct1 [OF ok] this [unfolded client_Poll_def Let_def]] show ?thesis
      using ok suffix_order.trans by blast
  qed (use ok in simp)
qed

lemma attempts_ok:
  assumes "auth_attempts (keyboardInteractiveAuth fuel C (broker_link env C base from) ctxDone brokerURL) nConn n n0"
  shows "net_ok env cfg n \<Longrightarrow> net_ok env cfg n0 \<and> suffix (net_trace n) (net_trace n0)"
  using assms
proof (induction rule: auth_attempts.induct)
  case (refused n n1 user challenge w e n2)
  then show ?case using keyboard_ok [OF _ refused.hyps(2)] suffix_order.trans by blast
qed simp

section \<open>A concrete sign-in\<close>

text \<open>
  The random bytes of the PKCE example of RFC 7636, and the login of theory \<open>Broker_Demo\<close> as what happens between the
  client's start and its first poll.
\<close>

definition demo_bytes :: "byte list" where
  "demo_bytes = [116, 24, 223, 180, 151, 153, 224, 37, 79, 250, 96, 125, 216, 173, 187, 186,
     22, 212, 37, 77, 105, 214, 191, 240, 91, 88, 5, 88, 83, 132, 141, 121]"

definition demo_pkce_world :: world where
  "demo_pkce_world = \<lparr>w_rand = (\<lambda>i. demo_bytes ! i), w_rfail = (\<lambda>_. False), w_rpos = 0, w_clock = int, w_tick = 0\<rparr>"

definition demo_link :: "unit net transport" where
  "demo_link = broker_link demo_env demo_json ''https://auth.example'' blank_request"

definition demo_turns :: "turn list" where
  "demo_turns =
     [\<lparr>tn_before = [], tn_world = demo_world, tn_lost = None\<rparr>,
      \<lparr>tn_before = [Served EpVerify demo_verify demo_world, Served EpIdPResponse demo_callback demo_world,
                    Served EpApprove demo_approval demo_world], tn_world = demo_world, tn_lost = None\<rparr>]"

definition demo_net :: "unit net" where
  "demo_net = \<lparr>net_trace = [], net_broker = demo_broker, net_turns = demo_turns\<rparr>"

lemma demo_net_ok: "net_ok demo_env demo_cfg demo_net"
  unfolding demo_net_def demo_broker_def by (simp add: broker_reach.init NewMemory_def)

lemma demo_raw: "rand_Read 32 demo_pkce_world = (Some demo_bytes, demo_pkce_world\<lparr>w_rpos := 32\<rparr>)"
  by (simp add: rand_Read_def demo_pkce_world_def demo_bytes_def upt_conv_Cons)

lemma demo_pkce: "newPKCEPair demo_pkce_world = (Some (demo_verifier, S256 demo_verifier), demo_pkce_world\<lparr>w_rpos := 32\<rparr>)"
  by (simp add: newPKCEPair_def demo_raw Let_def S256_def demo_bytes_def demo_verifier_def b64_alphabet_def)

definition demo_sign_in_request :: client_StartRequest where
  "demo_sign_in_request = \<lparr>cq_BrokerURL = ''https://auth.example/'', cq_LoginHint = ''alice'', cq_ClientKind = ''ssh'',
     cq_ClientHost = ''h''\<rparr>"

lemma demo_trim: "strings_TrimRight (CHR ''/'') ''https://auth.example/'' = ''https://auth.example''"
  by (simp add: strings_TrimRight_def)

lemma demo_wire_start: "wire_request blank_request (json_Marshal (startWireRequest demo_sign_in_request (S256 demo_verifier))) = demo_start"
  by (simp add: wire_request_def startWireRequest_def demo_sign_in_request_def demo_start_def json_string_ascii)

lemma demo_wire_poll:
  "cs_ID s = demo_sid \<Longrightarrow> cs_verifier s = demo_verifier \<Longrightarrow>
    wire_request blank_request (json_Marshal (pollWireRequest s)) = demo_poll_request"
  by (simp add: wire_request_def pollWireRequest_def demo_poll_request_def demo_ascii)

lemma demo_serves:
  "net_serve demo_env EpStart demo_start demo_world \<lparr>net_trace = tr, net_broker = demo_broker, net_turns = ts\<rparr> =
    (fst demo_out1, \<lparr>net_trace = (EpStart, demo_start, fst demo_out1) # tr, net_broker = fst (snd demo_out1), net_turns = ts\<rparr>)"
  "net_serve demo_env EpVerify demo_verify demo_world \<lparr>net_trace = tr, net_broker = fst (snd demo_out1), net_turns = ts\<rparr> =
    (fst demo_out2, \<lparr>net_trace = (EpVerify, demo_verify, fst demo_out2) # tr, net_broker = fst (snd demo_out2), net_turns = ts\<rparr>)"
  "net_serve demo_env EpIdPResponse demo_callback demo_world \<lparr>net_trace = tr, net_broker = fst (snd demo_out2), net_turns = ts\<rparr> =
    (fst demo_out3, \<lparr>net_trace = (EpIdPResponse, demo_callback, fst demo_out3) # tr, net_broker = fst (snd demo_out3), net_turns = ts\<rparr>)"
  "net_serve demo_env EpApprove demo_approval demo_world \<lparr>net_trace = tr, net_broker = fst (snd demo_out3), net_turns = ts\<rparr> =
    (fst demo_out4, \<lparr>net_trace = (EpApprove, demo_approval, fst demo_out4) # tr, net_broker = fst (snd demo_out4), net_turns = ts\<rparr>)"
  "net_serve demo_env EpPoll demo_poll_request demo_world \<lparr>net_trace = tr, net_broker = fst (snd demo_out4), net_turns = ts\<rparr> =
    (fst demo_out5, \<lparr>net_trace = (EpPoll, demo_poll_request, fst demo_out5) # tr, net_broker = fst (snd demo_out5), net_turns = ts\<rparr>)"
  by (simp_all add: net_serve_def demo_outs case_prod_beta del: serve.simps)

lemma start_answer:
  assumes "serve env EpStart r b w = (rep, b', w')" and "reply_start rep = Some sr"
  shows "wire_answer C rep = Inr (200, json_Encode (json_of_start sr))"
  using assms
  by (auto simp: body_bytes_def handleStart_def start_session_def writeJSON_def writeJSONError_def Let_def wire_answer_def reply_start_def
      split: option.splits prod.splits if_splits)

lemma demo_client_start:
  obtains sess w1 where "client_Start demo_link demo_sign_in_request demo_pkce_world demo_net =
      (Inr sess, w1, \<lparr>net_trace = [(EpStart, demo_start, fst demo_out1)], net_broker = fst (snd demo_out1), net_turns = tl demo_turns\<rparr>)"
    "cs_ID sess = demo_sid" "cs_verifier sess = demo_verifier" "cs_brokerURL sess = ''https://auth.example''"
proof -
  have sr: "reply_start (fst demo_out1) = Some demo_sr" "sr_ExpiresIn demo_sr = 300" "sr_Interval demo_sr = 3"
    using demo_started by auto
  have wa: "wire_answer demo_json (fst demo_out1) = Inr (200, json_Encode (json_of_start demo_sr))"
    by (rule start_answer [OF demo_outs(1) sr(1)])
  have "endpoint_of ''https://auth.example'' ''https://auth.example/auth/start'' = Some EpStart"
    by (simp add: endpoint_of_def)
  then have do: "tr_Do demo_link ''https://auth.example/auth/start'' (json_Marshal (startWireRequest demo_sign_in_request (S256 demo_verifier))) demo_net =
      (Inr (200, json_Encode (json_of_start demo_sr)),
       \<lparr>net_trace = [(EpStart, demo_start, fst demo_out1)], net_broker = fst (snd demo_out1), net_turns = tl demo_turns\<rparr>)"
    by (simp add: demo_link_def link_Do net_Do_def demo_net_def demo_turns_def demo_wire_start demo_serves wa)
  have dec: "decode_startWireResponse (json_Encode (json_of_start demo_sr)) =
      Some \<lparr>sw_SessionID = json_string (sr_SessionID demo_sr), sw_VerificationURI = json_string (sr_VerificationURI demo_sr),
        sw_UserCode = json_string (sr_UserCode demo_sr), sw_ExpiresIn = sr_ExpiresIn demo_sr, sw_Interval = sr_Interval demo_sr, sw_Error = ''''\<rparr>"
    by (rule decode_start_sent) (simp_all add: sr minInt64_def maxInt64_def)
  have url: "cq_BrokerURL demo_sign_in_request = ''https://auth.example/''" "cq_LoginHint demo_sign_in_request = ''alice''"
    by (simp_all add: demo_sign_in_request_def)
  define s where "s = \<lparr>cs_ID = json_string (sr_SessionID demo_sr), cs_VerificationURI = json_string (sr_VerificationURI demo_sr),
    cs_UserCode = json_string (sr_UserCode demo_sr), cs_ExpiresIn = wrap64 (sr_ExpiresIn demo_sr * second),
    cs_Interval = wrap64 (sr_Interval demo_sr * second), cs_brokerURL = ''https://auth.example'',
    cs_verifier = demo_verifier\<rparr>"
  have "client_Start demo_link demo_sign_in_request demo_pkce_world demo_net = (Inr s, demo_pkce_world\<lparr>w_rpos := 32\<rparr>,
      \<lparr>net_trace = [(EpStart, demo_start, fst demo_out1)], net_broker = fst (snd demo_out1), net_turns = tl demo_turns\<rparr>)"
    by (simp add: client_Start_def demo_pkce url demo_trim Let_def do dec s_def
        demo_link_def [THEN arg_cong, of tr_urlOK] broker_link_def)
  then show ?thesis by (rule that) (simp_all add: s_def demo_ascii(1) [unfolded demo_sid_def] demo_sid_def)
qed

lemma demo_artifact_json: "\<exists>j. json_of_artifact demo_json demo_artifact = Some j \<and> json_depth j \<le> 2"
proof -
  have "Option.is_none (encode_time demo_json (a_ApprovedAt demo_artifact)) = False"
    "Option.is_none (encode_time demo_json (a_ExpiresAt demo_artifact)) = False"
    by code_simp+
  moreover have "a_Claims demo_artifact = Map.empty" by (simp add: demo_artifact_def)
  ultimately show ?thesis by (simp add: json_of_artifact_def encode_claims_def Option.is_none_def) (elim exE; auto simp: encode_time_def)
qed

lemma demo_client_poll:
  assumes "cs_ID sess = demo_sid" and "cs_verifier sess = demo_verifier" and "cs_brokerURL sess = ''https://auth.example''"
  obtains art n2 where "client_Poll (Suc 0) demo_json demo_link (\<lambda>_. False) sess
      \<lparr>net_trace = [(EpStart, demo_start, fst demo_out1)], net_broker = fst (snd demo_out1), net_turns = tl demo_turns\<rparr> =
      Some (Inr \<lparr>rr_Status = ''approved'', rr_Artifact = Some art\<rparr>, [], n2)"
    "net_trace n2 = (EpPoll, demo_poll_request, fst demo_out5) # demo_trace"
proof -
  let ?n1 = "\<lparr>net_trace = [(EpStart, demo_start, fst demo_out1)], net_broker = fst (snd demo_out1), net_turns = tl demo_turns\<rparr>"
  let ?p = "\<lparr>po_Status = ''approved'', po_Artifact = Some demo_artifact, po_Error = ''''\<rparr>"
  define n2 where "n2 = \<lparr>net_trace = (EpPoll, demo_poll_request, fst demo_out5) # demo_trace,
    net_broker = fst (snd demo_out5), net_turns = []\<rparr>"
  obtain j where j: "json_of_poll demo_json ?p = Some j" "json_depth j \<le> maxNestingDepth"
    using demo_artifact_json by (auto simp: json_of_poll_def maxNestingDepth_def)
  have wa: "wire_answer demo_json (fst demo_out5) = Inr (200, json_Encode j)"
    using poll_answer_artifact [OF demo_outs(5) demo_released, of demo_json] j(1) by (simp add: body_bytes_def)
  have "endpoint_of ''https://auth.example'' ''https://auth.example/auth/poll'' = Some EpPoll"
    by (simp add: endpoint_of_def)
  then have do: "tr_Do demo_link ''https://auth.example/auth/poll'' (json_Marshal (pollWireRequest sess)) ?n1 = (Inr (200, json_Encode j), n2)"
    using demo_wire_poll [OF assms(1,2)]
    by (simp add: demo_link_def link_Do net_Do_def demo_turns_def demo_serves wa demo_trace_def n2_def)
  obtain art where "decode_pollWireResponse demo_json (json_Encode j) =
      Some \<lparr>pw_Status = ''approved'', pw_Artifact = Some art, pw_Error = ''''\<rparr>"
    using decode_poll_sent [OF demo_json_ok j] by (simp add: json_string_ascii)
  then have "pollOnce demo_json demo_link sess ?n1 = (Inr (''approved'', Some art), n2)"
    using do assms(3) by (simp add: pollOnce_def Let_def demo_link_def [THEN arg_cong, of tr_urlOK] broker_link_def)
  then show ?thesis
    using that [of art n2] by (simp add: client_Poll_def poll_loop_Suc next_wait_def final_outcome_def n2_def)
qed

lemma demo_signed_in:
  obtains sess art n2 where "signed_in (Suc 0) demo_json demo_link (\<lambda>_. False) demo_sign_in_request demo_pkce_world demo_net sess (Some art) n2"
    "distinct (started_ids (net_trace n2))"
proof -
  obtain sess w1 where s: "client_Start demo_link demo_sign_in_request demo_pkce_world demo_net =
      (Inr sess, w1, \<lparr>net_trace = [(EpStart, demo_start, fst demo_out1)], net_broker = fst (snd demo_out1), net_turns = tl demo_turns\<rparr>)"
    "cs_ID sess = demo_sid" "cs_verifier sess = demo_verifier" "cs_brokerURL sess = ''https://auth.example''"
    by (rule demo_client_start)
  obtain art n2 where p: "client_Poll (Suc 0) demo_json demo_link (\<lambda>_. False) sess
      \<lparr>net_trace = [(EpStart, demo_start, fst demo_out1)], net_broker = fst (snd demo_out1), net_turns = tl demo_turns\<rparr> =
      Some (Inr \<lparr>rr_Status = ''approved'', rr_Artifact = Some art\<rparr>, [], n2)"
    "net_trace n2 = (EpPoll, demo_poll_request, fst demo_out5) # demo_trace"
    using s(2-4) by (rule demo_client_poll)
  have "reply_start (fst demo_out5) = None" using serve_start_only [OF demo_outs(5)] by simp
  then show ?thesis using that s(1) p by (simp add: signed_in_def demo_trace_started)
qed

section \<open>Properties\<close>

text \<open>C3: Who gets in through PAM. Connect \<open>xdauth-pam\<close> to a broker on the in-memory store that serves any other
  requests meanwhile, with no session id drawn twice. If the program exits with 0, then the broker verified, at its
  identity provider, an identity that equals the PAM user as JSON carries it after normalisation, in a browser that then
  approved this very sign-in with the code the program had shown.\<close>

theorem pam_login_is_verified:
  assumes "identity_provider (e_idp env)" and "e_store env = Memory" and "conv_ok C"
    and "broker_reach env m_sessions cfg (net_trace n) (net_broker n)"
    and "strings_TrimRight (CHR ''/'') (pam_broker getenv args) = base"
    and "pam_run fuel C (broker_link env C base from) ctxDone getenv hostname args w n = Some (p, n2)" and "px_code p = 0"
    and "distinct (started_ids (net_trace n2))"
  shows "\<exists>sess ident. verified_login env cfg (json_string (getenv ''PAM_USER'')) sess (net_trace n2) ident \<and>
    pam_prompt sess \<in> set (px_stdout p)"
proof -
  obtain sess a where s: "signed_in fuel C (broker_link env C base from) ctxDone (pam_request getenv hostname args) w n sess a n2"
      "pam_prompt sess \<in> set (px_stdout p)"
    using pam_run_outcome [OF assms(6)] assms(7) by blast
  have b: "strings_TrimRight (CHR ''/'') (cq_BrokerURL (pam_request getenv hostname args)) = base"
    "cq_LoginHint (pam_request getenv hostname args) = getenv ''PAM_USER''"
    using assms(5) by (simp_all add: pam_request_def)
  show ?thesis using sign_in_verified [OF assms(1-4) b(1) s(1) assms(8)] s(2) b(2) by metis
qed

theorem pam_login_is_verified_witness:
  "\<exists>p n2 sess ident. pam_run (Suc 0) demo_json demo_link (\<lambda>_. False) demo_getenv ''h''
      [''xdauth-pam'', ''https://auth.example/''] demo_pkce_world demo_net = Some (p, n2) \<and> px_code p = 0 \<and>
    verified_login demo_env demo_cfg ''alice'' sess (net_trace n2) ident"
proof -
  have req: "pam_request demo_getenv ''h'' [''xdauth-pam'', ''https://auth.example/''] = demo_sign_in_request"
    by (simp add: pam_request_def pam_broker_def demo_getenv_def demo_sign_in_request_def)
  obtain sess art n2 where s: "signed_in (Suc 0) demo_json demo_link (\<lambda>_. False) demo_sign_in_request demo_pkce_world demo_net sess (Some art) n2"
      "distinct (started_ids (net_trace n2))"
    by (rule demo_signed_in)
  then obtain p where p: "pam_run (Suc 0) demo_json demo_link (\<lambda>_. False) demo_getenv ''h''
      [''xdauth-pam'', ''https://auth.example/''] demo_pkce_world demo_net = Some (p, n2)" "px_code p = 0"
    by (auto simp: pam_run_def req signed_in_def) (simp add: demo_sign_in_request_def)
  have "\<exists>sess ident. verified_login demo_env demo_cfg (json_string (demo_getenv ''PAM_USER'')) sess (net_trace n2) ident \<and>
      pam_prompt sess \<in> set (px_stdout p)"
    by (rule pam_login_is_verified [OF _ _ demo_json_ok demo_net_ok _ p(1) [unfolded demo_link_def] p(2) s(2)])
      (simp_all add: demo_env_def demo_idp_contract pam_broker_def demo_trim)
  then show ?thesis using p by (auto simp: demo_getenv_def json_string_ascii)
qed

text \<open>C4: Who gets a shell over SSH. Connect \<open>xdauth-sshd\<close> to such a broker. If its callback grants permissions, they name an
  identity the identity provider verified, which equals the SSH user, as JSON carries it, after normalisation and
  approved this very sign-in; and the callback does not panic.\<close>

theorem ssh_login_is_verified:
  assumes "identity_provider (e_idp env)" and "e_store env = Memory" and "conv_ok C"
    and "broker_reach env m_sessions cfg (net_trace n) (net_broker n)"
    and "strings_TrimRight (CHR ''/'') brokerURL = base"
    and "keyboardInteractiveAuth fuel C (broker_link env C base from) ctxDone brokerURL user addr challenge w n = Some (out, n2)"
    and "distinct (started_ids (net_trace n2))"
  shows "out \<noteq> AuthPanic \<and> (\<forall>perms. out = AuthPermissions perms \<longrightarrow>
    (\<exists>sess ident. verified_login env cfg (json_string user) sess (net_trace n2) ident \<and> perms = [''xdauth-identity'' \<mapsto> json_string (id_Value ident)]))"
proof -
  have b: "strings_TrimRight (CHR ''/'') (cq_BrokerURL (ssh_request brokerURL user addr)) = base"
    "cq_LoginHint (ssh_request brokerURL user addr) = user"
    using assms(5) by (simp_all add: ssh_request_def)
  note verified = sign_in_verified [OF assms(1-4) b(1) _ assms(7)]
  have "out \<noteq> AuthPanic"
    using keyboard_panic [of fuel C "broker_link env C base from"] verified assms(6) option.distinct(1) by metis
  moreover have "\<exists>sess ident. verified_login env cfg (json_string user) sess (net_trace n2) ident \<and> perms = [''xdauth-identity'' \<mapsto> json_string (id_Value ident)]"
    if granted: "out = AuthPermissions perms" for perms
  proof -
    obtain sess a where s: "signed_in fuel C (broker_link env C base from) ctxDone (ssh_request brokerURL user addr) w n sess (Some a) n2"
        "perms = [''xdauth-identity'' \<mapsto> a_Identity a]"
      using assms(6) [unfolded granted] by (rule keyboard_permissions)
    then show ?thesis using verified [OF s(1)] b(2) option.inject by metis
  qed
  ultimately show ?thesis by blast
qed

theorem ssh_login_is_verified_witness:
  "\<exists>perms n2 sess ident. keyboardInteractiveAuth (Suc 0) demo_json demo_link (\<lambda>_. False) ''https://auth.example/'' ''alice'' ''h''
      (\<lambda>_. None) demo_pkce_world demo_net = Some (AuthPermissions perms, n2) \<and>
    verified_login demo_env demo_cfg ''alice'' sess (net_trace n2) ident \<and> perms = [''xdauth-identity'' \<mapsto> json_string (id_Value ident)]"
proof -
  have req: "ssh_request ''https://auth.example/'' ''alice'' ''h'' = demo_sign_in_request"
    by (simp add: ssh_request_def demo_sign_in_request_def net_SplitHostPort_def split_last_def split_first_def)
  obtain sess art n2 where s: "signed_in (Suc 0) demo_json demo_link (\<lambda>_. False) demo_sign_in_request demo_pkce_world demo_net sess (Some art) n2"
      "distinct (started_ids (net_trace n2))"
    by (rule demo_signed_in)
  then have k: "keyboardInteractiveAuth (Suc 0) demo_json demo_link (\<lambda>_. False) ''https://auth.example/'' ''alice'' ''h''
      (\<lambda>_. None) demo_pkce_world demo_net = Some (AuthPermissions [''xdauth-identity'' \<mapsto> a_Identity art], n2)"
    by (auto simp: keyboardInteractiveAuth_def req signed_in_def)
  show ?thesis
    using ssh_login_is_verified [OF _ _ demo_json_ok demo_net_ok _ k [unfolded demo_link_def] s(2)] k
    by (simp add: demo_env_def demo_idp_contract demo_trim json_string_ascii)
qed

text \<open>C29: No shell without a verified login on this connection. Connect \<open>xdauth-sshd\<close> to such a broker. If one of its
  connections gets output on a session channel, then within that connection's handshake a sign-in of the connection's user
  was approved: the broker verified, at its identity provider, an identity that equals the SSH user, as JSON carries it,
  after normalisation, in a browser that approved that very sign-in; and the output names that identity.\<close>

theorem ssh_shell_is_verified:
  assumes "identity_provider (e_idp env)" and "e_store env = Memory" and "conv_ok C"
    and "broker_reach env m_sessions cfg (net_trace n) (net_broker n)"
    and "strings_TrimRight (CHR ''/'') brokerURL = base"
    and "config = (newServerConfig fuel C (broker_link env C base from) ctxDone brokerURL)\<lparr>sc_hostKeys := keys\<rparr>"
    and "handshake_authenticates newServerConn config"
    and "handleConn newServerConn nConn config shellMessage n = Some (outs, n1)"
    and "ChannelServed acts \<in> set outs" and "WriteOut text \<in> set acts"
    and "distinct (started_ids (net_trace n1))"
  shows "\<exists>sshConn chans n0 sess ident. newServerConn nConn config n = Some (Inr (sshConn, chans), n1) \<and>
    suffix (net_trace n) (net_trace n0) \<and> suffix (net_trace n0) (net_trace n1) \<and>
    (\<exists>w w1 n2. client_Start (broker_link env C base from) (ssh_request brokerURL (sn_User sshConn) nConn) w n0 = (Inr sess, w1, n2)) \<and>
    verified_login env cfg (json_string (sn_User sshConn)) sess (net_trace n1) ident \<and>
    text = shellMessage @ nl @ ''logged in as: '' @ json_string (id_Value ident) @ nl"
proof -
  let ?T = "broker_link env C base from"
  obtain sshConn chans n0 w sess a where h: "newServerConn nConn config n = Some (Inr (sshConn, chans), n1)"
      and at: "auth_attempts (keyboardInteractiveAuth fuel C ?T ctxDone brokerURL) nConn n n0"
      and s: "signed_in fuel C ?T ctxDone (ssh_request brokerURL (sn_User sshConn) nConn) w n0 sess (Some a) n1"
      and out: "text = shellMessage @ nl @ ''logged in as: '' @ a_Identity a @ nl"
    using assms(7,8) unfolding assms(6) by (rule shell_needs_sign_in [OF _ _ assms(9,10)]) (simp add: assms(6))
  have n0: "net_ok env cfg n0" "suffix (net_trace n) (net_trace n0)" using attempts_ok [OF at assms(4)] by auto
  have b: "strings_TrimRight (CHR ''/'') (cq_BrokerURL (ssh_request brokerURL (sn_User sshConn) nConn)) = base"
    "cq_LoginHint (ssh_request brokerURL (sn_User sshConn) nConn) = sn_User sshConn"
    using assms(5) by (simp_all add: ssh_request_def)
  obtain ident where v: "verified_login env cfg (json_string (sn_User sshConn)) sess (net_trace n1) ident"
      "a_Identity a = json_string (id_Value ident)"
    using sign_in_verified [OF assms(1-3) n0(1) b(1) s assms(11)] unfolding b(2) by (metis option.inject)
  have "suffix (net_trace n0) (net_trace n1)"
    "\<exists>w w1 n2. client_Start ?T (ssh_request brokerURL (sn_User sshConn) nConn) w n0 = (Inr sess, w1, n2)"
    using signed_in_ok [OF n0(1) s] s by (auto simp: signed_in_def)
  then show ?thesis using h n0(2) v out by metis
qed

theorem ssh_shell_is_verified_witness:
  "\<exists>outs n1 sess ident. handleConn (demo_handshake demo_pkce_world) ''h''
      ((newServerConfig (Suc 0) demo_json demo_link (\<lambda>_. False) ''https://auth.example/'')\<lparr>sc_hostKeys := []\<rparr>) ''hi'' demo_net = Some (outs, n1) \<and>
    verified_login demo_env demo_cfg ''alice'' sess (net_trace n1) ident \<and>
    outs = [ChannelServed [ReplyTo True, WriteOut (''hi'' @ nl @ ''logged in as: '' @ json_string (id_Value ident) @ nl), CloseChannel]]"
proof -
  let ?cfg = "(newServerConfig (Suc 0) demo_json demo_link (\<lambda>_. False) ''https://auth.example/'')\<lparr>sc_hostKeys := []\<rparr>"
  have req: "ssh_request ''https://auth.example/'' ''alice'' ''h'' = demo_sign_in_request"
    by (simp add: ssh_request_def demo_sign_in_request_def net_SplitHostPort_def split_last_def split_first_def)
  obtain sess art n2 where s: "signed_in (Suc 0) demo_json demo_link (\<lambda>_. False) demo_sign_in_request demo_pkce_world demo_net sess (Some art) n2"
      "distinct (started_ids (net_trace n2))"
    by (rule demo_signed_in)
  then have k: "keyboardInteractiveAuth (Suc 0) demo_json demo_link (\<lambda>_. False) ''https://auth.example/'' ''alice'' ''h''
      (\<lambda>_. None) demo_pkce_world demo_net = Some (AuthPermissions [''xdauth-identity'' \<mapsto> a_Identity art], n2)"
    by (auto simp: keyboardInteractiveAuth_def req signed_in_def)
  let ?acts = "[ReplyTo True, WriteOut (''hi'' @ nl @ ''logged in as: '' @ a_Identity art @ nl), CloseChannel]"
  have h: "demo_handshake demo_pkce_world ''h'' ?cfg demo_net = Some (Inr (\<lparr>sn_User = ''alice'',
      sn_Permissions = Some [''xdauth-identity'' \<mapsto> a_Identity art]\<rparr>, [\<lparr>ch_Type = ''session'', ch_AcceptErr = False,
      ch_Requests = [\<lparr>rq_Type = ''shell'', rq_WantReply = True\<rparr>]\<rparr>]), n2)"
    using k by (simp add: demo_handshake_def newServerConfig_def)
  have c: "handleConn (demo_handshake demo_pkce_world) ''h'' ?cfg ''hi'' demo_net = Some ([ChannelServed ?acts], n2)"
    by (simp add: handleConn_def h serveSession_def maybe_reply_def)
  have m: "ChannelServed ?acts \<in> set [ChannelServed ?acts]"
    "WriteOut (''hi'' @ nl @ ''logged in as: '' @ a_Identity art @ nl) \<in> set ?acts"
    by (rule list.set_intros(1)) (rule list.set_intros(2), rule list.set_intros(1))
  have "\<exists>sshConn chans n0 sess ident. demo_handshake demo_pkce_world ''h'' ?cfg demo_net = Some (Inr (sshConn, chans), n2) \<and>
    suffix (net_trace demo_net) (net_trace n0) \<and> suffix (net_trace n0) (net_trace n2) \<and>
    (\<exists>w w1 n2. client_Start demo_link (ssh_request ''https://auth.example/'' (sn_User sshConn) ''h'') w n0 = (Inr sess, w1, n2)) \<and>
    verified_login demo_env demo_cfg (json_string (sn_User sshConn)) sess (net_trace n2) ident \<and>
    ''hi'' @ nl @ ''logged in as: '' @ a_Identity art @ nl = ''hi'' @ nl @ ''logged in as: '' @ json_string (id_Value ident) @ nl"
    unfolding demo_link_def
    by (rule ssh_shell_is_verified [OF _ _ demo_json_ok demo_net_ok _ refl demo_handshake_authenticates c [unfolded demo_link_def] m s(2)])
      (simp_all add: demo_env_def demo_idp_contract demo_trim)
  from this [unfolded h] obtain sess' ident where "verified_login demo_env demo_cfg ''alice'' sess' (net_trace n2) ident"
      "a_Identity art = json_string (id_Value ident)"
    by (auto simp: json_string_ascii)
  then show ?thesis using c by metis
qed

text \<open>What \<open>xdauth-login\<close> prints. Connected to such a broker, if the program exits with 0, then it had shown the link and
  the code of a sign-in that was verified for the login hint it was given, and the last thing it prints is the artifact;
  a program that reads it as JSON finds the verified identity there (unless a time of the artifact has no JSON form, or
  its claims are nested deeper than \<open>encoding/json\<close> reads).\<close>

corollary login_prints_verified_identity:
  assumes "identity_provider (e_idp env)" and "e_store env = Memory" and "conv_ok C"
    and "broker_reach env m_sessions cfg (net_trace n) (net_broker n)"
    and "strings_TrimRight (CHR ''/'') (lf_brokerURL fl) = base"
    and "login_run fuel C (broker_link env C base from) ctxDone fl w n = Some (p, n2)" and "px_code p = 0"
    and "distinct (started_ids (net_trace n2))"
  shows "\<exists>sess ident a. verified_login env cfg (json_string (lf_loginHint fl)) sess (net_trace n2) ident \<and>
    px_stdout p = login_prompt sess @ [login_artifact C (Some a) @ nl] \<and> a_Identity a = json_string (id_Value ident) \<and>
    (\<forall>j. json_of_artifact C a = Some j \<and> json_depth j \<le> maxNestingDepth \<longrightarrow>
      json_Unmarshal (login_artifact C (Some a)) = Some j \<and>
      (\<exists>a'. decode_artifact C None j = Some (Some a') \<and> a_Identity a' = json_string (id_Value ident)))"
proof -
  obtain sess art where s: "signed_in fuel C (broker_link env C base from) ctxDone (login_request fl) w n sess art n2"
      "px_stdout p = login_prompt sess @ [login_artifact C art @ nl]"
    using login_outcome [OF assms(6)] assms(7) by blast
  have b: "strings_TrimRight (CHR ''/'') (cq_BrokerURL (login_request fl)) = base"
    "cq_LoginHint (login_request fl) = lf_loginHint fl"
    using assms(5) by (simp_all add: login_request_def)
  obtain ident a where v: "verified_login env cfg (json_string (lf_loginHint fl)) sess (net_trace n2) ident"
      "art = Some a" "a_Identity a = json_string (id_Value ident)"
    using sign_in_verified [OF assms(1-4) b(1) s(1) assms(8)] unfolding b(2) by metis
  have "json_Unmarshal (login_artifact C (Some a)) = Some j \<and>
      (\<exists>a'. decode_artifact C None j = Some (Some a') \<and> a_Identity a' = json_string (id_Value ident))"
    if j: "json_of_artifact C a = Some j" "json_depth j \<le> maxNestingDepth" for j
    using proper_Decode(4) [OF json_of_artifact_proper [OF assms(3) j(1)]] decode_artifact_sent [OF assms(3) j(1)] j v(3)
    by (simp add: login_artifact_def sent_artifact_def)
  then show ?thesis using v s(2) by blast
qed

text \<open>C31: The PAM module lets nobody else in: connected to such a broker, it answers success only after a verified login of the
  user PAM named, approved in the browser with the code the module had shown.\<close>

theorem native_login_is_verified:
  assumes "identity_provider (e_idp env)" and "e_store env = Memory" and "conv_ok C"
    and "broker_reach env m_sessions cfg (net_trace n) (net_broker n)"
    and "strings_TrimRight (CHR ''/'') (hd argv) = base"
    and "pam_sm_authenticate fuel C (broker_link env C base from) timedOut pamh argv w n = Some (PAM_SUCCESS, n2)"
    and "distinct (started_ids (net_trace n2))"
  shows "\<exists>user sess ident. ph_get_user pamh = (PAM_SUCCESS, Some user) \<and>
    verified_login env cfg (json_string user) sess (net_trace n2) ident \<and> ph_converse pamh (native_prompt sess) = PAM_SUCCESS"
proof -
  obtain user sess a where s: "ph_get_user pamh = (PAM_SUCCESS, Some user)"
      "signed_in fuel C (broker_link env C base from) (timedOut (3 * 60 * second))
        \<lparr>cq_BrokerURL = hd argv, cq_LoginHint = user, cq_ClientKind = ''ssh'', cq_ClientHost = envItem (ph_get_rhost pamh)\<rparr>
        w n sess a n2"
      "ph_converse pamh (native_prompt sess) = PAM_SUCCESS"
    using native_outcome [OF assms(6)] by blast
  have b: "strings_TrimRight (CHR ''/'') (cq_BrokerURL \<lparr>cq_BrokerURL = hd argv, cq_LoginHint = user, cq_ClientKind = ''ssh'',
      cq_ClientHost = envItem (ph_get_rhost pamh)\<rparr>) = base"
    using assms(5) by simp
  obtain ident where "verified_login env cfg (json_string user) sess (net_trace n2) ident"
    by (rule sign_in_verified [OF assms(1-4) b s(2) assms(7)]) simp
  then show ?thesis using s by blast
qed

definition demo_pam :: pam_handle where
  "demo_pam = \<lparr>ph_get_user = (PAM_SUCCESS, Some ''alice''), ph_get_conv = (PAM_SUCCESS, True),
     ph_get_rhost = (PAM_SUCCESS, Some ''h''), ph_converse = (\<lambda>_. PAM_SUCCESS)\<rparr>"

theorem native_login_is_verified_witness:
  "\<exists>n2 sess ident. pam_sm_authenticate (Suc 0) demo_json demo_link (\<lambda>_ _. False) demo_pam [''https://auth.example/'']
      demo_pkce_world demo_net = Some (PAM_SUCCESS, n2) \<and>
    verified_login demo_env demo_cfg ''alice'' sess (net_trace n2) ident"
proof -
  have req: "\<lparr>cq_BrokerURL = ''https://auth.example/'', cq_LoginHint = ''alice'', cq_ClientKind = ''ssh'',
      cq_ClientHost = ''h''\<rparr> = demo_sign_in_request"
    by (simp add: demo_sign_in_request_def)
  obtain sess art n2 where s: "signed_in (Suc 0) demo_json demo_link (\<lambda>_. False) demo_sign_in_request demo_pkce_world demo_net sess (Some art) n2"
      "distinct (started_ids (net_trace n2))"
    by (rule demo_signed_in)
  then have p: "pam_sm_authenticate (Suc 0) demo_json demo_link (\<lambda>_ _. False) demo_pam [''https://auth.example/'']
      demo_pkce_world demo_net = Some (PAM_SUCCESS, n2)"
    by (auto simp: pam_sm_authenticate_def moduleArg_def envItem_def demo_pam_def req signed_in_def)
  have "\<exists>user sess ident. ph_get_user demo_pam = (PAM_SUCCESS, Some user) \<and>
    verified_login demo_env demo_cfg (json_string user) sess (net_trace n2) ident \<and> ph_converse demo_pam (native_prompt sess) = PAM_SUCCESS"
    by (rule native_login_is_verified [OF _ _ demo_json_ok demo_net_ok _ p [unfolded demo_link_def] s(2)])
      (simp_all add: demo_env_def demo_idp_contract demo_trim)
  then show ?thesis using p by (auto simp: demo_pam_def json_string_ascii)
qed

end
