(* ===== verification/NativePam.thy ===== *)
theory NativePam
  imports EndToEnd
begin

text \<open>
  \<open>cmd/xdauth-pam-native/pam_module.go\<close> at the level of C: the module reads strings through pointers PAM gave it,
  allocates the message it shows, and its C function \<open>send_info_message\<close> calls the application's conversation function
  and frees the reply. The heap is explicit; reading or freeing memory that is not allocated is undefined behaviour. The
  theory shows that there is none and that the module leaves the heap as it found it, so its result is that of the
  model in theory \<open>ClientCmds\<close>.
\<close>

section \<open>The C heap\<close>

text \<open>
  A block holds the bytes of a string, or a \<open>struct pam_response\<close>: a pointer to the reply and a code. Address 0 is the
  null pointer.
\<close>

type_synonym addr = nat

datatype c_block = CBytes string | CResponse addr int

type_synonym c_heap = "addr \<rightharpoonup> c_block"

text \<open>What a C string reads as: the bytes before the first NUL.\<close>

definition c_string :: "string \<Rightarrow> string" where
  "c_string s = takeWhile (\<lambda>c. c \<noteq> CHR 0x00) s"

text \<open>\<open>C.GoString\<close>; none is undefined behaviour.\<close>

definition GoString :: "addr \<Rightarrow> c_heap \<Rightarrow> string option" where
  "GoString p h =
     (if p = 0 then Some '''' else (case h p of Some (CBytes s) \<Rightarrow> Some (c_string s) | _ \<Rightarrow> None))"

definition c_free :: "addr \<Rightarrow> c_heap \<Rightarrow> c_heap option" where
  "c_free p h = (if p = 0 then Some h else if h p = None then None else Some (h(p := None)))"

section \<open>The module\<close>

text \<open>
  A message is its style and its text. The conversation function is given messages and a heap and returns a code, the
  reply pointer and the heap.
\<close>

datatype msg_style = PAM_TEXT_INFO

datatype pam_item = PAM_CONV | PAM_RHOST

type_synonym pam_conv = "(msg_style \<times> string) list \<Rightarrow> c_heap \<Rightarrow> pam_code \<times> addr \<times> c_heap"

record c_handle =
  ch_get_user :: "pam_code \<times> addr"
  ch_get_item :: "pam_item \<Rightarrow> pam_code \<times> addr"
  ch_conv :: pam_conv

definition send_info_message :: "pam_conv \<Rightarrow> addr \<Rightarrow> c_heap \<Rightarrow> (pam_code \<times> c_heap) option" where
  "send_info_message conv msg h =
     (case GoString msg h of
        None \<Rightarrow> None
      | Some t \<Rightarrow>
     (case conv [(PAM_TEXT_INFO, t)] h of
        (ret, resp, h1) \<Rightarrow>
          if resp = 0 then Some (ret, h1)
          else
     (case h1 resp of
        Some (CResponse reply _) \<Rightarrow>
          (case (if reply \<noteq> 0 then c_free reply h1 else Some h1) of
             None \<Rightarrow> None
           | Some h2 \<Rightarrow> map_option (Pair ret) (c_free resp h2))
      | _ \<Rightarrow> None)))"

definition c_moduleArg :: "addr list \<Rightarrow> nat \<Rightarrow> c_heap \<Rightarrow> string option" where
  "c_moduleArg argv i h = (if i \<ge> length argv then Some '''' else GoString (argv ! i) h)"

definition c_envItem :: "c_handle \<Rightarrow> pam_item \<Rightarrow> c_heap \<Rightarrow> string option" where
  "c_envItem pamh item h =
     (case ch_get_item pamh item of (code, p) \<Rightarrow> if code \<noteq> PAM_SUCCESS \<or> p = 0 then Some '''' else GoString p h)"

text \<open>The outcome of a call: undefined behaviour, a poll that ran out of fuel, or a result.\<close>

datatype 'a c_outcome = Undefined | OutOfFuel | Done 'a

definition c_authenticate ::
  "nat \<Rightarrow> json_conv \<Rightarrow> 'n transport \<Rightarrow> (duration \<Rightarrow> nat \<Rightarrow> bool) \<Rightarrow> (c_heap \<Rightarrow> addr) \<Rightarrow> c_handle \<Rightarrow> addr list \<Rightarrow> world
     \<Rightarrow> 'n \<Rightarrow> c_heap \<Rightarrow> (pam_code \<times> 'n \<times> c_heap) c_outcome" where
  "c_authenticate fuel C T timedOut alloc pamh argv w n h =
     (case c_moduleArg argv 0 h of
        None \<Rightarrow> Undefined
      | Some brokerURL \<Rightarrow>
          if brokerURL = '''' then Done (PAM_AUTH_ERR, n, h)
          else
     (case ch_get_user pamh of
        (code, cUser) \<Rightarrow>
          if code \<noteq> PAM_SUCCESS \<or> cUser = 0 then Done (PAM_AUTH_ERR, n, h)
          else
     (case GoString cUser h of
        None \<Rightarrow> Undefined
      | Some loginHint \<Rightarrow>
     (case ch_get_item pamh PAM_CONV of
        (code, convPtr) \<Rightarrow>
          if code \<noteq> PAM_SUCCESS \<or> convPtr = 0 then Done (PAM_AUTH_ERR, n, h)
          else
     (case c_envItem pamh PAM_RHOST h of
        None \<Rightarrow> Undefined
      | Some clientHost \<Rightarrow>
     (case client_Start T \<lparr>cq_BrokerURL = brokerURL, cq_LoginHint = loginHint, cq_ClientKind = ''ssh'',
                           cq_ClientHost = clientHost\<rparr> w n of
        (Inl err, _, n1) \<Rightarrow> Done (PAM_AUTH_ERR, n1, h)
      | (Inr sess, _, n1) \<Rightarrow>
          let cMsg = alloc h in
     (case send_info_message (ch_conv pamh) cMsg (h(cMsg \<mapsto> CBytes (native_prompt sess))) of
        None \<Rightarrow> Undefined
      | Some (ret, h1) \<Rightarrow>
          (let deferred = (\<lambda>code n2. case c_free cMsg h1 of None \<Rightarrow> Undefined | Some h2 \<Rightarrow> Done (code, n2, h2)) in
           if ret \<noteq> PAM_SUCCESS then deferred PAM_AUTH_ERR n1
           else
          (case client_Poll fuel C T (timedOut sessionTimeout) sess n1 of
             None \<Rightarrow> OutOfFuel
           | Some (Inl err, _, n2) \<Rightarrow> deferred PAM_AUTH_ERR n2
           | Some (Inr result, _, n2) \<Rightarrow>
               deferred (if rr_Status result \<noteq> ''approved'' then PAM_AUTH_ERR else PAM_SUCCESS) n2)))))))))"

section \<open>What PAM and the application promise\<close>

text \<open>
  A conversation function leaves the heap alone but for its reply: none, or a fresh response with no text or with a
  fresh one, for the caller to free (\<open>pam_conv(3)\<close>).
\<close>

definition conv_contract :: "pam_conv \<Rightarrow> bool" where
  "conv_contract conv \<longleftrightarrow>
     (\<forall>msgs h ret resp h'. conv msgs h = (ret, resp, h') \<longrightarrow>
        resp = 0 \<and> h' = h \<or>
        resp \<noteq> 0 \<and> h resp = None \<and>
        (\<exists>code. h' = h(resp \<mapsto> CResponse 0 code) \<or>
          (\<exists>reply txt. reply \<noteq> 0 \<and> reply \<noteq> resp \<and> h reply = None \<and>
             h' = h(resp \<mapsto> CResponse reply code, reply \<mapsto> CBytes txt))))"

text \<open>An allocator returns fresh memory; a pointer PAM hands out is null or points to a string.\<close>

definition alloc_contract :: "(c_heap \<Rightarrow> addr) \<Rightarrow> c_heap \<Rightarrow> bool" where
  "alloc_contract alloc h \<longleftrightarrow> alloc h \<noteq> 0 \<and> h (alloc h) = None"

definition points_to_string :: "c_heap \<Rightarrow> addr \<Rightarrow> bool" where
  "points_to_string h p \<longleftrightarrow> p = 0 \<or> (\<exists>s. h p = Some (CBytes s))"

definition pam_contract :: "c_handle \<Rightarrow> addr list \<Rightarrow> c_heap \<Rightarrow> bool" where
  "pam_contract pamh argv h \<longleftrightarrow>
     conv_contract (ch_conv pamh) \<and> list_all (points_to_string h) argv \<and>
     points_to_string h (snd (ch_get_user pamh)) \<and> points_to_string h (snd (ch_get_item pamh PAM_RHOST))"

text \<open>The handle as theory \<open>ClientCmds\<close> has it: the strings the pointers lead to, and the code of a conversation.\<close>

definition pointed :: "c_heap \<Rightarrow> addr \<Rightarrow> string option" where
  "pointed h p = (if p = 0 then None else GoString p h)"

definition handle_of :: "(c_heap \<Rightarrow> addr) \<Rightarrow> c_handle \<Rightarrow> c_heap \<Rightarrow> pam_handle" where
  "handle_of alloc pamh h =
     \<lparr>ph_get_user = map_prod id (pointed h) (ch_get_user pamh),
      ph_get_conv = map_prod id (\<lambda>p. p \<noteq> 0) (ch_get_item pamh PAM_CONV),
      ph_get_rhost = map_prod id (pointed h) (ch_get_item pamh PAM_RHOST),
      ph_converse = (\<lambda>m. fst (ch_conv pamh [(PAM_TEXT_INFO, c_string m)] (h(alloc h \<mapsto> CBytes m))))\<rparr>"

section \<open>Lemmas\<close>

lemma GoString_ok: "points_to_string h p \<Longrightarrow> GoString p h = Some (case pointed h p of None \<Rightarrow> '''' | Some s \<Rightarrow> s)"
  by (auto simp: points_to_string_def GoString_def pointed_def)

text \<open>The glue frees the reply and nothing else.\<close>

lemma send_info_message_ok:
  assumes "conv_contract conv" and "h msg = Some (CBytes t)" and "msg \<noteq> 0"
  shows "send_info_message conv msg h = Some (fst (conv [(PAM_TEXT_INFO, c_string t)] h), h)"
proof -
  obtain ret resp h' where c: "conv [(PAM_TEXT_INFO, c_string t)] h = (ret, resp, h')" by (metis prod_cases3)
  have g: "GoString msg h = Some (c_string t)" using assms(2,3) by (simp add: GoString_def)
  have restore: "h resp = None \<Longrightarrow> h(resp := None) = h" "h reply = None \<Longrightarrow> h(reply := None) = h" for reply
    by auto
  have "resp = 0 \<and> h' = h \<or>
        resp \<noteq> 0 \<and> h resp = None \<and>
        (\<exists>code. h' = h(resp \<mapsto> CResponse 0 code) \<or>
          (\<exists>reply txt. reply \<noteq> 0 \<and> reply \<noteq> resp \<and> h reply = None \<and>
             h' = h(resp \<mapsto> CResponse reply code, reply \<mapsto> CBytes txt)))"
    using assms(1) c unfolding conv_contract_def by blast
  then show ?thesis
    using g c restore by (auto simp: send_info_message_def c_free_def fun_upd_twist)
qed

abbreviation string_at :: "c_heap \<Rightarrow> addr \<Rightarrow> string" where
  "string_at h p \<equiv> (case pointed h p of None \<Rightarrow> '''' | Some s \<Rightarrow> s)"

lemma c_moduleArg_ok:
  "list_all (points_to_string h) argv \<Longrightarrow> c_moduleArg argv i h = Some (moduleArg (map (string_at h) argv) i)"
  by (simp add: c_moduleArg_def moduleArg_def list_all_length GoString_ok)

lemma c_envItem_ok:
  assumes "points_to_string h (snd (ch_get_item pamh item))"
  shows "c_envItem pamh item h = Some (envItem (map_prod id (pointed h) (ch_get_item pamh item)))"
proof (cases "ch_get_item pamh item")
  case (Pair code p)
  then show ?thesis using assms by (auto simp: c_envItem_def envItem_def GoString_ok) (simp add: pointed_def)
qed

text \<open>The message is shown and freed: the heap is the one before.\<close>

lemma prompt_ok:
  assumes "conv_contract conv" and "alloc_contract alloc h"
  shows "send_info_message conv (alloc h) (h(alloc h \<mapsto> CBytes m)) =
      Some (fst (conv [(PAM_TEXT_INFO, c_string m)] (h(alloc h \<mapsto> CBytes m))), h(alloc h \<mapsto> CBytes m))"
    and "c_free (alloc h) (h(alloc h \<mapsto> CBytes m)) = Some h"
  using assms send_info_message_ok [OF assms(1), of "h(alloc h \<mapsto> CBytes m)" "alloc h" m]
  by (auto simp: alloc_contract_def c_free_def)

section \<open>Properties\<close>

text \<open>C28: The native module is memory safe and leaks nothing. If PAM hands it null pointers or pointers to strings and the
  application's conversation function keeps its contract, a call never reads or frees memory that is not allocated, on
  every path the heap is afterwards what it was before, and the result is the one of the module over plain strings.\<close>

theorem native_module_is_memory_safe:
  assumes "pam_contract pamh argv h" and "alloc_contract alloc h"
  shows "c_authenticate fuel C T timedOut alloc pamh argv w n h =
    (case pam_sm_authenticate fuel C T timedOut (handle_of alloc pamh h)
        (map (\<lambda>p. case pointed h p of None \<Rightarrow> '''' | Some s \<Rightarrow> s) argv) w n of
       None \<Rightarrow> OutOfFuel
     | Some (code, n') \<Rightarrow> Done (code, n', h))"
proof -
  have conv: "conv_contract (ch_conv pamh)" using assms(1) by (simp add: pam_contract_def)
  obtain uc up where u: "ch_get_user pamh = (uc, up)" by fastforce
  obtain cc cp where c: "ch_get_item pamh PAM_CONV = (cc, cp)" by fastforce
  have "c_envItem pamh PAM_RHOST h = Some (envItem (ph_get_rhost (handle_of alloc pamh h)))"
    using assms(1) by (simp add: pam_contract_def c_envItem_ok handle_of_def)
  moreover have "c_moduleArg argv 0 h = Some (moduleArg (map (string_at h) argv) 0)"
    using assms(1) by (simp add: pam_contract_def c_moduleArg_ok)
  moreover have "up \<noteq> 0 \<Longrightarrow> pointed h up \<noteq> None \<and> GoString up h = pointed h up"
    using assms(1) u GoString_ok [of h up] by (auto simp: pam_contract_def pointed_def)
  ultimately show ?thesis
    using u c prompt_ok [OF conv assms(2)]
    by (auto simp: c_authenticate_def pam_sm_authenticate_def handle_of_def Let_def pointed_def
        split: prod.splits sum.splits option.splits)
qed

text \<open>The login of theory \<open>EndToEnd\<close> through pointers, with an application that allocates a reply.\<close>

definition demo_heap :: c_heap where
  "demo_heap = [1 \<mapsto> CBytes ''https://auth.example/'', 2 \<mapsto> CBytes ''alice'', 3 \<mapsto> CBytes ''h'', 4 \<mapsto> CBytes '''']"

definition demo_conv :: pam_conv where
  "demo_conv msgs h =
     (if h 50 = None \<and> h 51 = None
      then (PAM_SUCCESS, 50, h(50 \<mapsto> CResponse 51 0, 51 \<mapsto> CBytes ''ok''))
      else (PAM_SUCCESS, 0, h))"

definition demo_c_handle :: c_handle where
  "demo_c_handle = \<lparr>ch_get_user = (PAM_SUCCESS, 2),
     ch_get_item = (\<lambda>i. case i of PAM_CONV \<Rightarrow> (PAM_SUCCESS, 4) | PAM_RHOST \<Rightarrow> (PAM_SUCCESS, 3)), ch_conv = demo_conv\<rparr>"

theorem native_module_is_memory_safe_witness:
  "\<exists>n2. c_authenticate (Suc 0) demo_json demo_link (\<lambda>_ _. False) (\<lambda>_. 100) demo_c_handle [1] demo_pkce_world demo_net
      demo_heap = Done (PAM_SUCCESS, n2, demo_heap)"
proof -
  have "conv_contract demo_conv"
    unfolding conv_contract_def demo_conv_def
    by (intro allI impI, auto split: if_splits) (rule exI [of _ 0], rule disjI2, rule exI [of _ 51], auto)
  then have p: "pam_contract demo_c_handle [1] demo_heap"
    by (simp add: pam_contract_def demo_c_handle_def points_to_string_def demo_heap_def)
  have a: "alloc_contract (\<lambda>_. 100) demo_heap" by (simp add: alloc_contract_def demo_heap_def)
  have h: "handle_of (\<lambda>_. 100) demo_c_handle demo_heap = demo_pam"
    by (auto simp: handle_of_def demo_c_handle_def demo_pam_def pointed_def GoString_def demo_heap_def c_string_def
        demo_conv_def)
  have u: "map (\<lambda>p. case pointed demo_heap p of None \<Rightarrow> '''' | Some s \<Rightarrow> s) [1] = [''https://auth.example/'']"
    by (simp add: pointed_def GoString_def demo_heap_def c_string_def)
  obtain n2 where "pam_sm_authenticate (Suc 0) demo_json demo_link (\<lambda>_ _. False) demo_pam [''https://auth.example/'']
      demo_pkce_world demo_net = Some (PAM_SUCCESS, n2)"
    using native_login_is_verified_witness by blast
  then show ?thesis
    by (intro exI [of _ n2]) (simp only: native_module_is_memory_safe [OF p a, unfolded h u] option.case prod.case)
qed

end
