(* ===== verification/SessionJson.thy ===== *)
theory SessionJson
  imports GoJson "HOL-Library.Monad_Syntax"
begin

text \<open>
  The JSON form of \<open>store.Session\<close> and \<open>store.Identity\<close> (\<open>internal/store/store.go\<close>), in which the Redis store keeps
  sessions, with the proof that a session is read back as it was written.
\<close>

section \<open>Definitions\<close>

text \<open>
  \<open>json.Marshal\<close> and \<open>json.Unmarshal\<close> on a \<open>Session\<close>: an object with a member per field, named like the field. \<open>tx\<close> is what
  JSON does to strings: \<open>json_string\<close>, which on the strings of a session, text from JSON documents, XML documents,
  certificates and generated codes, changes nothing unless they are not UTF-8.
\<close>

fun state_text :: "state \<Rightarrow> string" where
  "state_text StatePending = ''pending''"
| "state_text StateAwaitingApproval = ''awaiting_approval''"
| "state_text StateApproved = ''approved''"
| "state_text StateDenied = ''denied''"
| "state_text StateExpired = ''expired''"

definition states :: "state list" where
  "states = [StatePending, StateAwaitingApproval, StateApproved, StateDenied, StateExpired]"

text \<open>Any other string is a state of no session that was written; it is not represented.\<close>

definition decode_state_value :: "state option \<Rightarrow> json \<Rightarrow> state option option" where
  "decode_state_value cur v =
     (case v of
        JStr s \<Rightarrow> map_option Some (List.find (\<lambda>x. state_text x = s) states)
      | JNull \<Rightarrow> Some cur
      | _ \<Rightarrow> None)"

definition encode_identity :: "(string \<Rightarrow> string) \<Rightarrow> json_conv \<Rightarrow> identity \<Rightarrow> json option" where
  "encode_identity tx P i =
     map_option (\<lambda>cs. JObj [(''Subject'', JStr (tx (id_Subject i))), (''Value'', JStr (tx (id_Value i))), (''Claims'', cs)])
       (encode_claims tx P (id_Claims i))"

text \<open>A pointer: null clears it, an object is decoded into what it points to, or into a new zero value.\<close>

definition decode_identity :: "json_conv \<Rightarrow> identity option \<Rightarrow> json \<Rightarrow> identity option option" where
  "decode_identity P cur v =
     (case v of
        JNull \<Rightarrow> Some None
      | JObj ms \<Rightarrow>
          let i = (case cur of Some i \<Rightarrow> i | None \<Rightarrow> \<lparr>id_Subject = '''', id_Value = '''', id_Claims = Map.empty\<rparr>) in
          do {
            su \<leftarrow> decode_member ''Subject'' decode_str_value ms (id_Subject i);
            va \<leftarrow> decode_member ''Value'' decode_str_value ms (id_Value i);
            cs \<leftarrow> decode_member ''Claims'' (decode_claims P) ms (id_Claims i);
            Some (Some \<lparr>id_Subject = su, id_Value = va, id_Claims = cs\<rparr>)
          }
      | _ \<Rightarrow> None)"

definition encode_session :: "(string \<Rightarrow> string) \<Rightarrow> json_conv \<Rightarrow> session \<Rightarrow> json option" where
  "encode_session tx P s = do {
     v_Interval \<leftarrow> encode_int (s_Interval s);
     v_CreatedAt \<leftarrow> encode_time P (s_CreatedAt s);
     v_ExpiresAt \<leftarrow> encode_time P (s_ExpiresAt s);
     v_Identity \<leftarrow> (case s_Identity s of None \<Rightarrow> Some JNull | Some i \<Rightarrow> encode_identity tx P i);
     v_IdentityAt \<leftarrow> encode_time P (s_IdentityAt s);
     v_ApproveAttempts \<leftarrow> encode_int (s_ApproveAttempts s);
     v_LastPollAt \<leftarrow> encode_time P (s_LastPollAt s);
     Some (JObj
       [(''ID'', JStr (tx (s_ID s))), (''LoginHint'', JStr (tx (s_LoginHint s))),
        (''CodeChallenge'', JStr (tx (s_CodeChallenge s))), (''ClientKind'', JStr (tx (s_ClientKind s))),
        (''ClientHost'', JStr (tx (s_ClientHost s))), (''ClientIP'', JStr (tx (s_ClientIP s))),
        (''VerifiedClient'', JStr (tx (s_VerifiedClient s))), (''Interval'', v_Interval),
        (''CreatedAt'', v_CreatedAt), (''ExpiresAt'', v_ExpiresAt),
        (''UserCode'', JStr (tx (s_UserCode s))), (''Protocol'', JStr (tx (s_Protocol s))),
        (''IdPState'', JStr (tx (s_IdPState s))), (''IdPNonce'', JStr (tx (s_IdPNonce s))),
        (''IdPPKCEVerifier'', JStr (tx (s_IdPPKCEVerifier s))), (''SAMLRequestID'', JStr (tx (s_SAMLRequestID s))),
        (''Identity'', v_Identity), (''IdentityAt'', v_IdentityAt),
        (''ApproveAttempts'', v_ApproveAttempts), (''CSRFToken'', JStr (tx (s_CSRFToken s))),
        (''ApprovalBindingHash'', JStr (tx (s_ApprovalBindingHash s))), (''LastPollAt'', v_LastPollAt),
        (''State'', JStr (state_text (s_State s))), (''Consumed'', JBool (s_Consumed s))])
   }"

definition decode_session :: "json_conv \<Rightarrow> json \<Rightarrow> session option" where
  "decode_session P j = do {
     ms \<leftarrow> json_members (Some j);
     v_ID \<leftarrow> decode_member ''ID'' decode_str_value ms '''';
     v_LoginHint \<leftarrow> decode_member ''LoginHint'' decode_str_value ms '''';
     v_CodeChallenge \<leftarrow> decode_member ''CodeChallenge'' decode_str_value ms '''';
     v_ClientKind \<leftarrow> decode_member ''ClientKind'' decode_str_value ms '''';
     v_ClientHost \<leftarrow> decode_member ''ClientHost'' decode_str_value ms '''';
     v_ClientIP \<leftarrow> decode_member ''ClientIP'' decode_str_value ms '''';
     v_VerifiedClient \<leftarrow> decode_member ''VerifiedClient'' decode_str_value ms '''';
     v_Interval \<leftarrow> decode_member ''Interval'' decode_int_value ms 0;
     v_CreatedAt \<leftarrow> decode_member ''CreatedAt'' decode_time_value ms 0;
     v_ExpiresAt \<leftarrow> decode_member ''ExpiresAt'' decode_time_value ms 0;
     v_UserCode \<leftarrow> decode_member ''UserCode'' decode_str_value ms '''';
     v_Protocol \<leftarrow> decode_member ''Protocol'' decode_str_value ms '''';
     v_IdPState \<leftarrow> decode_member ''IdPState'' decode_str_value ms '''';
     v_IdPNonce \<leftarrow> decode_member ''IdPNonce'' decode_str_value ms '''';
     v_IdPPKCEVerifier \<leftarrow> decode_member ''IdPPKCEVerifier'' decode_str_value ms '''';
     v_SAMLRequestID \<leftarrow> decode_member ''SAMLRequestID'' decode_str_value ms '''';
     v_Identity \<leftarrow> decode_member ''Identity'' (decode_identity P) ms None;
     v_IdentityAt \<leftarrow> decode_member ''IdentityAt'' decode_time_value ms 0;
     v_ApproveAttempts \<leftarrow> decode_member ''ApproveAttempts'' decode_int_value ms 0;
     v_CSRFToken \<leftarrow> decode_member ''CSRFToken'' decode_str_value ms '''';
     v_ApprovalBindingHash \<leftarrow> decode_member ''ApprovalBindingHash'' decode_str_value ms '''';
     v_LastPollAt \<leftarrow> decode_member ''LastPollAt'' decode_time_value ms 0;
     v_State \<leftarrow> decode_member ''State'' decode_state_value ms None;
     v_st \<leftarrow> v_State;
     v_Consumed \<leftarrow> decode_member ''Consumed'' decode_bool_value ms False;
     Some
       \<lparr>s_ID = v_ID, s_LoginHint = v_LoginHint, s_CodeChallenge = v_CodeChallenge,
        s_ClientKind = v_ClientKind, s_ClientHost = v_ClientHost, s_ClientIP = v_ClientIP,
        s_VerifiedClient = v_VerifiedClient, s_Interval = v_Interval, s_CreatedAt = v_CreatedAt,
        s_ExpiresAt = v_ExpiresAt, s_UserCode = v_UserCode, s_Protocol = v_Protocol,
        s_IdPState = v_IdPState, s_IdPNonce = v_IdPNonce, s_IdPPKCEVerifier = v_IdPPKCEVerifier,
        s_SAMLRequestID = v_SAMLRequestID, s_Identity = v_Identity, s_IdentityAt = v_IdentityAt,
        s_ApproveAttempts = v_ApproveAttempts, s_CSRFToken = v_CSRFToken, s_ApprovalBindingHash = v_ApprovalBindingHash,
        s_LastPollAt = v_LastPollAt, s_State = v_st, s_Consumed = v_Consumed\<rparr>
   }"

definition zero_session :: session where
  "zero_session =
     \<lparr>s_ID = '''', s_LoginHint = '''', s_CodeChallenge = '''', s_ClientKind = '''', s_ClientHost = '''', s_ClientIP = '''',
      s_VerifiedClient = '''', s_Interval = 0, s_CreatedAt = 0, s_ExpiresAt = 0, s_UserCode = '''', s_Protocol = '''',
      s_IdPState = '''', s_IdPNonce = '''', s_IdPPKCEVerifier = '''', s_SAMLRequestID = '''', s_Identity = None, s_IdentityAt = 0,
      s_ApproveAttempts = 0, s_CSRFToken = '''', s_ApprovalBindingHash = '''', s_LastPollAt = 0, s_State = StatePending,
      s_Consumed = False\<rparr>"

text \<open>What comes back: the session with its strings through \<open>tx\<close> and its claims as JSON represents them.\<close>

definition sent_session :: "(string \<Rightarrow> string) \<Rightarrow> session \<Rightarrow> session" where
  "sent_session tx s =
     s\<lparr>s_ID := tx (s_ID s), s_LoginHint := tx (s_LoginHint s), s_CodeChallenge := tx (s_CodeChallenge s),
       s_ClientKind := tx (s_ClientKind s), s_ClientHost := tx (s_ClientHost s), s_ClientIP := tx (s_ClientIP s),
       s_VerifiedClient := tx (s_VerifiedClient s), s_UserCode := tx (s_UserCode s), s_Protocol := tx (s_Protocol s),
       s_IdPState := tx (s_IdPState s), s_IdPNonce := tx (s_IdPNonce s), s_IdPPKCEVerifier := tx (s_IdPPKCEVerifier s),
       s_SAMLRequestID := tx (s_SAMLRequestID s), s_CSRFToken := tx (s_CSRFToken s), s_ApprovalBindingHash := tx (s_ApprovalBindingHash s),
       s_Identity := map_option (\<lambda>i. \<lparr>id_Subject = tx (id_Subject i), id_Value = tx (id_Value i),
         id_Claims = sent_claims tx (id_Claims i)\<rparr>) (s_Identity s)\<rparr>"

lemma decode_state_text: "decode_state_value cur (JStr (state_text st)) = Some (Some st)"
  by (cases st) (simp_all add: decode_state_value_def states_def)

lemma decode_identity_null: "decode_identity P cur JNull = Some None"
  by (simp add: decode_identity_def)

lemma decode_encode_identity:
  assumes "conv_ok P" and "encode_identity tx P i = Some j"
  shows "decode_identity P None j = Some (Some \<lparr>id_Subject = tx (id_Subject i), id_Value = tx (id_Value i),
    id_Claims = sent_claims tx (id_Claims i)\<rparr>)"
proof -
  have d: "distinct (map (\<lambda>m. json_fold (fst m)) [(''Subject'', a), (''Value'', b), (''Claims'', c)])" for a b c :: json
    by (simp add: ascii_upper_def)
  show ?thesis
    using assms decode_encode_claims [OF assms(1), of tx "id_Claims i"]
    by (auto simp: encode_identity_def decode_identity_def decode_member_unique [OF d])
qed

lemma session_names_distinct:
  "distinct (map json_fold
    [''ID'', ''LoginHint'', ''CodeChallenge'', ''ClientKind'', ''ClientHost'', ''ClientIP'',
     ''VerifiedClient'', ''Interval'', ''CreatedAt'', ''ExpiresAt'', ''UserCode'', ''Protocol'',
     ''IdPState'', ''IdPNonce'', ''IdPPKCEVerifier'', ''SAMLRequestID'', ''Identity'', ''IdentityAt'',
     ''ApproveAttempts'', ''CSRFToken'', ''ApprovalBindingHash'', ''LastPollAt'', ''State'', ''Consumed''])"
  by code_simp

lemma decode_encode_session:
  assumes "conv_ok P" and "encode_session tx P s = Some j"
  shows "decode_session P j = Some (sent_session tx s)"
proof -
  obtain iv ca ex ident ia at lp where v: "encode_int (s_Interval s) = Some iv" "encode_time P (s_CreatedAt s) = Some ca"
      "encode_time P (s_ExpiresAt s) = Some ex"
      "(case s_Identity s of None \<Rightarrow> Some JNull | Some i \<Rightarrow> encode_identity tx P i) = Some ident"
      "encode_time P (s_IdentityAt s) = Some ia" "encode_int (s_ApproveAttempts s) = Some at"
      "encode_time P (s_LastPollAt s) = Some lp"
    using assms(2) unfolding encode_session_def by (auto simp: bind_eq_Some_conv)
  define ms where "ms =
      [(''ID'', JStr (tx (s_ID s))), (''LoginHint'', JStr (tx (s_LoginHint s))),
       (''CodeChallenge'', JStr (tx (s_CodeChallenge s))), (''ClientKind'', JStr (tx (s_ClientKind s))),
       (''ClientHost'', JStr (tx (s_ClientHost s))), (''ClientIP'', JStr (tx (s_ClientIP s))),
       (''VerifiedClient'', JStr (tx (s_VerifiedClient s))), (''Interval'', iv),
       (''CreatedAt'', ca), (''ExpiresAt'', ex),
       (''UserCode'', JStr (tx (s_UserCode s))), (''Protocol'', JStr (tx (s_Protocol s))),
       (''IdPState'', JStr (tx (s_IdPState s))), (''IdPNonce'', JStr (tx (s_IdPNonce s))),
       (''IdPPKCEVerifier'', JStr (tx (s_IdPPKCEVerifier s))), (''SAMLRequestID'', JStr (tx (s_SAMLRequestID s))),
       (''Identity'', ident), (''IdentityAt'', ia),
       (''ApproveAttempts'', at), (''CSRFToken'', JStr (tx (s_CSRFToken s))),
       (''ApprovalBindingHash'', JStr (tx (s_ApprovalBindingHash s))), (''LastPollAt'', lp),
       (''State'', JStr (state_text (s_State s))), (''Consumed'', JBool (s_Consumed s))]"
  have j: "j = JObj ms" using assms(2) v by (simp add: encode_session_def ms_def)
  have "map (\<lambda>m. json_fold (fst m)) ms = map json_fold (map fst ms)" by (simp only: map_map comp_def)
  then have "distinct (map (\<lambda>m. json_fold (fst m)) ms)" using session_names_distinct by (simp only: ms_def list.map fst_conv)
  note f = decode_member_unique [OF this]
  have ident: "decode_identity P None ident = Some (s_Identity (sent_session tx s))"
    using v(4) by (cases "s_Identity s") (auto simp: sent_session_def decode_encode_identity [OF assms(1)] decode_identity_null)
  have strs: "decode_member ''ID'' decode_str_value ms '''' = Some (s_ID (sent_session tx s))"
    "decode_member ''LoginHint'' decode_str_value ms '''' = Some (s_LoginHint (sent_session tx s))"
    "decode_member ''CodeChallenge'' decode_str_value ms '''' = Some (s_CodeChallenge (sent_session tx s))"
    "decode_member ''ClientKind'' decode_str_value ms '''' = Some (s_ClientKind (sent_session tx s))"
    "decode_member ''ClientHost'' decode_str_value ms '''' = Some (s_ClientHost (sent_session tx s))"
    "decode_member ''ClientIP'' decode_str_value ms '''' = Some (s_ClientIP (sent_session tx s))"
    "decode_member ''VerifiedClient'' decode_str_value ms '''' = Some (s_VerifiedClient (sent_session tx s))"
    "decode_member ''UserCode'' decode_str_value ms '''' = Some (s_UserCode (sent_session tx s))"
    "decode_member ''Protocol'' decode_str_value ms '''' = Some (s_Protocol (sent_session tx s))"
    "decode_member ''IdPState'' decode_str_value ms '''' = Some (s_IdPState (sent_session tx s))"
    "decode_member ''IdPNonce'' decode_str_value ms '''' = Some (s_IdPNonce (sent_session tx s))"
    "decode_member ''IdPPKCEVerifier'' decode_str_value ms '''' = Some (s_IdPPKCEVerifier (sent_session tx s))"
    "decode_member ''SAMLRequestID'' decode_str_value ms '''' = Some (s_SAMLRequestID (sent_session tx s))"
    "decode_member ''CSRFToken'' decode_str_value ms '''' = Some (s_CSRFToken (sent_session tx s))"
    "decode_member ''ApprovalBindingHash'' decode_str_value ms '''' = Some (s_ApprovalBindingHash (sent_session tx s))"
    by (subst f, (simp only: ms_def, simp), simp add: sent_session_def)+
  have ints: "decode_member ''Interval'' decode_int_value ms 0 = Some (s_Interval (sent_session tx s))"
    "decode_member ''ApproveAttempts'' decode_int_value ms 0 = Some (s_ApproveAttempts (sent_session tx s))"
    by (subst f, (simp only: ms_def, simp), simp add: decode_encode_int v sent_session_def)+
  have times: "decode_member ''CreatedAt'' decode_time_value ms 0 = Some (s_CreatedAt (sent_session tx s))"
    "decode_member ''ExpiresAt'' decode_time_value ms 0 = Some (s_ExpiresAt (sent_session tx s))"
    "decode_member ''IdentityAt'' decode_time_value ms 0 = Some (s_IdentityAt (sent_session tx s))"
    "decode_member ''LastPollAt'' decode_time_value ms 0 = Some (s_LastPollAt (sent_session tx s))"
    by (subst f, (simp only: ms_def, simp), simp add: decode_encode_time [OF assms(1)] v sent_session_def)+
  have rest: "decode_member ''Identity'' (decode_identity P) ms None = Some (s_Identity (sent_session tx s))"
    "decode_member ''State'' decode_state_value ms None = Some (Some (s_State s))"
    "decode_member ''Consumed'' decode_bool_value ms False = Some (s_Consumed (sent_session tx s))"
    by (subst f, (simp only: ms_def, simp), simp add: ident decode_state_text decode_bool_value_def sent_session_def)+
  show ?thesis unfolding decode_session_def j by (simp add: json_members_def strs ints times rest) (simp add: sent_session_def)
qed

text \<open>What \<open>json.Marshal\<close> gets to write has proper strings and numbers.\<close>

lemma session_names_ascii:
  "list_all (\<lambda>k. json_string k = k)
    [''ID'', ''LoginHint'', ''CodeChallenge'', ''ClientKind'', ''ClientHost'', ''ClientIP'',
     ''VerifiedClient'', ''Interval'', ''CreatedAt'', ''ExpiresAt'', ''UserCode'', ''Protocol'',
     ''IdPState'', ''IdPNonce'', ''IdPPKCEVerifier'', ''SAMLRequestID'', ''Identity'', ''IdentityAt'',
     ''ApproveAttempts'', ''CSRFToken'', ''ApprovalBindingHash'', ''LastPollAt'', ''State'', ''Consumed'']"
  by (simp add: json_string_ascii)

lemma encode_session_proper:
  assumes "conv_ok P" and "encode_session json_string P s = Some j"
  shows "proper j"
proof -
  obtain iv ca ex ident ia at lp where v: "encode_int (s_Interval s) = Some iv" "encode_time P (s_CreatedAt s) = Some ca"
      "encode_time P (s_ExpiresAt s) = Some ex"
      "(case s_Identity s of None \<Rightarrow> Some JNull | Some i \<Rightarrow> encode_identity json_string P i) = Some ident"
      "encode_time P (s_IdentityAt s) = Some ia" "encode_int (s_ApproveAttempts s) = Some at"
      "encode_time P (s_LastPollAt s) = Some lp"
    using assms(2) unfolding encode_session_def by (auto simp: bind_eq_Some_conv)
  have "proper ident"
    using v(4) encode_claims_proper [OF assms(1)]
    by (auto simp: encode_identity_def json_string_ascii split: option.splits)
  moreover have "proper (JStr (state_text (s_State s)))" by (cases "s_State s") (simp_all add: json_string_ascii)
  ultimately show ?thesis
    using assms(2) v session_names_ascii encode_int_proper [OF v(1)] encode_int_proper [OF v(6)]
      encode_time_proper [OF v(2)] encode_time_proper [OF v(3)] encode_time_proper [OF v(5)] encode_time_proper [OF v(7)]
    by (auto simp: encode_session_def)
qed

text \<open>With strings kept as they are, only the representation of the claims changes.\<close>

definition json_claims :: "claims \<Rightarrow> claims" where
  "json_claims cs = (\<lambda>k. map_option (sent_any (\<lambda>s. s)) (cs k))"

lemma sent_session_plain:
  assumes "encode_session (\<lambda>s. s) P s = Some j"
  shows "sent_session (\<lambda>s. s) s = canon_session json_claims s"
proof -
  have "finite (dom (id_Claims i))" if "s_Identity s = Some i" for i
    using assms that by (auto simp: encode_session_def encode_identity_def encode_claims_def bind_eq_Some_conv split: if_splits)
  then have "map_option (\<lambda>i. \<lparr>id_Subject = id_Subject i, id_Value = id_Value i, id_Claims = sent_claims (\<lambda>s. s) (id_Claims i)\<rparr>) (s_Identity s) =
      map_option (\<lambda>i. i\<lparr>id_Claims := json_claims (id_Claims i)\<rparr>) (s_Identity s)"
    by (cases "s_Identity s") (simp_all add: sent_claims_plain json_claims_def)
  then show ?thesis by (simp add: sent_session_def canon_session_def)
qed

end
