(* ===== verification/Redis.thy ===== *)
theory Redis
  imports SessionJson
begin

text \<open>
  \<open>internal/store/redis.go\<close>: the store shared by several brokers. The client \<open>go-redis\<close>, with the server
  behind it, is the parameter \<open>redis_ops\<close> over an abstract state \<open>'r\<close>; the codec of a session is the argument \<open>C\<close>, in
  the code the JSON codec \<open>go_session_codec\<close> over bytes. What the code relies on in the server is the locale \<open>redis_server\<close>, and with
  a codec \<open>redis_backend\<close>; such a backend makes \<open>Redis\<close> a \<open>session_store\<close>.
\<close>

section \<open>Definitions\<close>

text \<open>An answer to \<open>GET\<close>: the nil reply, an error, or the value.\<close>

datatype 'raw redis_get = RedisNil | RedisErr string | RedisBytes 'raw

record ('r, 'raw) redis_ops =
  rd_Get :: "string \<Rightarrow> time \<Rightarrow> 'r \<Rightarrow> 'raw redis_get"
  rd_Exists :: "string \<Rightarrow> time \<Rightarrow> 'r \<Rightarrow> string + int"
  rd_Set :: "string \<Rightarrow> 'raw \<Rightarrow> duration \<Rightarrow> time \<Rightarrow> 'r \<Rightarrow> string option \<times> 'r"
  rd_Close :: "'r \<Rightarrow> 'r"

record 'raw session_codec =
  cd_Marshal :: "session \<Rightarrow> string + 'raw"
  cd_Unmarshal :: "'raw \<Rightarrow> string + session"

text \<open>The codec of the code: \<open>json.Marshal\<close> and \<open>json.Unmarshal\<close> of a session.\<close>

definition go_session_codec :: "json_conv \<Rightarrow> string session_codec" where
  "go_session_codec P =
     \<lparr>cd_Marshal = (\<lambda>s. case encode_session json_string P s of
        None \<Rightarrow> Inl ''json: unsupported value'' | Some j \<Rightarrow> Inr (json_Marshal j)),
      cd_Unmarshal = (\<lambda>raw. case json_Unmarshal raw of
        None \<Rightarrow> Inl ''json: syntax error''
      | Some j \<Rightarrow> (case decode_session P j of None \<Rightarrow> Inl ''json: cannot unmarshal'' | Some s \<Rightarrow> Inr s))\<rparr>"

record ('r, 'raw) redis =
  rs_client :: "('r, 'raw) redis_ops"
  rs_keyPrefix :: string

definition NewRedis :: "('r, 'raw) redis_ops \<Rightarrow> string \<Rightarrow> ('r, 'raw) redis" where
  "NewRedis client pre =
     \<lparr>rs_client = client, rs_keyPrefix = (if pre = '''' then ''xdauth:session:'' else pre)\<rparr>"

definition redis_key :: "('r, 'raw) redis \<Rightarrow> string \<Rightarrow> string" where
  "redis_key d sid = rs_keyPrefix d @ sid"

text \<open>\<open>time.Until(deadline)\<close>, or a minute when that is past.\<close>

definition redis_ttl :: "session \<Rightarrow> time \<Rightarrow> duration" where
  "redis_ttl s now =
     (let ttl = time_Sub (sweep_deadline s) now in if ttl \<le> 0 then minute else ttl)"

definition redis_write ::
  "'raw session_codec \<Rightarrow> ('r, 'raw) redis \<Rightarrow> session \<Rightarrow> time \<Rightarrow> 'r \<Rightarrow> store_error option \<times> 'r" where
  "redis_write C d s now r =
     (case cd_Marshal C s of
        Inl err \<Rightarrow> (Some (StoreErr (''store/redis: encode: '' @ err)), r)
      | Inr raw \<Rightarrow>
          (case rd_Set (rs_client d) (redis_key d (s_ID s)) raw (redis_ttl s now) now r of
             (Some err, r') \<Rightarrow> (Some (StoreErr (''store/redis: set: '' @ err)), r')
           | (None, r') \<Rightarrow> (None, r')))"

definition redis_Create ::
  "'raw session_codec \<Rightarrow> ('r, 'raw) redis \<Rightarrow> session \<Rightarrow> time \<Rightarrow> 'r \<Rightarrow> store_error option \<times> 'r" where
  "redis_Create C d s now r = redis_write C d s now r"

definition redis_Get ::
  "'raw session_codec \<Rightarrow> ('r, 'raw) redis \<Rightarrow> string \<Rightarrow> time \<Rightarrow> 'r \<Rightarrow> store_error + session" where
  "redis_Get C d sid now r =
     (case rd_Get (rs_client d) (redis_key d sid) now r of
        RedisNil \<Rightarrow> Inl ErrNotFound
      | RedisErr err \<Rightarrow> Inl (StoreErr (''store/redis: get: '' @ err))
      | RedisBytes raw \<Rightarrow>
          (case cd_Unmarshal C raw of
             Inl err \<Rightarrow> Inl (StoreErr (''store/redis: decode: '' @ err))
           | Inr s \<Rightarrow> Inr s))"

definition redis_Update ::
  "'raw session_codec \<Rightarrow> ('r, 'raw) redis \<Rightarrow> session \<Rightarrow> time \<Rightarrow> 'r \<Rightarrow> store_error option \<times> 'r" where
  "redis_Update C d s now r =
     (case rd_Exists (rs_client d) (redis_key d (s_ID s)) now r of
        Inl err \<Rightarrow> (Some (StoreErr (''store/redis: exists: '' @ err)), r)
      | Inr n \<Rightarrow> if n = 0 then (Some ErrNotFound, r) else redis_write C d s now r)"

definition redis_Close :: "('r, 'raw) redis \<Rightarrow> 'r \<Rightarrow> 'r option" where
  "redis_Close d r = Some (rd_Close (rs_client d) r)"

definition Redis :: "'raw session_codec \<Rightarrow> ('r, 'raw) redis \<Rightarrow> 'r store_ops" where
  "Redis C d = \<lparr>st_Create = redis_Create C d, st_Get = redis_Get C d, st_Update = redis_Update C d,
     st_Close = redis_Close d\<rparr>"

section \<open>What the code relies on in the server and the codec\<close>

text \<open>
  \<open>written\<close> is the last value set at each key. The server answers \<open>GET\<close> with that value or not at all (the
  key may have expired), reports a key as existing only if it was set, and a \<open>SET\<close> that succeeds sets its
  key and no other; one that fails did so or nothing.
\<close>

locale redis_server =
  fixes client :: "('r, 'raw) redis_ops"
    and written :: "'r \<Rightarrow> string \<rightharpoonup> 'raw"
  assumes get_written: "rd_Get client key now r = RedisBytes raw \<Longrightarrow> written r key = Some raw"
    and exists_written: "rd_Exists client key now r = Inr n \<Longrightarrow> n \<noteq> 0 \<Longrightarrow> key \<in> dom (written r)"
    and set_ok: "rd_Set client key raw ttl now r = (None, r') \<Longrightarrow> written r' = (written r)(key \<mapsto> raw)"
    and set_err: "rd_Set client key raw ttl now r = (Some e, r') \<Longrightarrow>
      written r' = written r \<or> written r' = (written r)(key \<mapsto> raw)"

text \<open>Decoding what was encoded gives the session as \<open>sent\<close> changes it.\<close>

locale redis_backend = redis_server client written
  for client :: "('r, 'raw) redis_ops" and written :: "'r \<Rightarrow> string \<rightharpoonup> 'raw" +
  fixes C :: "'raw session_codec"
    and sent :: "session \<Rightarrow> session"
  assumes codec: "cd_Marshal C s = Inr raw \<Longrightarrow> cd_Unmarshal C raw = Inr (sent s)"
begin

text \<open>The sessions on the server. A value that is none stands for some session; reading it is an error.\<close>

definition decoded :: "('r, 'raw) redis \<Rightarrow> 'r \<Rightarrow> string \<rightharpoonup> session" where
  "decoded d r sid = (case written r (redis_key d sid) of
     None \<Rightarrow> None | Some raw \<Rightarrow> (case cd_Unmarshal C raw of Inl _ \<Rightarrow> Some zero_session | Inr s \<Rightarrow> Some s))"

lemma redis_key_inj: "redis_key d a = redis_key d b \<longleftrightarrow> a = b"
  by (simp add: redis_key_def)

lemma decoded_set:
  assumes "cd_Marshal C s = Inr raw" and "written r' = (written r)(redis_key d (s_ID s) \<mapsto> raw)"
  shows "decoded d r' = (decoded d r)(s_ID s \<mapsto> sent s)"
  using codec [OF assms(1)] assms(2) by (auto simp: decoded_def fun_eq_iff redis_key_inj)

lemma write_ok:
  assumes "redis_write C d s now r = (None, r')" and "rs_client d = client"
  shows "decoded d r' = (decoded d r)(s_ID s \<mapsto> sent s)"
proof -
  obtain raw where m: "cd_Marshal C s = Inr raw" "rd_Set client (redis_key d (s_ID s)) raw (redis_ttl s now) now r = (None, r')"
    using assms by (auto simp: redis_write_def split: sum.splits prod.splits option.splits)
  show ?thesis using decoded_set [OF m(1) set_ok [OF m(2)]] .
qed

lemma write_err:
  assumes "redis_write C d s now r = (Some e, r')" and "rs_client d = client"
  shows "decoded d r' = decoded d r \<or> decoded d r' = (decoded d r)(s_ID s \<mapsto> sent s)"
proof (cases "cd_Marshal C s")
  case (Inl err)
  then show ?thesis using assms by (simp add: redis_write_def)
next
  case (Inr raw)
  then obtain e' where "rd_Set client (redis_key d (s_ID s)) raw (redis_ttl s now) now r = (Some e', r')"
    using assms by (auto simp: redis_write_def split: prod.splits option.splits)
  from set_err [OF this] show ?thesis
  proof
    assume "written r' = written r"
    then show ?thesis by (auto simp: decoded_def fun_eq_iff)
  next
    assume "written r' = (written r)(redis_key d (s_ID s) \<mapsto> raw)"
    from decoded_set [OF Inr this] show ?thesis by simp
  qed
qed

text \<open>Every such backend makes the Redis store keep the contract the broker relies on.\<close>

lemma redis_session_store:
  assumes "rs_client d = client" and "sent = canon_session cn"
  shows "session_store (Redis C d) (decoded d) cn"
proof
  fix sid t st s
  assume "st_Get (Redis C d) sid t st = Inr s"
  then show "decoded d st sid = Some s"
    using assms(1) get_written by (auto simp: Redis_def redis_Get_def decoded_def split: redis_get.splits sum.splits)
next
  fix s t st st'
  assume "st_Create (Redis C d) s t st = (None, st')"
  then show "decoded d st' = (decoded d st)(s_ID s \<mapsto> canon_session cn s)"
    using assms write_ok by (simp add: Redis_def redis_Create_def)
next
  fix s t st e st'
  assume "st_Create (Redis C d) s t st = (Some e, st')"
  then show "decoded d st' = decoded d st \<or> decoded d st' = (decoded d st)(s_ID s \<mapsto> canon_session cn s)"
    using assms write_err by (simp add: Redis_def redis_Create_def)
next
  fix s t st st'
  assume u: "st_Update (Redis C d) s t st = (None, st')"
  then obtain n where n: "rd_Exists client (redis_key d (s_ID s)) t st = Inr n" "n \<noteq> 0"
    and w: "redis_write C d s t st = (None, st')"
    using assms by (auto simp: Redis_def redis_Update_def split: sum.splits if_splits)
  have "s_ID s \<in> dom (decoded d st)" using exists_written [OF n] by (auto simp: decoded_def split: option.split sum.split)
  then show "s_ID s \<in> dom (decoded d st) \<and> decoded d st' = (decoded d st)(s_ID s \<mapsto> canon_session cn s)"
    using write_ok [OF w assms(1)] assms(2) by blast
next
  fix s t st e st'
  assume "st_Update (Redis C d) s t st = (Some e, st')"
  then show "decoded d st' = decoded d st \<or> decoded d st' = (decoded d st)(s_ID s \<mapsto> canon_session cn s)"
    using assms write_err by (auto simp: Redis_def redis_Update_def split: sum.splits if_splits)
qed

end

section \<open>The JSON codec\<close>

text \<open>What was encoded is decoded to the session with its strings and claims as JSON carries them, or, nested too deep,
  not at all.\<close>

lemma go_session_codec_sent:
  assumes "conv_ok P" and "encode_session json_string P s = Some j"
  shows "cd_Unmarshal (go_session_codec P) (json_Marshal j) =
    (if json_depth j \<le> maxNestingDepth then Inr (sent_session json_string s) else Inl ''json: syntax error'')"
  using decode_encode_session [OF assms] proper_Decode(3) [OF encode_session_proper [OF assms]]
  by (simp add: go_session_codec_def)

text \<open>
  The codec on sessions of UTF-8 text, which JSON keeps as they are but for the claims, and that are not nested too deep
  to be read back; it refuses the others.
\<close>

definition text_session_codec :: "json_conv \<Rightarrow> string session_codec" where
  "text_session_codec P = (go_session_codec P)\<lparr>cd_Marshal := (\<lambda>s.
     case encode_session json_string P s of
       None \<Rightarrow> Inl ''json: unsupported value''
     | Some j \<Rightarrow> if encode_session (\<lambda>s. s) P s = Some j \<and> json_depth j \<le> maxNestingDepth
                 then cd_Marshal (go_session_codec P) s else Inl ''not UTF-8 text'')\<rparr>"

lemma text_backend:
  assumes "redis_server client written" and "conv_ok P"
  shows "redis_backend client written (text_session_codec P) (canon_session json_claims)"
proof -
  have "cd_Unmarshal (text_session_codec P) raw = Inr (canon_session json_claims s)"
    if m: "cd_Marshal (text_session_codec P) s = Inr raw" for s raw
  proof -
    obtain j where j: "encode_session json_string P s = Some j" "encode_session (\<lambda>s. s) P s = Some j"
        "json_depth j \<le> maxNestingDepth" "raw = json_Marshal j"
      using m by (auto simp: text_session_codec_def go_session_codec_def split: option.splits if_splits)
    have "sent_session json_string s = sent_session (\<lambda>s. s) s"
      using decode_encode_session [OF assms(2) j(1)] decode_encode_session [OF assms(2) j(2)] by simp
    then show ?thesis
      using go_session_codec_sent [OF assms(2) j(1)] j(3,4) sent_session_plain [OF j(2)] by (simp add: text_session_codec_def)
  qed
  then show ?thesis using assms(1) by (simp add: redis_backend_def redis_backend_axioms_def)
qed

section \<open>A reference backend\<close>

text \<open>A server that keeps each value until it expires and never fails.\<close>

type_synonym ref_server = "string \<rightharpoonup> string \<times> time"

definition ref_live :: "string \<Rightarrow> time \<Rightarrow> ref_server \<Rightarrow> string option" where
  "ref_live key now r = (case r key of None \<Rightarrow> None | Some (raw, ends) \<Rightarrow> if now < ends then Some raw else None)"

definition ref_client :: "(ref_server, string) redis_ops" where
  "ref_client = \<lparr>rd_Get = (\<lambda>key now r. case ref_live key now r of None \<Rightarrow> RedisNil | Some raw \<Rightarrow> RedisBytes raw),
     rd_Exists = (\<lambda>key now r. Inr (if ref_live key now r = None then 0 else 1)),
     rd_Set = (\<lambda>key raw ttl now r. (None, r(key \<mapsto> (raw, time_Add now ttl)))),
     rd_Close = (\<lambda>r. r)\<rparr>"

definition ref_written :: "ref_server \<Rightarrow> string \<rightharpoonup> string" where
  "ref_written r = (\<lambda>key. map_option fst (r key))"

interpretation ref_server: redis_server ref_client ref_written
  by unfold_locales
    (auto simp: ref_client_def ref_written_def ref_live_def intro!: ext split: option.splits if_splits)

abbreviation ref_codec :: "string session_codec" where
  "ref_codec \<equiv> text_session_codec demo_json"

interpretation ref_redis: redis_backend ref_client ref_written ref_codec "canon_session json_claims"
  by (rule text_backend [OF ref_server.redis_server_axioms demo_json_ok])

definition ref_store :: "(ref_server, string) redis" where
  "ref_store = NewRedis ref_client ''''"

interpretation ref_session_store: session_store "Redis ref_codec ref_store" "ref_redis.decoded ref_store" json_claims
  by (rule ref_redis.redis_session_store) (simp_all add: ref_store_def NewRedis_def)

section \<open>Properties\<close>

text \<open>C24: The Redis store is a map of sessions. On a server that behaves as documented, a session read back at the id it
  was created or updated with is the one written, to the nanosecond of its times, with its claims as JSON represents
  them and a replacement character for every byte of a string that is not UTF-8; and a write of another session does not
  change what is read.\<close>

theorem redis_reads_what_was_written:
  assumes "redis_server client written" and "rs_client d = client" and "conv_ok P"
    and "S = Redis (go_session_codec P) d"
    and "st_Create S s t r = (None, r1) \<or> st_Update S s t r = (None, r1)" and "st_Get S sid t' r1 = Inr x"
  shows "(if sid = s_ID s then x = sent_session json_string s
      else \<exists>raw. written r (rs_keyPrefix d @ sid) = Some raw \<and> cd_Unmarshal (go_session_codec P) raw = Inr x)"
proof -
  obtain raw where raw: "written r1 (redis_key d sid) = Some raw" "cd_Unmarshal (go_session_codec P) raw = Inr x"
    using assms(2,4,6) redis_server.get_written [OF assms(1)]
    by (auto simp: Redis_def redis_Get_def split: redis_get.splits sum.splits)
  obtain j where j: "encode_session json_string P s = Some j"
      "written r1 = (written r)(redis_key d (s_ID s) \<mapsto> json_Marshal j)"
    using assms(2,4,5) redis_server.set_ok [OF assms(1)]
    by (auto simp: Redis_def redis_Create_def redis_Update_def redis_write_def go_session_codec_def
        split: sum.splits option.splits prod.splits if_splits)
  show ?thesis
    using raw j go_session_codec_sent [OF assms(3) j(1)] by (auto simp: redis_key_def split: if_splits)
qed

definition demo_identified :: session where
  "demo_identified = demo_stored\<lparr>s_Identity := Some \<lparr>id_Subject = ''sub'', id_Value = ''alice'',
     id_Claims = [''groups'' \<mapsto> AStrs [''g1'', ''g2'']]\<rparr>\<rparr>"

lemma demo_times_encoded:
  "Option.is_none (encode_time demo_json 0) = False" "Option.is_none (encode_time demo_json (1000 * second)) = False"
  "Option.is_none (encode_time demo_json (1300 * second)) = False"
  by code_simp+

lemma demo_identified_encoded: "\<exists>j. encode_session json_string demo_json demo_identified = Some j \<and> json_depth j \<le> 4"
  using demo_times_encoded
  by (simp add: encode_session_def demo_identified_def demo_stored_def encode_int_def encode_identity_def encode_claims_def
      minInt64_def maxInt64_def Option.is_none_def) (elim exE; auto simp: encode_time_def)

theorem redis_reads_what_was_written_witness:
  "(let S = Redis (go_session_codec demo_json) ref_store;
        made = st_Create S demo_identified (1000 * second) Map.empty
    in fst made = None \<and> st_Get S ''s1'' (1100 * second) (snd made) = Inr (sent_session json_string demo_identified) \<and>
       map_option id_Claims (s_Identity (sent_session json_string demo_identified)) =
         Some [''groups'' \<mapsto> AArr [AStr ''g1'', AStr ''g2'']])"
proof -
  define S where "S = Redis (go_session_codec demo_json) (ref_store :: (ref_server, string) redis)"
  obtain j where j: "encode_session json_string demo_json demo_identified = Some j" "json_depth j \<le> maxNestingDepth"
    using demo_identified_encoded by (auto simp: maxNestingDepth_def)
  define r1 where "r1 = snd (st_Create S demo_identified (1000 * second) Map.empty)"
  have c: "st_Create S demo_identified (1000 * second) Map.empty = (None, r1)"
    using j(1) by (simp add: r1_def S_def Redis_def redis_Create_def redis_write_def go_session_codec_def ref_store_def NewRedis_def ref_client_def)
  have "\<exists>x. st_Get S ''s1'' (1100 * second) r1 = Inr x"
    using j go_session_codec_sent [OF demo_json_ok j(1)]
    by (simp add: r1_def S_def Redis_def redis_Create_def redis_write_def redis_Get_def go_session_codec_def ref_store_def NewRedis_def
        ref_client_def ref_live_def demo_identified_def demo_stored_def redis_ttl_def sweep_deadline_def time_Sub_def time_Add_def
        maxInt64_def minInt64_def redis_key_def)
  then obtain x where x: "st_Get S ''s1'' (1100 * second) r1 = Inr x" ..
  have "x = sent_session json_string demo_identified"
    using redis_reads_what_was_written [OF ref_server.redis_server_axioms _ demo_json_ok S_def disjI1 [OF c] x]
    by (simp add: ref_store_def NewRedis_def demo_identified_def demo_stored_def)
  then show ?thesis
    using c x unfolding S_def [symmetric] Let_def
    by (simp add: sent_session_def demo_identified_def sent_claims_def json_string_ascii)
qed

text \<open>Redis keeps a session as long as \<open>Memory\<close> does. A write at a time before twice the session's
  lifetime is past lets the key live exactly until then, the moment the in-memory sweeper drops a session;
  a later write keeps it for one more minute; and the key never goes before the session expires.\<close>

theorem redis_key_lifetime:
  assumes "s_CreatedAt s \<le> s_ExpiresAt s" and "\<bar>sweep_deadline s - now\<bar> \<le> maxInt64"
  shows "time_Add now (redis_ttl s now) = (if now < sweep_deadline s then sweep_deadline s else now + minute) \<and>
    s_ExpiresAt s \<le> time_Add now (redis_ttl s now) \<and> 0 < redis_ttl s now"
  using assms sweep_deadline_ge [OF assms(1)]
  by (auto simp: redis_ttl_def time_Add_def time_Sub_def maxInt64_def minInt64_def Let_def)

theorem redis_key_lifetime_witness:
  "time_Add (1200 * second) (redis_ttl demo_stored (1200 * second)) = 1600 * second"
  by (subst redis_key_lifetime [THEN conjunct1])
    (simp_all add: demo_stored_def sweep_deadline_def time_Add_def time_Sub_def maxInt64_def minInt64_def)

end
