(* ===== verification/Cluster.thy ===== *)
theory Cluster
  imports Broker_Demo Redis
begin

text \<open>
  Overlapping requests and several brokers on one store. net/http runs each request in its own goroutine, and brokers
  that share a Redis server run side by side. A handler reads its session with one \<open>Get\<close> and writes it back with one
  \<open>Update\<close>; nothing holds the session in between, so what it writes may be computed from a session that others have
  changed since. The runs here have all of that, and stores whose calls fail or that evict sessions; the theorem at the
  end says that the four checks hold nevertheless. What does not hold any more is in theory \<open>Races\<close>.
\<close>

section \<open>A request that read earlier\<close>

text \<open>
  Every handler calls \<open>Get\<close> at most once and before its other calls. A request that read earlier is therefore served as
  by a store whose \<open>Get\<close> answers what was read, and whose writes go where they always go.
\<close>

definition reading :: "(string \<Rightarrow> store_error + session) \<Rightarrow> ('st, 'l) env \<Rightarrow> ('st, 'l) env" where
  "reading rd env = env\<lparr>e_store := (e_store env)\<lparr>st_Get := (\<lambda>sid t st. rd sid)\<rparr>\<rparr>"

lemma reading_simps [simp]:
  "e_idp (reading rd env) = e_idp env" "e_rate (reading rd env) = e_rate env"
  "e_unicode (reading rd env) = e_unicode env" "e_urlParses (reading rd env) = e_urlParses env"
  "st_Get (e_store (reading rd env)) sid t st = rd sid"
  "st_Create (e_store (reading rd env)) = st_Create (e_store env)"
  "st_Update (e_store (reading rd env)) = st_Update (e_store env)"
  "b_Get (reading rd env) sid w b = rd sid"
  "b_Create (reading rd env) = b_Create env" "b_Update (reading rd env) = b_Update env"
  by (simp_all add: reading_def b_Get_def b_Create_def b_Update_def fun_eq_iff)

lemma reading_parts [simp]:
  "start_session (reading rd env) = start_session env" "begin_login (reading rd env) = begin_login env"
  "finish_login (reading rd env) = finish_login env" "approve_reply (reading rd env) = approve_reply env"
  by (intro ext; unfold start_session_def begin_login_def finish_login_def approve_reply_def reading_simps;
      rule refl)+

text \<open>A request that reads when it is served is the ordinary one.\<close>

lemma serve_reading_now: "serve (reading (\<lambda>sid. b_Get env sid w b) env) ep r b w = serve env ep r b w"
  by (cases ep; hypsubst; unfold serve.simps handleStart_def handleVerify_def handleIdPResponse_def handleApprove_def
      handlePoll_def reading_simps reading_parts; rule refl)

section \<open>Runs\<close>

text \<open>
  The state of a run is the shared store and the sessions that requests have read and not yet used. A request is served
  by any broker on that store with the normalizer \<open>nz\<close>, whatever its limiters, detector and other settings, and with
  what it read at any time before; a read that failed may have failed for any reason. The exchanges are listed newest
  first.
\<close>

inductive cluster_reach ::
  "('st, 'l) env \<Rightarrow> ('st \<Rightarrow> string \<rightharpoonup> session) \<Rightarrow> normalizer option \<Rightarrow> exchange list \<Rightarrow> (string \<times> session) set \<Rightarrow> 'st \<Rightarrow> bool"
  for env stored nz where
  init: "stored st = Map.empty \<Longrightarrow> cluster_reach env stored nz [] {} st"
| reads: "cluster_reach env stored nz tr R st \<Longrightarrow>
    (\<And>sid s. (sid, s) \<in> R' \<Longrightarrow> (sid, s) \<in> R \<or> (\<exists>t. st_Get (e_store env) sid t st = Inr s)) \<Longrightarrow>
    cluster_reach env stored nz tr R' st"
| served: "cluster_reach env stored nz tr R st \<Longrightarrow> b_store b = st \<Longrightarrow> cfg_IdentityNormalizer (b_cfg b) = nz \<Longrightarrow>
    (\<And>sid s. rd sid = Inr s \<Longrightarrow> (sid, s) \<in> R) \<Longrightarrow> serve (reading rd env) ep r b w = (rep, b', w') \<Longrightarrow>
    cluster_reach env stored nz ((ep, r, rep) # tr) R (b_store b')"
| evicted: "cluster_reach env stored nz tr R st \<Longrightarrow> stored st' \<subseteq>\<^sub>m stored st \<Longrightarrow> cluster_reach env stored nz tr R st'"

section \<open>What the traffic says about a version of a session\<close>

text \<open>
  A start request that may have failed: if it was answered, then with this id and code. A login whose identity the
  session holds, with its claims as stored and read any number of times.
\<close>

definition start_attempt :: "string \<Rightarrow> string \<Rightarrow> string \<Rightarrow> string \<Rightarrow> exchange \<Rightarrow> bool" where
  "start_attempt sid hint challenge code x \<longleftrightarrow>
     (\<exists>r rep q. x = (EpStart, r, rep) \<and> decode_startRequest (r_Body r) = Some q \<and>
        sq_LoginHint q = hint \<and> sq_CodeChallenge q = challenge \<and>
        (\<forall>sr. reply_start rep = Some sr \<longrightarrow> sr_SessionID sr = sid \<and> sr_UserCode sr = code))"

definition logged_in ::
  "idp_ops \<Rightarrow> unicode_tables \<Rightarrow> normalizer option \<Rightarrow> (claims \<Rightarrow> claims) \<Rightarrow> exchange list \<Rightarrow> session \<Rightarrow> bool" where
  "logged_in I u nz cn tr s \<longleftrightarrow>
     (\<exists>x ident secret n. x \<in> set tr \<and> login_exchange I (s_ID s) ident secret x \<and>
        s_ApprovalBindingHash s = hashBinding secret \<and>
        s_Identity s = Some (ident\<lparr>id_Claims := (cn ^^ n) (id_Claims ident)\<rparr>) \<and>
        normalizer_or_default u nz (id_Value ident) = normalizer_or_default u nz (s_LoginHint s))"

definition approved_by ::
  "idp_ops \<Rightarrow> unicode_tables \<Rightarrow> normalizer option \<Rightarrow> (claims \<Rightarrow> claims) \<Rightarrow> exchange list \<Rightarrow> session \<Rightarrow> bool" where
  "approved_by I u nz cn tr s \<longleftrightarrow>
     (\<exists>t1 x t2. tr = t1 @ x # t2 \<and> logged_in I u nz cn t2 s \<and>
        (\<forall>secret. s_ApprovalBindingHash s = hashBinding secret \<longrightarrow>
           approval_exchange u (s_ID s) (s_UserCode s) secret x))"

definition version_ok ::
  "idp_ops \<Rightarrow> unicode_tables \<Rightarrow> normalizer option \<Rightarrow> (claims \<Rightarrow> claims) \<Rightarrow> exchange list \<Rightarrow> string \<Rightarrow> session \<Rightarrow> bool" where
  "version_ok I u nz cn tr sid s \<longleftrightarrow> s_ID s = sid \<and>
     (\<exists>x \<in> set tr. start_attempt sid (s_LoginHint s) (s_CodeChallenge s) (s_UserCode s) x) \<and>
     (s_State s = StateAwaitingApproval \<longrightarrow> logged_in I u nz cn tr s) \<and>
     (s_State s = StateApproved \<longrightarrow> approved_by I u nz cn tr s)"

lemma version_ok_Cons:
  assumes "version_ok I u nz cn tr sid s"
  shows "version_ok I u nz cn (x # tr) sid s"
proof -
  have "logged_in I u nz cn tr s \<Longrightarrow> logged_in I u nz cn (x # tr) s"
    unfolding logged_in_def by (meson list.set_intros(2))
  moreover have "approved_by I u nz cn tr s \<Longrightarrow> approved_by I u nz cn (x # tr) s"
    unfolding approved_by_def by (metis append_Cons)
  ultimately show ?thesis using assms by (auto simp: version_ok_def)
qed

text \<open>Both predicates read only fields that the other operations do not write.\<close>

lemma version_frame [simp]:
  "logged_in I u nz cn tr (s\<lparr>s_State := st\<rparr>) = logged_in I u nz cn tr s"
  "logged_in I u nz cn tr (s\<lparr>s_ApproveAttempts := k\<rparr>) = logged_in I u nz cn tr s"
  "logged_in I u nz cn tr (s\<lparr>s_Consumed := c\<rparr>) = logged_in I u nz cn tr s"
  "logged_in I u nz cn tr (s\<lparr>s_LastPollAt := t\<rparr>) = logged_in I u nz cn tr s"
  "approved_by I u nz cn tr (s\<lparr>s_State := st\<rparr>) = approved_by I u nz cn tr s"
  "approved_by I u nz cn tr (s\<lparr>s_Consumed := c\<rparr>) = approved_by I u nz cn tr s"
  "approved_by I u nz cn tr (s\<lparr>s_LastPollAt := t\<rparr>) = approved_by I u nz cn tr s"
  by (simp_all add: logged_in_def approved_by_def)

lemma logged_in_canon: "logged_in I u nz cn tr s \<Longrightarrow> logged_in I u nz cn tr (canon_session cn s)"
proof -
  assume "logged_in I u nz cn tr s"
  then obtain x ident secret n where "x \<in> set tr" "login_exchange I (s_ID s) ident secret x"
    "s_ApprovalBindingHash s = hashBinding secret"
    "s_Identity s = Some (ident\<lparr>id_Claims := (cn ^^ n) (id_Claims ident)\<rparr>)"
    "normalizer_or_default u nz (id_Value ident) = normalizer_or_default u nz (s_LoginHint s)"
    unfolding logged_in_def by blast
  then show ?thesis
    unfolding logged_in_def
    by (intro exI [of _ x] exI [of _ ident] exI [of _ secret] exI [of _ "Suc n"]) (simp add: canon_session_def)
qed

lemma version_ok_canon:
  assumes "version_ok I u nz cn tr sid s"
  shows "version_ok I u nz cn tr sid (canon_session cn s)"
proof -
  have "approved_by I u nz cn tr (canon_session cn s)" if "approved_by I u nz cn tr s"
  proof -
    from that obtain t1 x t2 where t: "tr = t1 @ x # t2" "logged_in I u nz cn t2 s"
      "\<forall>secret. s_ApprovalBindingHash s = hashBinding secret \<longrightarrow> approval_exchange u (s_ID s) (s_UserCode s) secret x"
      unfolding approved_by_def by metis
    moreover have "s_ApprovalBindingHash (canon_session cn s) = s_ApprovalBindingHash s"
      "s_ID (canon_session cn s) = s_ID s" "s_UserCode (canon_session cn s) = s_UserCode s"
      by (simp_all add: canon_session_def)
    ultimately show ?thesis unfolding approved_by_def using logged_in_canon [OF t(2)] by metis
  qed
  then show ?thesis
    using assms logged_in_canon [of I u nz cn tr s] by (auto simp: version_ok_def canon_session_def)
qed

lemma version_ok_new:
  assumes "newSession p ttl iv w = (Some s0, w')" and "explains_start x s0 \<or> failed_start x s0"
  shows "version_ok I u nz cn (x # tr) (s_ID s0) s0"
proof -
  have "start_attempt (s_ID s0) (s_LoginHint s0) (s_CodeChallenge s0) (s_UserCode s0) x"
    using assms(2) by (cases x) (auto simp: explains_start_def failed_start_def start_attempt_def)
  then show ?thesis using assms(1) by (auto elim!: newSession_Some simp: version_ok_def)
qed

lemma version_ok_step:
  assumes "version_ok I u nz cn tr sid s" and "sess_step u nz op s = (ob, s')" and "explains I x sid op ob"
  shows "version_ok I u nz cn (x # tr) sid s'"
  using assms(2)
proof (cases rule: sess_step_cases)
  case (bound ident now h w token)
  then obtain secret where "h = hashBinding secret" "login_exchange I sid ident secret x"
    using assms(3) by (auto elim: explains_bind_exchange)
  moreover have "s_Identity s' = Some (ident\<lparr>id_Claims := (cn ^^ 0) (id_Claims ident)\<rparr>)" using bound by simp
  ultimately have "logged_in I u nz cn (x # tr) s'"
    unfolding logged_in_def using bound assms(1)
    by (intro exI [of _ x] exI [of _ ident] exI [of _ secret] exI [of _ 0]) (simp add: version_ok_def)
  then show ?thesis using version_ok_Cons [OF assms(1), of x] bound by (simp add: version_ok_def)
next
  case (approved c now p)
  then have "logged_in I u nz cn tr s" using assms(1) by (simp add: version_ok_def)
  moreover have "approval_exchange u sid (s_UserCode s) secret x" if "s_ApprovalBindingHash s = hashBinding secret" for secret
    using explains_approve_exchange [OF _ approved(6), of I x sid now p ob secret] assms(3) approved that by simp
  ultimately have "approved_by I u nz cn (x # tr) s'"
    unfolding approved_by_def using approved assms(1)
    by (intro exI [of _ "[]"] exI [of _ x] exI [of _ tr]) (simp add: version_ok_def)
  then show ?thesis using version_ok_Cons [OF assms(1), of x] approved by (simp add: version_ok_def)
qed (use version_ok_Cons [OF assms(1), of x] in \<open>auto simp: version_ok_def begin_fields_def\<close>)

section \<open>Every version is explained by the traffic\<close>

text \<open>
  What a group of brokers relies on: a store that keeps what is written, up to the form of claims, and may fail; and the
  provider. A broker on a store that does not fail is a case of it.
\<close>

locale broker_cluster = session_store "e_store env" stored cn + identity_provider "e_idp env"
  for env :: "('st, 'l) env" and stored :: "'st \<Rightarrow> string \<rightharpoonup> session" and cn :: "claims \<Rightarrow> claims"
begin

abbreviation explained :: "normalizer option \<Rightarrow> exchange list \<Rightarrow> string \<Rightarrow> session \<Rightarrow> bool" where
  "explained nz \<equiv> version_ok (e_idp env) (e_unicode env) nz cn"

lemma calls_explained:
  assumes "exchange_call (e_idp env) (e_unicode env) nz (e_store (reading rd env)) st x st'"
    and "\<And>sid s. rd sid = Inr s \<Longrightarrow> explained nz tr sid s"
    and "\<And>sid s. stored st sid = Some s \<Longrightarrow> explained nz tr sid s"
  shows "\<forall>sid s. stored st' sid = Some s \<longrightarrow> explained nz (x # tr) sid s"
proof -
  have old: "\<forall>sid s. stored st sid = Some s \<longrightarrow> explained nz (x # tr) sid s"
    using assms(3) version_ok_Cons by blast
  from assms(1) show ?thesis
  proof (cases rule: exchange_call.cases)
    case (creates p ttl iv w s0 w' t e)
    have "explained nz (x # tr) (s_ID s0) s0"
      using creates(1) creates(3) by (intro version_ok_new) (auto split: if_splits)
    from create_all [OF old version_ok_canon [OF this], of t] show ?thesis using creates(2) by simp
  next
    case (updates sid t s op ob s' t' e)
    have v: "explained nz (x # tr) sid s'"
      using version_ok_step [OF assms(2)] updates(1-3) by simp
    then have "explained nz (x # tr) (s_ID s') (canon_session cn s')"
      using version_ok_canon by (metis version_ok_def)
    from update_all [OF old this, of t'] show ?thesis using updates(6) by simp
  qed (use old in simp)
qed

lemma cluster_inv:
  assumes "cluster_reach env stored nz tr R st"
  shows "(\<forall>sid s. (sid, s) \<in> R \<longrightarrow> explained nz tr sid s) \<and> (\<forall>sid s. stored st sid = Some s \<longrightarrow> explained nz tr sid s)"
  using assms
proof (induction rule: cluster_reach.induct)
  case (reads tr R st R')
  then show ?case using get_stored by blast
next
  case (served tr R st b rd ep r w rep b' w')
  have ids: "get_ids (e_store (reading rd env)) (b_store b)"
    using served by (auto simp: get_ids_def version_ok_def)
  have "exchange_call (e_idp env) (e_unicode env) nz (e_store (reading rd env)) st (ep, r, rep) (b_store b')"
    using serve_makes_calls [OF _ served(5) ids] identity_provider_axioms served(2,3) by simp
  then have "\<forall>sid s. stored (b_store b') sid = Some s \<longrightarrow> explained nz ((ep, r, rep) # tr) sid s"
    by (rule calls_explained) (use served in blast)+
  then show ?case using served.IH version_ok_Cons by blast
next
  case (evicted tr R st st')
  then show ?case by (metis domI map_le_def)
qed simp

lemma cluster_calls:
  assumes "cluster_reach env stored nz tr R st" and "b_store b = st" and "cfg_IdentityNormalizer (b_cfg b) = nz"
    and "\<And>sid s. rd sid = Inr s \<Longrightarrow> (sid, s) \<in> R" and "serve (reading rd env) ep r b w = (rep, b', w')"
  shows "exchange_call (e_idp env) (e_unicode env) nz (e_store (reading rd env)) st (ep, r, rep) (b_store b')"
proof -
  have "get_ids (e_store (reading rd env)) (b_store b)"
    using cluster_inv [OF assms(1)] assms(4) by (auto simp: get_ids_def version_ok_def)
  then show ?thesis using serve_makes_calls [OF _ assms(5)] identity_provider_axioms assms(2,3) by simp
qed

lemma cluster_artifact_poll:
  assumes "cluster_reach env stored nz tr R st" and "b_store b = st" and "cfg_IdentityNormalizer (b_cfg b) = nz"
    and "\<And>sid s. rd sid = Inr s \<Longrightarrow> (sid, s) \<in> R" and "serve (reading rd env) ep r b w = (rep, b', w')"
    and "reply_artifact rep = Some a"
  shows "ep = EpPoll"
  using cluster_calls [OF assms(1-5)]
  by cases (use assms(6) in \<open>auto simp: explains_start_def failed_start_def split: if_splits\<close>)

lemma cluster_release:
  assumes "cluster_reach env stored nz tr R st" and "b_store b = st" and "cfg_IdentityNormalizer (b_cfg b) = nz"
    and "\<And>sid s. rd sid = Inr s \<Longrightarrow> (sid, s) \<in> R"
    and "serve (reading rd env) EpPoll r b w = (rep, b', w')" and "reply_artifact rep = Some a"
  shows "\<exists>sid v hint code secret ident n t1 x2 t2 x1 x0.
    decode_pollRequest (r_Body r) = Some \<lparr>pq_SessionID = sid, pq_CodeVerifier = v\<rparr> \<and> v \<noteq> '''' \<and>
    x0 \<in> set tr \<and> start_attempt sid hint (S256 v) code x0 \<and>
    tr = t1 @ x2 # t2 \<and> approval_exchange (e_unicode env) sid code secret x2 \<and>
    x1 \<in> set t2 \<and> login_exchange (e_idp env) sid ident secret x1 \<and>
    normalizer_or_default (e_unicode env) nz (id_Value ident) = normalizer_or_default (e_unicode env) nz hint \<and>
    a_Identity a = id_Value ident \<and> a_Subject a = id_Subject ident \<and> a_Claims a = (cn ^^ n) (id_Claims ident)"
proof -
  note inv = cluster_inv [OF assms(1)]
  have "exchange_call (e_idp env) (e_unicode env) nz (e_store (reading rd env)) st (EpPoll, r, rep) (b_store b')"
    by (rule cluster_calls [OF assms(1-5)])
  then show ?thesis
  proof (cases rule: exchange_call.cases)
    case (updates sid t s op ob s' t' e)
    obtain v now ttl where op: "op = OpPoll v now ttl" using updates(3) by (cases op) auto
    then obtain res where res: "ob = ObsPoll res" "released res = Some a"
      "decode_pollRequest (r_Body r) = Some \<lparr>pq_SessionID = sid, pq_CodeVerifier = v\<rparr>"
      using updates(3) assms(6) by auto
    have "poll v now ttl s = (res, s')" using updates(2) op res(1) by (auto split: prod.splits)
    then obtain ident where rel: "s_State s = StateApproved" "verifyClientPKCE v (s_CodeChallenge s)"
      "s_Identity s = Some ident" "a_Identity a = id_Value ident" "a_Subject a = id_Subject ident"
      "a_Claims a = id_Claims ident"
      using res(2) by (auto elim!: released_poll)
    have ok: "explained nz tr sid s" using updates(1) assms(4) inv by simp
    then obtain t1 x2 t2 where t: "tr = t1 @ x2 # t2" "logged_in (e_idp env) (e_unicode env) nz cn t2 s"
      "\<forall>secret. s_ApprovalBindingHash s = hashBinding secret \<longrightarrow>
         approval_exchange (e_unicode env) sid (s_UserCode s) secret x2"
      using rel(1) unfolding version_ok_def approved_by_def by blast
    then obtain x1 id0 secret n where l: "x1 \<in> set t2" "login_exchange (e_idp env) sid id0 secret x1"
      "s_ApprovalBindingHash s = hashBinding secret" "s_Identity s = Some (id0\<lparr>id_Claims := (cn ^^ n) (id_Claims id0)\<rparr>)"
      "normalizer_or_default (e_unicode env) nz (id_Value id0) = normalizer_or_default (e_unicode env) nz (s_LoginHint s)"
      using ok unfolding logged_in_def version_ok_def by blast
    obtain x0 where x0: "x0 \<in> set tr" "start_attempt sid (s_LoginHint s) (s_CodeChallenge s) (s_UserCode s) x0"
      using ok unfolding version_ok_def by blast
    have v: "s_CodeChallenge s = S256 v" "v \<noteq> ''''" using rel(2) by (simp_all add: verifyClientPKCE_iff)
    have a: "a_Identity a = id_Value id0" "a_Subject a = id_Subject id0" "a_Claims a = (cn ^^ n) (id_Claims id0)"
      using rel(3-6) l(4) by auto
    show ?thesis using res(3) v x0 t(1,3) l(1,2,3,5) a by metis
  qed (use assms(6) in \<open>auto simp: explains_start_def failed_start_def split: if_splits\<close>)
qed

end

sublocale broker_env \<subseteq> cluster: broker_cluster env stored "\<lambda>c. c"
  by unfold_locales

text \<open>The runs of one broker that serves one request after the other are among these runs.\<close>

context broker_env
begin

lemma sequential_run:
  assumes "broker_reach env stored cfg tr b"
  shows "b_cfg b = applyDefaults cfg \<and>
    (\<exists>R. cluster_reach env stored (cfg_IdentityNormalizer cfg) tr R (b_store b))"
  using assms
proof (induction rule: broker_reach.induct)
  case (init st)
  then show ?case using cluster_reach.init [of stored st env "cfg_IdentityNormalizer cfg"] by auto
next
  case (served tr b ep r w rep b' w')
  let ?R = "{(sid, s). b_Get env sid w b = Inr s}"
  obtain R where "cluster_reach env stored (cfg_IdentityNormalizer cfg) tr R (b_store b)" using served.IH by blast
  then have "cluster_reach env stored (cfg_IdentityNormalizer cfg) tr ?R (b_store b)"
    by (rule cluster_reach.reads) (auto simp: b_Get_def)
  then have "cluster_reach env stored (cfg_IdentityNormalizer cfg) ((ep, r, rep) # tr) ?R (b_store b')"
    using served by (intro cluster_reach.served [where b = b and w = w and w' = w' and rd = "\<lambda>sid. b_Get env sid w b"])
      (auto simp: serve_reading_now simp del: serve.simps)
  then show ?case using serve_cfg [OF served.hyps(2)] served.IH by auto
next
  case (evicted tr b st')
  then show ?case using cluster_reach.evicted by fastforce
qed

end

text \<open>Brokers on a Redis server are such a group, whatever the server and the codec, as long as they behave as documented.\<close>

context redis_backend
begin

lemma redis_cluster:
  assumes "e_store env = Redis C d" and "rs_client d = client" and "sent = canon_session cn" and "identity_provider (e_idp env)"
  shows "broker_cluster env (decoded d) cn"
  using redis_session_store [OF assms(2,3)] assms(1,4) by (simp add: broker_cluster_def)

end

section \<open>Properties\<close>

text \<open>C2: The four checks under concurrency and failures. Take any number of brokers on one store, in memory or on Redis,
  whose calls may fail and which may lose sessions; let them serve any requests, overlapping in any way, so that a
  handler may write back a session computed from one that others have changed since it was read. If a poll is answered
  with an artifact, then the poller sent a verifier whose S256 challenge came with a start request, which was answered,
  if at all, with this session and code; a browser holding the session cookie completed a login at the identity
  provider, whose verified identity equals the start request's login hint after normalisation, and was given an
  approval cookie; later a browser with the session cookie and an approval cookie of the same hash approved with the
  session's code; and the artifact carries the verified identity, with its claims as the store returns them.\<close>

theorem overlapping_release_needs_all_checks:
  assumes "session_store (e_store env) stored cn" and "identity_provider (e_idp env)"
    and "cluster_reach env stored nz tr R st" and "b_store b = st" and "cfg_IdentityNormalizer (b_cfg b) = nz"
    and "\<And>sid s. rd sid = Inr s \<Longrightarrow> (sid, s) \<in> R"
    and "serve (reading rd env) EpPoll r b w = (rep, b', w')" and "reply_artifact rep = Some a"
  shows "\<exists>sid v hint code secret ident n t1 x2 t2 x1 x0.
    decode_pollRequest (r_Body r) = Some \<lparr>pq_SessionID = sid, pq_CodeVerifier = v\<rparr> \<and> v \<noteq> '''' \<and>
    x0 \<in> set tr \<and> start_attempt sid hint (S256 v) code x0 \<and>
    tr = t1 @ x2 # t2 \<and> approval_exchange (e_unicode env) sid code secret x2 \<and>
    x1 \<in> set t2 \<and> login_exchange (e_idp env) sid ident secret x1 \<and>
    normalizer_or_default (e_unicode env) nz (id_Value ident) = normalizer_or_default (e_unicode env) nz hint \<and>
    a_Identity a = id_Value ident \<and> a_Subject a = id_Subject ident \<and> a_Claims a = (cn ^^ n) (id_Claims ident)"
  by (rule broker_cluster.cluster_release [OF _ assms(3-8)]) (use assms(1,2) in \<open>simp add: broker_cluster_def\<close>)

theorem overlapping_release_needs_all_checks_witness:
  "\<exists>sid v hint code secret ident n t1 x2 t2 x1 x0.
    decode_pollRequest (r_Body demo_poll_request) = Some \<lparr>pq_SessionID = sid, pq_CodeVerifier = v\<rparr> \<and> v \<noteq> '''' \<and>
    x0 \<in> set demo_trace \<and> start_attempt sid hint (S256 v) code x0 \<and>
    demo_trace = t1 @ x2 # t2 \<and> approval_exchange (e_unicode demo_env) sid code secret x2 \<and>
    x1 \<in> set t2 \<and> login_exchange (e_idp demo_env) sid ident secret x1 \<and>
    normalizer_or_default (e_unicode demo_env) None (id_Value ident) = normalizer_or_default (e_unicode demo_env) None hint \<and>
    a_Identity demo_artifact = id_Value ident \<and> a_Subject demo_artifact = id_Subject ident \<and>
    a_Claims demo_artifact = ((\<lambda>c. c) ^^ n) (id_Claims ident)"
proof -
  let ?b = "fst (snd demo_out4)" and ?nz = "cfg_IdentityNormalizer demo_cfg"
  let ?R = "{(sid, s). b_Get demo_env sid demo_world ?b = Inr s}"
  have seq: "b_cfg ?b = applyDefaults demo_cfg \<and> (\<exists>R. cluster_reach demo_env m_sessions ?nz demo_trace R (b_store ?b))"
    by (rule demo.sequential_run [OF demo_trace_reach])
  then have run: "cluster_reach demo_env m_sessions ?nz demo_trace ?R (b_store ?b)"
    by (auto simp: b_Get_def elim!: cluster_reach.reads)
  have nz: "?nz = None" by (simp add: demo_cfg_def)
  have poll: "serve (reading (\<lambda>sid. b_Get demo_env sid demo_world ?b) demo_env) EpPoll demo_poll_request ?b demo_world =
      (fst demo_out5, fst (snd demo_out5), snd (snd demo_out5))"
    unfolding serve_reading_now by (rule demo_outs(5))
  show ?thesis
    by (rule overlapping_release_needs_all_checks [OF _ _ run [unfolded nz] refl _ _ poll demo_released])
      (use seq nz in \<open>simp_all add: demo_env_parts demo_idp_contract mem.session_store_axioms\<close>)
qed

end
