(* ===== verification/Oidc.thy ===== *)
theory Oidc
  imports Broker_Sim
begin

text \<open>
  \<open>internal/oidc/oidc.go\<close>: the broker's OpenID Connect client. The libraries it wraps, \<open>go-oidc\<close> and
  \<open>golang.org/x/oauth2\<close>, are the parameter \<open>oidc_ext\<close>: discovery, random verifiers, the authorization URL,
  the code exchange and the verification of an ID token. The lemmas say what has been checked when a
  login completes, and that the provider keeps the contract the broker relies on. An error is its text,
  without the details the source quotes into it.
\<close>

section \<open>The wrapped libraries\<close>

datatype auth_option =
    SetAuthURLParam string string
  | S256ChallengeOption string
  | VerifierOption string

record oauth2_config =
  oa_ClientID :: string
  oa_ClientSecret :: string
  oa_RedirectURL :: string
  oa_Endpoint :: string
  oa_Scopes :: "string list"

text \<open>\<open>tk_id_token\<close> is \<open>tok.Extra("id_token")\<close>; \<open>it_Claims\<close> the outcome of decoding the claims.\<close>

record oauth2_token =
  tk_id_token :: goany

record id_token =
  it_Subject :: string
  it_Nonce :: string
  it_Claims :: "claims option"

record oidc_ext =
  ox_NewProvider :: "string \<Rightarrow> world \<Rightarrow> (string + string) \<times> world"
  ox_GenerateVerifier :: "world \<Rightarrow> string \<times> world"
  ox_AuthCodeURL :: "oauth2_config \<Rightarrow> string \<Rightarrow> auth_option list \<Rightarrow> string"
  ox_Exchange :: "oauth2_config \<Rightarrow> string \<Rightarrow> auth_option list \<Rightarrow> world \<Rightarrow> (string + oauth2_token) \<times> world"
  ox_Verify :: "string \<Rightarrow> string \<Rightarrow> string \<Rightarrow> world \<Rightarrow> (string + id_token) \<times> world"

section \<open>Configuration and construction\<close>

record oidc_Config =
  oc_IssuerURL :: string
  oc_ClientID :: string
  oc_ClientSecret :: string
  oc_RedirectURL :: string
  oc_Scopes :: "string list"
  oc_IdentityClaim :: string
  oc_RequiredAMR :: "string list"

text \<open>The ID-token verifier is kept as the issuer and the client id it was made for.\<close>

record oidc_Provider =
  op_cfg :: oidc_Config
  op_oauth2 :: oauth2_config
  op_verifier :: "string \<times> string"

definition oidc_New :: "oidc_ext \<Rightarrow> oidc_Config \<Rightarrow> world \<Rightarrow> (string + oidc_Provider) \<times> world" where
  "oidc_New X cfg0 w =
     (let cfg1 = (if oc_IdentityClaim cfg0 = '''' then cfg0\<lparr>oc_IdentityClaim := ''preferred_username''\<rparr> else cfg0);
          hasOpenID = list_ex (\<lambda>s. s = ''openid'') (oc_Scopes cfg1);
          cfg = (if \<not> hasOpenID then cfg1\<lparr>oc_Scopes := ''openid'' # oc_Scopes cfg1\<rparr> else cfg1)
      in (case ox_NewProvider X (oc_IssuerURL cfg) w of
            (Inl err, w1) \<Rightarrow> (Inl (''discover issuer: '' @ err), w1)
          | (Inr ep, w1) \<Rightarrow>
              (Inr \<lparr>op_cfg = cfg,
                    op_oauth2 = \<lparr>oa_ClientID = oc_ClientID cfg, oa_ClientSecret = oc_ClientSecret cfg,
                                 oa_RedirectURL = oc_RedirectURL cfg, oa_Endpoint = ep,
                                 oa_Scopes = oc_Scopes cfg\<rparr>,
                    op_verifier = (oc_IssuerURL cfg, oc_ClientID cfg)\<rparr>, w1)))"

record PKCEPair =
  pk_Verifier :: string
  pk_Challenge :: string

definition NewPKCEPair :: "oidc_ext \<Rightarrow> world \<Rightarrow> PKCEPair \<times> world" where
  "NewPKCEPair X w =
     (let (verifier, w1) = ox_GenerateVerifier X w;
          sum = sha256_Sum256 (bytes_of verifier);
          challenge = base64_RawURL sum
      in (\<lparr>pk_Verifier = verifier, pk_Challenge = challenge\<rparr>, w1))"

definition oidcNonce :: "string \<Rightarrow> auth_option" where
  "oidcNonce nonce = SetAuthURLParam ''nonce'' nonce"

definition oidc_AuthCodeURL :: "oidc_ext \<Rightarrow> oidc_Provider \<Rightarrow> string \<Rightarrow> string \<Rightarrow> PKCEPair \<Rightarrow> string" where
  "oidc_AuthCodeURL X p state nonce pkce =
     ox_AuthCodeURL X (op_oauth2 p) state [oidcNonce nonce, S256ChallengeOption (pk_Verifier pkce)]"

section \<open>Completing a login\<close>

definition go_string :: "goany \<Rightarrow> string option" where
  "go_string v = (case v of AStr s \<Rightarrow> Some s | _ \<Rightarrow> None)"

fun amr_have :: "goany list \<Rightarrow> string set" where
  "amr_have [] = {}"
| "amr_have (v # vs) = (case go_string v of Some s \<Rightarrow> insert s (amr_have vs) | None \<Rightarrow> amr_have vs)"

definition amrSatisfies :: "claims \<Rightarrow> string list \<Rightarrow> bool" where
  "amrSatisfies cs required =
     (case cs ''amr'' of
        None \<Rightarrow> False
      | Some raw \<Rightarrow>
          (case raw of
             AArr vs \<Rightarrow> list_ex (\<lambda>want. want \<in> amr_have vs) required
           | _ \<Rightarrow> False))"

text \<open>The claim read as the identity: a missing claim or one that is not a string reads as empty.\<close>

definition claim_value :: "claims \<Rightarrow> string \<Rightarrow> string" where
  "claim_value cs k =
     (case cs k of None \<Rightarrow> '''' | Some v \<Rightarrow> (case go_string v of None \<Rightarrow> '''' | Some s \<Rightarrow> s))"

definition oidc_Exchange ::
  "oidc_ext \<Rightarrow> oidc_Provider \<Rightarrow> string \<Rightarrow> PKCEPair \<Rightarrow> string \<Rightarrow> world \<Rightarrow> (string + identity) \<times> world" where
  "oidc_Exchange X p code pkce expectedNonce w =
     (case ox_Exchange X (op_oauth2 p) code [VerifierOption (pk_Verifier pkce)] w of
        (Inl err, w1) \<Rightarrow> (Inl (''code exchange: '' @ err), w1)
      | (Inr tok, w1) \<Rightarrow>
     (case go_string (tk_id_token tok) of
        None \<Rightarrow> (Inl ''token response carried no id_token'', w1)
      | Some rawIDToken \<Rightarrow>
          if rawIDToken = '''' then (Inl ''token response carried no id_token'', w1)
          else
     (case ox_Verify X (fst (op_verifier p)) (snd (op_verifier p)) rawIDToken w1 of
        (Inl err, w2) \<Rightarrow> (Inl (''id_token verification: '' @ err), w2)
      | (Inr idToken, w2) \<Rightarrow>
          if it_Nonce idToken \<noteq> expectedNonce then (Inl ''id_token nonce mismatch'', w2)
          else
     (case it_Claims idToken of
        None \<Rightarrow> (Inl ''decode claims'', w2)
      | Some cs \<Rightarrow>
          if oc_RequiredAMR (op_cfg p) \<noteq> [] \<and> \<not> amrSatisfies cs (oc_RequiredAMR (op_cfg p))
          then (Inl ''id_token amr claim does not include a required authentication method'', w2)
          else
            let value = claim_value cs (oc_IdentityClaim (op_cfg p)) in
            if value = '''' then (Inl ''identity claim missing or empty'', w2)
            else (Inr \<lparr>id_Subject = it_Subject idToken, id_Value = value, id_Claims = cs\<rparr>, w2)))))"

section \<open>The identity-provider operations\<close>

definition oidc_BeginLogin ::
  "oidc_ext \<Rightarrow> oidc_Provider \<Rightarrow> session \<Rightarrow> world \<Rightarrow> (string + string) \<times> session \<times> world" where
  "oidc_BeginLogin X p s w =
     (let (pkce, w1) = NewPKCEPair X w;
          (state, w2) = ox_GenerateVerifier X w1;
          (nonce, w3) = ox_GenerateVerifier X w2
      in (Inr (oidc_AuthCodeURL X p state nonce pkce),
          s\<lparr>s_IdPState := state, s_IdPNonce := nonce, s_IdPPKCEVerifier := pk_Verifier pkce,
            s_Protocol := ''oidc''\<rparr>, w3))"

definition oidc_CompleteLogin ::
  "oidc_ext \<Rightarrow> oidc_Provider \<Rightarrow> request \<Rightarrow> session \<Rightarrow> world \<Rightarrow> (string + identity) \<times> world" where
  "oidc_CompleteLogin X p r s w =
     (if query_Get r ''state'' = '''' \<or> query_Get r ''state'' \<noteq> s_IdPState s
      then (Inl ''state mismatch'', w)
      else
        let code = query_Get r ''code'' in
        if code = '''' then (Inl ''identity provider did not return an authorization code'', w)
        else oidc_Exchange X p code \<lparr>pk_Verifier = s_IdPPKCEVerifier s, pk_Challenge = ''''\<rparr> (s_IdPNonce s) w)"

definition oidc_ops :: "oidc_ext \<Rightarrow> oidc_Provider \<Rightarrow> idp_ops" where
  "oidc_ops X p = \<lparr>idp_BeginLogin = oidc_BeginLogin X p, idp_CompleteLogin = oidc_CompleteLogin X p\<rparr>"

section \<open>Lemmas\<close>

interpretation oidc: identity_provider "oidc_ops X p" for X p
proof
  fix s w res s' w'
  assume "idp_BeginLogin (oidc_ops X p) s w = (res, s', w')"
  then have "s' = begin_fields ''oidc'' (s_IdPState s') (s_IdPNonce s') (s_IdPPKCEVerifier s') (s_SAMLRequestID s) s"
    by (auto simp: oidc_ops_def oidc_BeginLogin_def begin_fields_def Let_def split: prod.splits)
  then show "\<exists>pr st no ve rq. s' = begin_fields pr st no ve rq s" by blast
qed

lemma amr_have_iff: "s \<in> amr_have vs \<longleftrightarrow> AStr s \<in> set vs"
  by (induction vs) (auto simp: go_string_def split: goany.splits)

lemma claim_value_iff: "v \<noteq> '''' \<Longrightarrow> claim_value cs k = v \<longleftrightarrow> cs k = Some (AStr v)"
  by (auto simp: claim_value_def go_string_def split: option.splits goany.splits)

lemma oidc_Exchange_Inr:
  assumes "oidc_Exchange X p code pkce nonce w = (Inr ident, w')"
  obtains tok raw w1 it cs where
    "ox_Exchange X (op_oauth2 p) code [VerifierOption (pk_Verifier pkce)] w = (Inr tok, w1)"
    "tk_id_token tok = AStr raw"
    "ox_Verify X (fst (op_verifier p)) (snd (op_verifier p)) raw w1 = (Inr it, w')" "it_Nonce it = nonce"
    "it_Claims it = Some cs" "oc_RequiredAMR (op_cfg p) = [] \<or> amrSatisfies cs (oc_RequiredAMR (op_cfg p))"
    "id_Value ident \<noteq> ''''" "cs (oc_IdentityClaim (op_cfg p)) = Some (AStr (id_Value ident))"
    "id_Subject ident = it_Subject it" "id_Claims ident = cs"
proof -
  have "\<exists>tok raw w1 it cs.
    ox_Exchange X (op_oauth2 p) code [VerifierOption (pk_Verifier pkce)] w = (Inr tok, w1) \<and>
    tk_id_token tok = AStr raw \<and>
    ox_Verify X (fst (op_verifier p)) (snd (op_verifier p)) raw w1 = (Inr it, w') \<and> it_Nonce it = nonce \<and>
    it_Claims it = Some cs \<and> (oc_RequiredAMR (op_cfg p) = [] \<or> amrSatisfies cs (oc_RequiredAMR (op_cfg p))) \<and>
    id_Value ident \<noteq> '''' \<and> claim_value cs (oc_IdentityClaim (op_cfg p)) = id_Value ident \<and>
    id_Subject ident = it_Subject it \<and> id_Claims ident = cs"
    using assms
    by (auto simp: oidc_Exchange_def go_string_def Let_def
        split: prod.splits sum.splits option.splits goany.splits if_splits)
  then show ?thesis using that claim_value_iff by blast
qed

section \<open>Properties\<close>

text \<open>C22: What a completed OpenID Connect login has checked. The request carried the state the broker
  generated for this session, not an empty one; the code was exchanged with the session's own PKCE
  verifier; the ID token was verified for the configured issuer and client, carries the session's nonce
  and, where methods are required, one of them in its \<open>amr\<close> claim; and the identity is the token's
  subject and the non-empty string in the configured claim. So no login completes on a session for which
  none was begun.\<close>

theorem oidc_login_checked:
  assumes "idp_CompleteLogin (oidc_ops X p) r s w = (Inr ident, w')"
  shows "s_IdPState s \<noteq> '''' \<and> query_Get r ''state'' = s_IdPState s \<and> query_Get r ''code'' \<noteq> '''' \<and>
    (\<exists>tok raw w1 it cs.
       ox_Exchange X (op_oauth2 p) (query_Get r ''code'') [VerifierOption (s_IdPPKCEVerifier s)] w = (Inr tok, w1) \<and>
       tk_id_token tok = AStr raw \<and>
       ox_Verify X (fst (op_verifier p)) (snd (op_verifier p)) raw w1 = (Inr it, w') \<and>
       it_Nonce it = s_IdPNonce s \<and> it_Claims it = Some cs \<and>
       (oc_RequiredAMR (op_cfg p) = [] \<or>
        (\<exists>vs m. cs ''amr'' = Some (AArr vs) \<and> m \<in> set (oc_RequiredAMR (op_cfg p)) \<and> AStr m \<in> set vs)) \<and>
       id_Value ident \<noteq> '''' \<and> cs (oc_IdentityClaim (op_cfg p)) = Some (AStr (id_Value ident)) \<and>
       id_Subject ident = it_Subject it \<and> id_Claims ident = cs)"
proof -
  have st: "s_IdPState s \<noteq> ''''" "query_Get r ''state'' = s_IdPState s" "query_Get r ''code'' \<noteq> ''''"
    and ex: "oidc_Exchange X p (query_Get r ''code'') \<lparr>pk_Verifier = s_IdPPKCEVerifier s, pk_Challenge = ''''\<rparr>
      (s_IdPNonce s) w = (Inr ident, w')"
    using assms by (auto simp: oidc_ops_def oidc_CompleteLogin_def Let_def split: if_splits)
  have amr: "amrSatisfies cs req \<longleftrightarrow> (\<exists>vs m. cs ''amr'' = Some (AArr vs) \<and> m \<in> set req \<and> AStr m \<in> set vs)" for cs req
    by (auto simp: amrSatisfies_def list_ex_iff amr_have_iff split: option.splits goany.splits)
  from ex show ?thesis
    by (rule oidc_Exchange_Inr) (use st amr in auto)
qed

text \<open>A concrete surrounding of the provider: a token for alice, authenticated with a hardware key.\<close>

definition demo_oidc_ext :: oidc_ext where
  "demo_oidc_ext = \<lparr>ox_NewProvider = (\<lambda>i w. (Inr ''https://idp.example'', w)),
     ox_GenerateVerifier = (\<lambda>w. (''v'', w)), ox_AuthCodeURL = (\<lambda>c st os. ''https://idp.example/authorize''),
     ox_Exchange = (\<lambda>c code os w. (Inr \<lparr>tk_id_token = AStr ''jwt''\<rparr>, w)),
     ox_Verify = (\<lambda>i c raw w. (Inr \<lparr>it_Subject = ''sub-alice'', it_Nonce = ''n'',
       it_Claims = Some [''preferred_username'' \<mapsto> AStr ''alice'', ''amr'' \<mapsto> AArr [AStr ''pwd'', AStr ''hwk'']]\<rparr>, w))\<rparr>"

definition demo_oidc_provider :: oidc_Provider where
  "demo_oidc_provider = \<lparr>op_cfg = \<lparr>oc_IssuerURL = ''https://idp.example'', oc_ClientID = ''xd'', oc_ClientSecret = ''sec'',
       oc_RedirectURL = ''https://auth.example/auth/callback'', oc_Scopes = [''openid''],
       oc_IdentityClaim = ''preferred_username'', oc_RequiredAMR = [''hwk'']\<rparr>,
     op_oauth2 = \<lparr>oa_ClientID = ''xd'', oa_ClientSecret = ''sec'', oa_RedirectURL = '''', oa_Endpoint = '''', oa_Scopes = []\<rparr>,
     op_verifier = (''https://idp.example'', ''xd'')\<rparr>"

definition demo_oidc_request :: request where
  "demo_oidc_request = \<lparr>r_Method = ''GET'', r_Path = '''', r_RemoteAddr = '''', r_TLS = None, r_Header = [],
     r_Cookies = [], r_Query = [(''state'', ''st''), (''code'', ''c'')], r_PostForm = [], r_FormErr = False,
     r_Body = '''', r_PathID = ''''\<rparr>"

theorem oidc_login_checked_witness:
  "query_Get demo_oidc_request ''state'' = ''st'' \<and>
   (\<exists>vs m. (id_Claims (the (case fst (idp_CompleteLogin (oidc_ops demo_oidc_ext demo_oidc_provider) demo_oidc_request
      (demo_stored\<lparr>s_IdPState := ''st'', s_IdPNonce := ''n''\<rparr>) demo_world) of Inr i \<Rightarrow> Some i | Inl _ \<Rightarrow> None))) ''amr''
        = Some (AArr vs) \<and> m \<in> set [''hwk''] \<and> AStr m \<in> set vs)"
proof -
  have c: "idp_CompleteLogin (oidc_ops demo_oidc_ext demo_oidc_provider) demo_oidc_request
      (demo_stored\<lparr>s_IdPState := ''st'', s_IdPNonce := ''n''\<rparr>) demo_world =
    (Inr \<lparr>id_Subject = ''sub-alice'', id_Value = ''alice'',
       id_Claims = [''preferred_username'' \<mapsto> AStr ''alice'', ''amr'' \<mapsto> AArr [AStr ''pwd'', AStr ''hwk'']]\<rparr>, demo_world)"
    by (simp add: oidc_ops_def oidc_CompleteLogin_def query_Get_def first_value_def demo_oidc_request_def
        oidc_Exchange_def demo_oidc_ext_def demo_oidc_provider_def go_string_def amrSatisfies_def claim_value_def Let_def)
  from oidc_login_checked [OF c] show ?thesis
    unfolding c by (auto simp: demo_oidc_provider_def)
qed

end
