(* ===== verification/Saml.thy ===== *)
theory Saml
  imports Broker_Sim
begin

text \<open>
  \<open>internal/saml/saml.go\<close>: the broker as a SAML service provider. The library \<open>crewjam/saml\<close> is the
  parameter \<open>saml_ext\<close>: metadata, authentication requests, redirects and the validation of responses; so
  are URL parsing, calendar arithmetic and the primitives of \<open>crypto/rsa\<close> and \<open>crypto/x509\<close>, whose keys, certificates and
  documents are opaque strings. An error is its text, without the details the source quotes into it.
\<close>

section \<open>The wrapped library\<close>

record attribute =
  at_FriendlyName :: string
  at_Name :: string
  at_Values :: "string list"

text \<open>\<open>as_Subject\<close>: no subject, a subject without name id, or the value of the name id.\<close>

record assertion =
  as_ID :: string
  as_Subject :: "string option option"
  as_AttributeStatements :: "attribute list list"

record service_provider =
  sp_EntityID :: string
  sp_Key :: string
  sp_Certificate :: string
  sp_MetadataURL :: string
  sp_AcsURL :: string
  sp_IDPMetadata :: string

text \<open>The fields of the certificate template that vary.\<close>

record cert_template =
  ct_SerialNumber :: int
  ct_CommonName :: string
  ct_NotBefore :: time
  ct_NotAfter :: time

record saml_ext =
  sx_FetchMetadata :: "string \<Rightarrow> world \<Rightarrow> (string + string) \<times> world"
  sx_ParseMetadata :: "string \<Rightarrow> string + string"
  sx_urlParses :: "string \<Rightarrow> bool"
  sx_GenerateKey :: "int \<Rightarrow> world \<Rightarrow> (string + string) \<times> world"
  sx_RandInt :: "int \<Rightarrow> world \<Rightarrow> (string + int) \<times> world"
  sx_AddDate :: "int \<Rightarrow> time \<Rightarrow> time"
  sx_CreateCertificate :: "cert_template \<Rightarrow> string \<Rightarrow> world \<Rightarrow> (string + string) \<times> world"
  sx_ParseCertificate :: "string \<Rightarrow> string + string"
  sx_Metadata :: "service_provider \<Rightarrow> string"
  sx_SSOLocation :: "service_provider \<Rightarrow> string"
  sx_MakeRequest :: "service_provider \<Rightarrow> string \<Rightarrow> world \<Rightarrow> (string + string) \<times> world"
  sx_Redirect :: "string \<Rightarrow> string \<Rightarrow> service_provider \<Rightarrow> string + string"
  sx_ParseResponse :: "service_provider \<Rightarrow> request \<Rightarrow> string list \<Rightarrow> world \<Rightarrow> (string + assertion) \<times> world"

section \<open>Configuration and construction\<close>

record saml_Config =
  sc_EntityID :: string
  sc_BaseURL :: string
  sc_ACSURL :: string
  sc_IDPMetadataURL :: string
  sc_IDPMetadataXML :: string
  sc_IdentityAttribute :: string

record saml_Provider =
  pv_sp :: service_provider
  pv_identityAttribute :: string

definition saml_metadata :: "saml_ext \<Rightarrow> saml_Config \<Rightarrow> world \<Rightarrow> (string + string) \<times> world" where
  "saml_metadata X cfg w =
     (if sc_IDPMetadataURL cfg \<noteq> ''''
      then if \<not> sx_urlParses X (sc_IDPMetadataURL cfg) then (Inl ''saml: parse IDPMetadataURL'', w)
           else (case sx_FetchMetadata X (sc_IDPMetadataURL cfg) w of
                   (Inl err, w1) \<Rightarrow> (Inl (''saml: fetch idp metadata: '' @ err), w1)
                 | (Inr md, w1) \<Rightarrow> (Inr md, w1))
      else (case sx_ParseMetadata X (sc_IDPMetadataXML cfg) of
              Inl err \<Rightarrow> (Inl (''saml: parse idp metadata: '' @ err), w)
            | Inr md \<Rightarrow> (Inr md, w)))"

definition selfSignedCert :: "saml_ext \<Rightarrow> string \<Rightarrow> world \<Rightarrow> (string + string \<times> string) \<times> world" where
  "selfSignedCert X baseURL w =
     (case sx_GenerateKey X 2048 w of
        (Inl err, w1) \<Rightarrow> (Inl err, w1)
      | (Inr key, w1) \<Rightarrow>
     (case sx_RandInt X (2 ^ 128) w1 of
        (Inl err, w2) \<Rightarrow> (Inl err, w2)
      | (Inr serial, w2) \<Rightarrow>
          let (t1, w3) = time_Now w2;
              (t2, w4) = time_Now w3;
              template = \<lparr>ct_SerialNumber = serial, ct_CommonName = baseURL,
                          ct_NotBefore = time_Add t1 (- (60 * minute)), ct_NotAfter = sx_AddDate X 10 t2\<rparr>
          in
     (case sx_CreateCertificate X template key w4 of
        (Inl err, w5) \<Rightarrow> (Inl err, w5)
      | (Inr der, w5) \<Rightarrow>
     (case sx_ParseCertificate X der of
        Inl err \<Rightarrow> (Inl err, w5)
      | Inr cert \<Rightarrow> (Inr (key, cert), w5)))))"

definition saml_New :: "saml_ext \<Rightarrow> saml_Config \<Rightarrow> world \<Rightarrow> (string + saml_Provider) \<times> world" where
  "saml_New X cfg w =
     (if sc_BaseURL cfg = '''' then (Inl ''saml: BaseURL is required'', w)
      else if (sc_IDPMetadataURL cfg = '''') = (length (sc_IDPMetadataXML cfg) = 0)
      then (Inl ''saml: exactly one of IDPMetadataURL or IDPMetadataXML is required'', w)
      else
     (case saml_metadata X cfg w of
        (Inl err, w1) \<Rightarrow> (Inl err, w1)
      | (Inr idpMetadata, w1) \<Rightarrow>
     (case selfSignedCert X (sc_BaseURL cfg) w1 of
        (Inl err, w2) \<Rightarrow> (Inl (''saml: generate sp signing cert: '' @ err), w2)
      | (Inr (key, cert), w2) \<Rightarrow>
            let entityID = (if sc_EntityID cfg = '''' then sc_BaseURL cfg else sc_EntityID cfg);
                acsURLStr = (if sc_ACSURL cfg = '''' then sc_BaseURL cfg @ ''/auth/saml/acs'' else sc_ACSURL cfg);
                metadataURL = sc_BaseURL cfg @ ''/auth/saml/metadata''
            in if \<not> sx_urlParses X acsURLStr then (Inl ''saml: parse ACS URL'', w2)
               else if \<not> sx_urlParses X metadataURL then (Inl ''saml: parse BaseURL'', w2)
               else (Inr \<lparr>pv_sp = \<lparr>sp_EntityID = entityID, sp_Key = key, sp_Certificate = cert, sp_MetadataURL = metadataURL, sp_AcsURL = acsURLStr,
                                   sp_IDPMetadata = idpMetadata\<rparr>,
                          pv_identityAttribute = sc_IdentityAttribute cfg\<rparr>, w2))))"

definition saml_Metadata :: "saml_ext \<Rightarrow> saml_Provider \<Rightarrow> string" where
  "saml_Metadata X p = sx_Metadata X (pv_sp p)"

section \<open>Reading an assertion\<close>

definition attribute_name :: "attribute \<Rightarrow> string" where
  "attribute_name a = (if at_FriendlyName a = '''' then at_Name a else at_FriendlyName a)"

text \<open>The three loops: each value is appended to the list of its attribute's name.\<close>

definition append_value :: "string \<Rightarrow> string \<Rightarrow> (string \<rightharpoonup> string list) \<Rightarrow> string \<rightharpoonup> string list" where
  "append_value name v out = out(name \<mapsto> (case out name of None \<Rightarrow> [] | Some vs \<Rightarrow> vs) @ [v])"

definition attributeClaims :: "assertion \<Rightarrow> string \<rightharpoonup> string list" where
  "attributeClaims a =
     fold (\<lambda>stmt. fold (\<lambda>attr. fold (append_value (attribute_name attr)) (at_Values attr)) stmt)
       (as_AttributeStatements a) Map.empty"

definition generic_claim :: "string list \<Rightarrow> goany" where
  "generic_claim vs = (case vs of [v] \<Rightarrow> AStr v | _ \<Rightarrow> AStrs vs)"

definition saml_subject :: "assertion \<Rightarrow> string" where
  "saml_subject a = (case as_Subject a of Some (Some nameID) \<Rightarrow> nameID | _ \<Rightarrow> as_ID a)"

definition identityFromAssertion :: "assertion \<Rightarrow> string \<Rightarrow> string + identity" where
  "identityFromAssertion a identityAttribute =
     (let cs = attributeClaims a;
          result = (\<lambda>value. Inr \<lparr>id_Subject = saml_subject a, id_Value = value,
                                 id_Claims = (\<lambda>k. map_option generic_claim (cs k))\<rparr>)
      in if identityAttribute = '''' then
           (case as_Subject a of
              Some (Some nameID) \<Rightarrow> result nameID
            | _ \<Rightarrow> Inl ''saml: assertion has no NameID'')
         else
           (case cs identityAttribute of
              None \<Rightarrow> Inl ''saml: attribute missing or empty''
            | Some vs \<Rightarrow>
                (case vs of
                   [] \<Rightarrow> Inl ''saml: attribute missing or empty''
                 | v # rest \<Rightarrow>
                     if v = '''' then Inl ''saml: attribute missing or empty'' else result v)))"

section \<open>The identity-provider operations\<close>

definition saml_BeginLogin ::
  "saml_ext \<Rightarrow> saml_Provider \<Rightarrow> session \<Rightarrow> world \<Rightarrow> (string + string) \<times> session \<times> world" where
  "saml_BeginLogin X p s w =
     (let idpSSOURL = sx_SSOLocation X (pv_sp p) in
      if idpSSOURL = '''' then (Inl ''saml: idp metadata has no HTTP-Redirect SSO binding'', s, w)
      else
     (case sx_MakeRequest X (pv_sp p) idpSSOURL w of
        (Inl err, w1) \<Rightarrow> (Inl (''saml: make authentication request: '' @ err), s, w1)
      | (Inr reqID, w1) \<Rightarrow>
          let s1 = s\<lparr>s_SAMLRequestID := reqID, s_Protocol := ''saml''\<rparr> in
          (case sx_Redirect X reqID (s_ID s1) (pv_sp p) of
             Inl err \<Rightarrow> (Inl (''saml: build redirect: '' @ err), s1, w1)
           | Inr url \<Rightarrow> (Inr url, s1, w1))))"

definition saml_CompleteLogin ::
  "saml_ext \<Rightarrow> saml_Provider \<Rightarrow> request \<Rightarrow> session \<Rightarrow> world \<Rightarrow> (string + identity) \<times> world" where
  "saml_CompleteLogin X p r s w =
     (if r_FormErr r then (Inl ''saml: parse form'', w)
      else
        let relayState = r_PostFormValue r ''RelayState'' in
        if relayState = '''' \<or> relayState \<noteq> s_ID s then (Inl ''saml: RelayState mismatch'', w)
        else
     (case sx_ParseResponse X (pv_sp p) r [s_SAMLRequestID s] w of
        (Inl err, w1) \<Rightarrow> (Inl (''saml: parse response: '' @ err), w1)
      | (Inr a, w1) \<Rightarrow> (identityFromAssertion a (pv_identityAttribute p), w1)))"

definition saml_ops :: "saml_ext \<Rightarrow> saml_Provider \<Rightarrow> idp_ops" where
  "saml_ops X p = \<lparr>idp_BeginLogin = saml_BeginLogin X p, idp_CompleteLogin = saml_CompleteLogin X p\<rparr>"

section \<open>Lemmas\<close>

interpretation saml: identity_provider "saml_ops X p" for X p
proof
  fix s w res s' w'
  assume "idp_BeginLogin (saml_ops X p) s w = (res, s', w')"
  then have "s' = begin_fields (s_Protocol s') (s_IdPState s) (s_IdPNonce s) (s_IdPPKCEVerifier s) (s_SAMLRequestID s') s"
    by (auto simp: saml_ops_def saml_BeginLogin_def begin_fields_def Let_def split: prod.splits sum.splits if_splits)
  then show "\<exists>pr st no ve rq. s' = begin_fields pr st no ve rq s" by blast
qed

text \<open>The values of all attributes with a name, in document order: the specification of the loops.\<close>

definition values_named :: "attribute list \<Rightarrow> string \<Rightarrow> string list" where
  "values_named attrs name = concat (map at_Values (filter (\<lambda>a. attribute_name a = name) attrs))"

definition as_claims :: "(string \<Rightarrow> string list) \<Rightarrow> string \<rightharpoonup> string list" where
  "as_claims f = (\<lambda>name. if f name = [] then None else Some (f name))"

lemma fold_append_value:
  "fold (append_value n) vs (as_claims f) = as_claims (\<lambda>name. f name @ (if name = n then vs else []))"
proof (induction vs arbitrary: f)
  case Nil
  then show ?case by (simp add: as_claims_def)
next
  case (Cons v vs)
  have "append_value n v (as_claims f) = as_claims (\<lambda>name. f name @ (if name = n then [v] else []))"
    by (auto simp: append_value_def as_claims_def)
  then show ?case by (simp add: Cons.IH if_distrib cong: if_cong)
qed

lemma fold_attributes:
  "fold (\<lambda>attr. fold (append_value (attribute_name attr)) (at_Values attr)) attrs (as_claims f) =
     as_claims (\<lambda>name. f name @ values_named attrs name)"
proof (induction attrs arbitrary: f)
  case Nil
  then show ?case by (simp add: values_named_def)
next
  case (Cons a attrs)
  have "(\<lambda>name. (f name @ (if name = attribute_name a then at_Values a else [])) @ values_named attrs name) =
      (\<lambda>name. f name @ values_named (a # attrs) name)"
    by (auto simp: values_named_def)
  then show ?case by (simp add: fold_append_value Cons.IH)
qed

lemma fold_statements:
  "fold (\<lambda>stmt. fold (\<lambda>attr. fold (append_value (attribute_name attr)) (at_Values attr)) stmt) stmts (as_claims f) =
     as_claims (\<lambda>name. f name @ values_named (concat stmts) name)"
  by (induction stmts arbitrary: f) (simp_all add: fold_attributes values_named_def)

lemma attributeClaims_eq: "attributeClaims a = as_claims (values_named (concat (as_AttributeStatements a)))"
  using fold_statements [of "as_AttributeStatements a" "\<lambda>_. []"]
  by (simp add: attributeClaims_def as_claims_def [of "\<lambda>_. []"])

section \<open>Properties\<close>

text \<open>C23: What a completed SAML login has checked. The form's relay state is the session's own id; the
  response was validated by the library against exactly the request id stored in the session; and the
  identity is the name id or, where an attribute is configured, the first value, which is not empty, of
  the attributes with that name in document order.\<close>

theorem saml_login_checked:
  assumes "idp_CompleteLogin (saml_ops X p) r s w = (Inr ident, w')"
  shows "s_ID s \<noteq> '''' \<and> r_PostFormValue r ''RelayState'' = s_ID s \<and>
    (\<exists>a. sx_ParseResponse X (pv_sp p) r [s_SAMLRequestID s] w = (Inr a, w') \<and>
       id_Subject ident = (case as_Subject a of Some (Some nameID) \<Rightarrow> nameID | _ \<Rightarrow> as_ID a) \<and>
       (if pv_identityAttribute p = '''' then as_Subject a = Some (Some (id_Value ident))
        else id_Value ident \<noteq> '''' \<and>
          (\<exists>rest. values_named (concat (as_AttributeStatements a)) (pv_identityAttribute p) = id_Value ident # rest)))"
proof -
  obtain a where st: "s_ID s \<noteq> ''''" "r_PostFormValue r ''RelayState'' = s_ID s"
    "sx_ParseResponse X (pv_sp p) r [s_SAMLRequestID s] w = (Inr a, w')"
    and ex: "identityFromAssertion a (pv_identityAttribute p) = Inr ident"
    using assms
    by (auto simp: saml_ops_def saml_CompleteLogin_def Let_def split: if_splits prod.splits sum.splits)
  have "id_Subject ident = (case as_Subject a of Some (Some nameID) \<Rightarrow> nameID | _ \<Rightarrow> as_ID a)"
    using ex by (auto simp: identityFromAssertion_def saml_subject_def Let_def
        split: if_splits option.splits list.splits)
  moreover have "if pv_identityAttribute p = '''' then as_Subject a = Some (Some (id_Value ident))
        else id_Value ident \<noteq> '''' \<and>
          (\<exists>rest. values_named (concat (as_AttributeStatements a)) (pv_identityAttribute p) = id_Value ident # rest)"
    using ex by (auto simp: identityFromAssertion_def attributeClaims_eq as_claims_def Let_def
        split: if_splits option.splits list.splits)
  ultimately show ?thesis using st by blast
qed

definition demo_assertion :: assertion where
  "demo_assertion = \<lparr>as_ID = ''a1'', as_Subject = Some (Some ''alice@idp''),
     as_AttributeStatements = [[\<lparr>at_FriendlyName = ''uid'', at_Name = ''urn:oid:0.9'', at_Values = [''alice'']\<rparr>,
       \<lparr>at_FriendlyName = '''', at_Name = ''groups'', at_Values = [''g1'', ''g2'']\<rparr>]]\<rparr>"

definition demo_saml_ext :: saml_ext where
  "demo_saml_ext = \<lparr>sx_FetchMetadata = (\<lambda>u w. (Inr ''md'', w)), sx_ParseMetadata = (\<lambda>x. Inr ''md''),
     sx_urlParses = (\<lambda>u. True), sx_GenerateKey = (\<lambda>bits w. (Inr ''key'', w)),
     sx_RandInt = (\<lambda>n w. (Inr 1, w)), sx_AddDate = (\<lambda>years t. t + years), sx_CreateCertificate = (\<lambda>tm k w. (Inr ''der'', w)),
     sx_ParseCertificate = (\<lambda>der. Inr ''cert''), sx_Metadata = (\<lambda>sp. ''md''), sx_SSOLocation = (\<lambda>sp. ''https://idp.example/sso''),
     sx_MakeRequest = (\<lambda>sp u w. (Inr ''id-1'', w)), sx_Redirect = (\<lambda>rq rs sp. Inr ''https://idp.example/sso''),
     sx_ParseResponse = (\<lambda>sp r ids w. (if ids = [''id-1''] then Inr demo_assertion else Inl ''InResponseTo'', w))\<rparr>"

definition demo_saml_provider :: saml_Provider where
  "demo_saml_provider = \<lparr>pv_sp = \<lparr>sp_EntityID = ''e'', sp_Key = ''key'', sp_Certificate = ''cert'', sp_MetadataURL = ''m'', sp_AcsURL = ''a'', sp_IDPMetadata = ''md''\<rparr>,
     pv_identityAttribute = ''uid''\<rparr>"

definition demo_saml_request :: request where
  "demo_saml_request = \<lparr>r_Method = ''POST'', r_Path = '''', r_RemoteAddr = '''', r_TLS = None, r_Header = [],
     r_Cookies = [], r_Query = [], r_PostForm = [(''RelayState'', ''s1'')], r_FormErr = False, r_Body = '''',
     r_PathID = ''''\<rparr>"

theorem saml_login_checked_witness:
  "fst (idp_CompleteLogin (saml_ops demo_saml_ext demo_saml_provider) demo_saml_request
     (demo_stored\<lparr>s_SAMLRequestID := ''id-1''\<rparr>) demo_world) =
     Inr \<lparr>id_Subject = ''alice@idp'', id_Value = ''alice'',
       id_Claims = (\<lambda>k. map_option generic_claim (attributeClaims demo_assertion k))\<rparr> \<and>
   r_PostFormValue demo_saml_request ''RelayState'' = ''s1''"
proof -
  have c: "idp_CompleteLogin (saml_ops demo_saml_ext demo_saml_provider) demo_saml_request
      (demo_stored\<lparr>s_SAMLRequestID := ''id-1''\<rparr>) demo_world =
    (Inr \<lparr>id_Subject = ''alice@idp'', id_Value = ''alice'',
       id_Claims = (\<lambda>k. map_option generic_claim (attributeClaims demo_assertion k))\<rparr>, demo_world)"
    by (simp add: saml_ops_def saml_CompleteLogin_def r_PostFormValue_def first_value_def demo_saml_request_def
        demo_stored_def demo_saml_ext_def demo_saml_provider_def identityFromAssertion_def demo_assertion_def
        attributeClaims_eq as_claims_def values_named_def attribute_name_def saml_subject_def)
  from saml_login_checked [OF c] c show ?thesis by (simp add: demo_stored_def)
qed

text \<open>Claims are complete. A claim of the SAML identity is there exactly when some attribute with that
  name has a value, and holds all their values in document order, a single one as a string.\<close>

theorem saml_claims_complete:
  assumes "identityFromAssertion a ia = Inr ident"
    and "vs = concat (map at_Values (filter (\<lambda>b. attribute_name b = k) (concat (as_AttributeStatements a))))"
  shows "id_Claims ident k =
    (case vs of [] \<Rightarrow> None | [v] \<Rightarrow> Some (AStr v) | _ \<Rightarrow> Some (AStrs vs))"
proof -
  have "id_Claims ident k = map_option generic_claim (attributeClaims a k)"
    using assms(1) by (auto simp: identityFromAssertion_def Let_def split: if_splits option.splits list.splits)
  moreover have "attributeClaims a k = (if vs = [] then None else Some vs)"
    unfolding attributeClaims_eq as_claims_def values_named_def assms(2) by (rule refl)
  ultimately show ?thesis by (simp add: generic_claim_def split: list.splits)
qed

theorem saml_claims_complete_witness:
  "id_Claims \<lparr>id_Subject = ''alice@idp'', id_Value = ''alice'',
     id_Claims = (\<lambda>k. map_option generic_claim (attributeClaims demo_assertion k))\<rparr> ''groups'' =
   Some (AStrs [''g1'', ''g2''])"
  by (subst saml_claims_complete [OF _ refl, where a = demo_assertion and ia = "''uid''"])
    (simp_all add: identityFromAssertion_def attributeClaims_eq as_claims_def values_named_def attribute_name_def
      demo_assertion_def saml_subject_def)

text \<open>An empty name id passes. Where no attribute is configured, an assertion whose name id is empty is
  accepted with the empty identity, although the attribute branch and the OpenID Connect provider refuse an
  empty identity.\<close>

theorem saml_empty_name_id_accepted:
  "\<exists>ident. identityFromAssertion (demo_assertion\<lparr>as_Subject := Some (Some '''')\<rparr>) '''' = Inr ident \<and>
     id_Value ident = ''''"
  by (simp add: identityFromAssertion_def Let_def)

end
