(* ===== verification/BrokerCmd.thy ===== *)
theory BrokerCmd
  imports Cluster Oidc Saml "HOL-Library.AList"
begin

text \<open>
  \<open>cmd/xdauth-broker/main.go\<close>: how a broker is put together from its flags and environment. The environment, the
  files and the libraries behind the identity providers and the Redis client are arguments. \<open>run\<close> ends with an exit
  code or goes on to serve; the parts it serves with are its result.
\<close>

section \<open>Flags and environment\<close>

definition envOr :: "(string \<Rightarrow> string) \<Rightarrow> string \<Rightarrow> string \<Rightarrow> string" where
  "envOr getenv key def = (let v = getenv key in if v \<noteq> '''' then v else def)"

definition splitNonEmpty :: "string \<Rightarrow> string list" where
  "splitNonEmpty raw = (if raw = '''' then [] else strings_Split (CHR '','') raw)"

text \<open>\<open>strconv.Atoi\<close>: an optional sign, decimal digits, within 64 bits.\<close>

definition strconv_Atoi :: "string \<Rightarrow> int option" where
  "strconv_Atoi s =
     (let (neg, ds) = (case s of
            c # r \<Rightarrow> if c = CHR ''-'' then (True, r) else if c = CHR ''+'' then (False, r) else (False, s)
          | [] \<Rightarrow> (False, s))
      in case parse_digits ds of
           None \<Rightarrow> None
         | Some n \<Rightarrow> let v = (if neg then - n else n) in
             if minInt64 \<le> v \<and> v \<le> maxInt64 then Some v else None)"

definition envIntOr :: "(string \<Rightarrow> string) \<Rightarrow> string \<Rightarrow> int \<Rightarrow> int" where
  "envIntOr getenv key def =
     (let v = getenv key in
      if v \<noteq> '''' then (case strconv_Atoi v of Some n \<Rightarrow> n | None \<Rightarrow> def) else def)"

record broker_flags =
  bf_listen :: string
  bf_baseURL :: string
  bf_protocol :: string
  bf_sessionTTL :: int
  bf_pollInterval :: int
  bf_artifactTTL :: int
  bf_abuseWebhookURL :: string
  bf_clientAuthTokens :: string
  bf_trustedProxies :: string
  bf_allowedClientCIDRs :: string
  bf_redisAddr :: string

text \<open>The values of the flags that are not given on the command line.\<close>

definition flag_defaults :: "(string \<Rightarrow> string) \<Rightarrow> broker_flags" where
  "flag_defaults getenv =
     \<lparr>bf_listen = envOr getenv ''XDAUTH_LISTEN_ADDR'' '':8080'',
      bf_baseURL = getenv ''XDAUTH_BASE_URL'',
      bf_protocol = envOr getenv ''XDAUTH_PROTOCOL'' ''oidc'',
      bf_sessionTTL = envIntOr getenv ''XDAUTH_SESSION_TTL_SECONDS'' 300,
      bf_pollInterval = envIntOr getenv ''XDAUTH_POLL_INTERVAL_SECONDS'' 3,
      bf_artifactTTL = envIntOr getenv ''XDAUTH_ARTIFACT_TTL_SECONDS'' 120,
      bf_abuseWebhookURL = getenv ''XDAUTH_ABUSE_WEBHOOK_URL'',
      bf_clientAuthTokens = getenv ''XDAUTH_CLIENT_AUTH_TOKENS'',
      bf_trustedProxies = getenv ''XDAUTH_TRUSTED_PROXIES'',
      bf_allowedClientCIDRs = getenv ''XDAUTH_ALLOWED_CLIENT_CIDRS'',
      bf_redisAddr = getenv ''XDAUTH_REDIS_ADDR''\<rparr>"

section \<open>Lists in flags\<close>

definition quoted :: "string \<Rightarrow> string" where
  "quoted s = [CHR 0x22] @ s @ [CHR 0x22]"

fun token_pairs :: "string list \<Rightarrow> (string \<times> string) list \<Rightarrow> string + (string \<times> string) list" where
  "token_pairs [] tokens = Inr tokens"
| "token_pairs (pair # pairs) tokens =
     (let parts = strings_SplitN2 (CHR ''='') pair in
      if length parts \<noteq> 2 \<or> parts ! 0 = '''' \<or> parts ! 1 = ''''
      then Inl (''invalid XDAUTH_CLIENT_AUTH_TOKENS entry '' @ quoted pair)
      else token_pairs pairs (AList.update (parts ! 0) (parts ! 1) tokens))"

definition parseClientAuthTokens :: "string \<Rightarrow> string + StaticTokenClientAuth option" where
  "parseClientAuthTokens raw =
     (if raw = '''' then Inr None
      else (case token_pairs (strings_Split (CHR '','') raw) [] of
              Inl err \<Rightarrow> Inl err
            | Inr tokens \<Rightarrow> Inr (Some \<lparr>sa_Tokens = tokens\<rparr>)))"

fun cidr_parts :: "string list \<Rightarrow> netip_prefix list \<Rightarrow> string + netip_prefix list" where
  "cidr_parts [] out = Inr out"
| "cidr_parts (part # parts) out =
     (case netip_ParsePrefix (strings_TrimSpace part) of
        None \<Rightarrow> Inl (''invalid CIDR '' @ quoted part)
      | Some p \<Rightarrow> cidr_parts parts (out @ [p]))"

definition parseCIDRList :: "string \<Rightarrow> string + netip_prefix list" where
  "parseCIDRList raw =
     (if raw = '''' then Inr [] else cidr_parts (strings_Split (CHR '','') raw) [])"

section \<open>The session store\<close>

text \<open>The in-memory store with the period of its sweeper, or a Redis store.\<close>

datatype ('r, 'raw) session_store_impl = MemoryStore duration memory | RedisStore "('r, 'raw) redis"

definition newSessionStore ::
  "(string \<Rightarrow> string) \<Rightarrow> (string \<Rightarrow> string \<Rightarrow> ('r, 'raw) redis_ops) \<Rightarrow> string \<Rightarrow> ('r, 'raw) session_store_impl" where
  "newSessionStore getenv newClient redisAddr =
     (if redisAddr = '''' then MemoryStore (30 * second) NewMemory
      else RedisStore (NewRedis (newClient redisAddr (getenv ''XDAUTH_REDIS_PASSWORD'')) ''''))"

section \<open>Identity providers\<close>

text \<open>
  \<open>time.After(d)\<close> lets at least \<open>d\<close> pass: every later reading of the clock is \<open>d\<close> later than it would have been.
  \<open>ctxDone i\<close> says that the i-th wait ends because the context is done.
\<close>

definition sleep :: "duration \<Rightarrow> world \<Rightarrow> world" where
  "sleep d w = w\<lparr>w_clock := (\<lambda>t. w_clock w t + d)\<rparr>"

fun retry_loop ::
  "nat \<Rightarrow> (world \<Rightarrow> (string + 'v) \<times> world) \<Rightarrow> (nat \<Rightarrow> bool) \<Rightarrow> time \<Rightarrow> nat \<Rightarrow> duration \<Rightarrow> world
     \<Rightarrow> ((string + 'v) \<times> world) option" where
  "retry_loop 0 fn ctxDone deadline i backoff w = None"
| "retry_loop (Suc fuel) fn ctxDone deadline i backoff w =
     (case fn w of
        (Inr v, w1) \<Rightarrow> Some (Inr v, w1)
      | (Inl err, w1) \<Rightarrow>
          let (now, w2) = time_Now w1 in
          if time_After now deadline then Some (Inl err, w2)
          else if ctxDone i then Some (Inl ''context done'', w2)
          else
            let w3 = sleep backoff w2;
                backoff' = (if backoff < 5 * second then wrap64 (backoff * 2) else backoff)
            in retry_loop fuel fn ctxDone deadline (Suc i) backoff' w3)"

definition retryDiscovery ::
  "nat \<Rightarrow> (nat \<Rightarrow> bool) \<Rightarrow> (world \<Rightarrow> (string + 'v) \<times> world) \<Rightarrow> world \<Rightarrow> ((string + 'v) \<times> world) option" where
  "retryDiscovery fuel ctxDone fn w =
     (let backoff = second div 2;
          (now, w1) = time_Now w;
          deadline = time_Add now (30 * second)
      in retry_loop fuel fn ctxDone deadline 0 backoff w1)"

definition oidc_config :: "(string \<Rightarrow> string) \<Rightarrow> string \<Rightarrow> string \<Rightarrow> oidc_Config" where
  "oidc_config getenv clientSecret baseURL =
     \<lparr>oc_IssuerURL = getenv ''XDAUTH_ISSUER_URL'', oc_ClientID = getenv ''XDAUTH_CLIENT_ID'',
      oc_ClientSecret = clientSecret, oc_RedirectURL = baseURL @ ''/auth/callback'',
      oc_Scopes = strings_Split (CHR '','') (envOr getenv ''XDAUTH_SCOPES'' ''openid,profile''),
      oc_IdentityClaim = envOr getenv ''XDAUTH_IDENTITY_CLAIM'' ''preferred_username'',
      oc_RequiredAMR = splitNonEmpty (getenv ''XDAUTH_REQUIRE_AMR'')\<rparr>"

text \<open>\<open>Inl\<close> is the exit code.\<close>

definition newOIDCProvider ::
  "nat \<Rightarrow> (nat \<Rightarrow> bool) \<Rightarrow> oidc_ext \<Rightarrow> (string \<Rightarrow> string) \<Rightarrow> (string \<Rightarrow> string + string) \<Rightarrow> string \<Rightarrow> world
     \<Rightarrow> ((int + oidc_Provider) \<times> world) option" where
  "newOIDCProvider fuel ctxDone X getenv readFile baseURL w =
     (let path = getenv ''XDAUTH_CLIENT_SECRET_FILE'' in
      case (if path \<noteq> ''''
            then (case readFile path of Inl _ \<Rightarrow> None | Inr b \<Rightarrow> Some (strings_TrimSpace b))
            else Some (getenv ''XDAUTH_CLIENT_SECRET'')) of
        None \<Rightarrow> Some (Inl 1, w)
      | Some clientSecret \<Rightarrow>
          if getenv ''XDAUTH_ISSUER_URL'' = '''' \<or> getenv ''XDAUTH_CLIENT_ID'' = '''' \<or> clientSecret = ''''
          then Some (Inl 2, w)
          else
            (case retryDiscovery fuel ctxDone (oidc_New X (oidc_config getenv clientSecret baseURL)) w of
               None \<Rightarrow> None
             | Some (Inl _, w1) \<Rightarrow> Some (Inl 1, w1)
             | Some (Inr p, w1) \<Rightarrow> Some (Inr p, w1)))"

definition newSAMLProvider ::
  "nat \<Rightarrow> (nat \<Rightarrow> bool) \<Rightarrow> saml_ext \<Rightarrow> (string \<Rightarrow> string) \<Rightarrow> (string \<Rightarrow> string + string) \<Rightarrow> string \<Rightarrow> world
     \<Rightarrow> ((int + saml_Provider) \<times> world) option" where
  "newSAMLProvider fuel ctxDone X getenv readFile baseURL w =
     (let metadataURL = getenv ''XDAUTH_SAML_IDP_METADATA_URL'';
          metadataFile = getenv ''XDAUTH_SAML_IDP_METADATA_FILE'' in
      if (metadataURL = '''') = (metadataFile = '''') then Some (Inl 2, w)
      else
        (case (if metadataFile \<noteq> ''''
               then (case readFile metadataFile of Inl _ \<Rightarrow> None | Inr b \<Rightarrow> Some b) else Some '''') of
           None \<Rightarrow> Some (Inl 1, w)
         | Some metadataXML \<Rightarrow>
             (case retryDiscovery fuel ctxDone (saml_New X
                \<lparr>sc_EntityID = getenv ''XDAUTH_SAML_ENTITY_ID'', sc_BaseURL = baseURL,
                 sc_ACSURL = getenv ''XDAUTH_SAML_ACS_URL'', sc_IDPMetadataURL = metadataURL,
                 sc_IDPMetadataXML = metadataXML,
                 sc_IdentityAttribute = getenv ''XDAUTH_SAML_IDENTITY_ATTRIBUTE''\<rparr>) w of
                None \<Rightarrow> None
              | Some (Inl _, w1) \<Rightarrow> Some (Inl 1, w1)
              | Some (Inr p, w1) \<Rightarrow> Some (Inr p, w1))))"

section \<open>run\<close>

text \<open>What the process goes on to serve with: the address, the broker's configuration, its store and its provider.\<close>

record ('r, 'raw) serving =
  sv_addr :: string
  sv_cfg :: config
  sv_store :: "('r, 'raw) session_store_impl"
  sv_idp :: idp_ops

datatype ('r, 'raw) run_outcome = ExitCode int | Serving "('r, 'raw) serving"

definition select_provider ::
  "nat \<Rightarrow> (nat \<Rightarrow> bool) \<Rightarrow> oidc_ext \<Rightarrow> saml_ext \<Rightarrow> (string \<Rightarrow> string) \<Rightarrow> (string \<Rightarrow> string + string) \<Rightarrow> string \<Rightarrow> string
     \<Rightarrow> world \<Rightarrow> ((int + idp_ops) \<times> world) option" where
  "select_provider fuel ctxDone OX SX getenv readFile protocol baseURL w =
     (if protocol = ''oidc'' then
        (case newOIDCProvider fuel ctxDone OX getenv readFile baseURL w of
           None \<Rightarrow> None
         | Some (Inl code, w1) \<Rightarrow> Some (Inl code, w1)
         | Some (Inr p, w1) \<Rightarrow> Some (Inr (oidc_ops OX p), w1))
      else if protocol = ''saml'' then
        (case newSAMLProvider fuel ctxDone SX getenv readFile baseURL w of
           None \<Rightarrow> None
         | Some (Inl code, w1) \<Rightarrow> Some (Inl code, w1)
         | Some (Inr p, w1) \<Rightarrow> Some (Inr (saml_ops SX p), w1))
      else Some (Inl 2, w))"

definition broker_config :: "broker_flags \<Rightarrow> StaticTokenClientAuth option \<Rightarrow> netip_prefix list \<Rightarrow> netip_prefix list \<Rightarrow> config" where
  "broker_config fl clientAuth trusted allowedNets =
     \<lparr>cfg_BaseURL = strings_TrimRight (CHR ''/'') (bf_baseURL fl),
      cfg_SessionTTL = wrap64 (bf_sessionTTL fl * second),
      cfg_PollInterval = wrap64 (bf_pollInterval fl * second),
      cfg_StartRatePerSec = 0, cfg_StartRateBurst = 0,
      cfg_ArtifactTTL = wrap64 (bf_artifactTTL fl * second),
      cfg_IdentityNormalizer = None,
      cfg_AbuseWebhookURL = bf_abuseWebhookURL fl,
      cfg_ClientAuthenticator = map_option static_Authenticate clientAuth,
      cfg_TrustedProxies = trusted,
      cfg_AllowedClientCIDRs = allowedNets\<rparr>"

definition broker_run ::
  "nat \<Rightarrow> (nat \<Rightarrow> bool) \<Rightarrow> oidc_ext \<Rightarrow> saml_ext \<Rightarrow> (string \<Rightarrow> string \<Rightarrow> ('r, 'raw) redis_ops) \<Rightarrow> (string \<Rightarrow> string)
     \<Rightarrow> (string \<Rightarrow> string + string) \<Rightarrow> broker_flags \<Rightarrow> world \<Rightarrow> (('r, 'raw) run_outcome \<times> world) option" where
  "broker_run fuel ctxDone OX SX newClient getenv readFile fl w =
     (if bf_baseURL fl = '''' then Some (ExitCode 2, w)
      else
     (case select_provider fuel ctxDone OX SX getenv readFile (bf_protocol fl)
             (strings_TrimRight (CHR ''/'') (bf_baseURL fl)) w of
        None \<Rightarrow> None
      | Some (Inl code, w1) \<Rightarrow> Some (ExitCode code, w1)
      | Some (Inr idp, w1) \<Rightarrow>
     (case parseClientAuthTokens (bf_clientAuthTokens fl) of
        Inl err \<Rightarrow> Some (ExitCode 2, w1)
      | Inr clientAuth \<Rightarrow>
     (case parseCIDRList (bf_trustedProxies fl) of
        Inl err \<Rightarrow> Some (ExitCode 2, w1)
      | Inr trusted \<Rightarrow>
     (case parseCIDRList (bf_allowedClientCIDRs fl) of
        Inl err \<Rightarrow> Some (ExitCode 2, w1)
      | Inr allowedNets \<Rightarrow>
          Some (Serving \<lparr>sv_addr = bf_listen fl, sv_cfg = broker_config fl clientAuth trusted allowedNets,
                         sv_store = newSessionStore getenv newClient (bf_redisAddr fl), sv_idp = idp\<rparr>, w1))))))"

text \<open>The exit code once the server has ended: with an error, or closed.\<close>

datatype serve_error = ErrServerClosed | ServeErr string

definition serve_exit :: "serve_error option \<Rightarrow> int" where
  "serve_exit err = (if err \<noteq> None \<and> err \<noteq> Some ErrServerClosed then 1 else 0)"

section \<open>Lemmas\<close>

text \<open>The entries of a token list: a key without \<open>=\<close> and a value, both not empty.\<close>

definition token_entry :: "string \<Rightarrow> string \<Rightarrow> string \<Rightarrow> bool" where
  "token_entry entry key val \<longleftrightarrow>
     entry = key @ CHR ''='' # val \<and> CHR ''='' \<notin> set key \<and> key \<noteq> '''' \<and> val \<noteq> ''''"

lemma SplitN2_entry:
  "length (strings_SplitN2 (CHR ''='') entry) = 2 \<and> strings_SplitN2 (CHR ''='') entry ! 0 = key \<and>
     strings_SplitN2 (CHR ''='') entry ! 1 = val \<and> key \<noteq> '''' \<and> val \<noteq> '''' \<longleftrightarrow> token_entry entry key val"
proof (cases "CHR ''='' \<in> set entry")
  case True
  then obtain ys zs where e: "entry = ys @ CHR ''='' # zs" "CHR ''='' \<notin> set ys" using split_list_first by fastforce
  have cut: "takeWhile (\<lambda>x. x \<noteq> CHR ''='') (a @ CHR ''='' # b) = a \<and> dropWhile (\<lambda>x. x \<noteq> CHR ''='') (a @ CHR ''='' # b) = CHR ''='' # b"
    if "CHR ''='' \<notin> set a" for a b using that by (induction a) auto
  have "entry = key @ CHR ''='' # val \<and> CHR ''='' \<notin> set key \<longleftrightarrow> key = ys \<and> val = zs"
    using e cut [of ys zs] cut [of key val] by fastforce
  moreover have "takeWhile (\<lambda>x. x \<noteq> CHR ''='') entry = ys" "dropWhile (\<lambda>x. x \<noteq> CHR ''='') entry = CHR ''='' # zs"
    using e cut [of ys zs] by auto
  ultimately show ?thesis using True by (auto simp: strings_SplitN2_def token_entry_def)
next
  case False
  then show ?thesis by (auto simp: strings_SplitN2_def token_entry_def)
qed

lemma token_entry_unique: "token_entry e k v \<Longrightarrow> token_entry e k' v' \<Longrightarrow> k = k' \<and> v = v'"
  using SplitN2_entry by metis

lemma token_pairs_Cons:
  "token_entry e k v \<Longrightarrow> token_pairs (e # es) tokens = token_pairs es (AList.update k v tokens)"
  using SplitN2_entry [of e k v] by (auto simp: Let_def)

lemma token_pairs_bad: "\<nexists>k v. token_entry e k v \<Longrightarrow> \<exists>err. token_pairs (e # es) tokens = Inl err"
  using SplitN2_entry [of e] by (auto simp: Let_def)

lemma token_pairs_ok:
  "token_pairs es tokens = Inr out \<longleftrightarrow>
     (\<exists>ps. list_all2 (\<lambda>e (k, v). token_entry e k v) es ps \<and> out = AList.updates (map fst ps) (map snd ps) tokens)"
proof (induction es arbitrary: tokens)
  case (Cons e es)
  show ?case
  proof (cases "\<exists>k v. token_entry e k v")
    case True
    then obtain k v where kv: "token_entry e k v" by blast
    then have "token_entry e k' v' \<longleftrightarrow> k' = k \<and> v' = v" for k' v' using token_entry_unique by blast
    then show ?thesis
      by (auto simp: token_pairs_Cons [OF kv] Cons.IH list_all2_Cons1 simp del: token_pairs.simps(2)
          intro: exI [of _ "(k, v) # ps" for ps])
  next
    case False
    then obtain err where "token_pairs (e # es) tokens = Inl err" using token_pairs_bad by blast
    then show ?thesis using False by (auto simp: list_all2_Cons1)
  qed
qed auto

lemma cidr_parts_ok:
  "cidr_parts ps out = Inr nets \<longleftrightarrow>
     (\<exists>new. list_all2 (\<lambda>part p. netip_ParsePrefix (strings_TrimSpace part) = Some p) ps new \<and> nets = out @ new)"
  by (induction ps arbitrary: out) (auto simp: list_all2_Cons1 split: option.splits)

lemma updates_map_of:
  "map_of (AList.updates (map fst ps) (map snd ps) al) = map_of al ++ map_of (rev ps)"
  by (induction ps arbitrary: al) (auto simp: update_conv' map_add_def fun_eq_iff split: option.splits)

text \<open>A static authenticator looks its token up.\<close>

lemma static_Authenticate_map:
  "static_Authenticate a r = Some cid \<longleftrightarrow>
     (\<exists>token. header_Get r ''Authorization'' = ''Bearer '' @ token \<and> map_of (sa_Tokens a) token = Some cid)"
  unfolding static_Authenticate_def Let_def token_loop_map_of
  by (metis HasPrefix_iff TrimPrefix_append option.distinct(1))

lemma parseClientAuthTokens_ok:
  assumes "raw \<noteq> ''''"
  shows "parseClientAuthTokens raw = Inr a \<longleftrightarrow>
    (\<exists>ps. list_all2 (\<lambda>e (k, v). token_entry e k v) (strings_Split (CHR '','') raw) ps \<and>
      a = Some \<lparr>sa_Tokens = AList.updates (map fst ps) (map snd ps) []\<rparr>)"
  using assms token_pairs_ok [of "strings_Split (CHR '','') raw" "[]"]
  by (cases "token_pairs (strings_Split (CHR '','') raw) []") (auto simp: parseClientAuthTokens_def)

text \<open>The provider of a broker that serves keeps the contract of the interface, whichever protocol it speaks.\<close>

lemma serving_provider:
  assumes "broker_run fuel ctxDone OX SX newClient getenv readFile fl w = Some (Serving sv, w')"
  shows "identity_provider (sv_idp sv)"
proof -
  obtain w1 where "select_provider fuel ctxDone OX SX getenv readFile (bf_protocol fl)
      (strings_TrimRight (CHR ''/'') (bf_baseURL fl)) w = Some (Inr (sv_idp sv), w1)"
    using assms by (auto simp: broker_run_def split: if_splits option.splits sum.splits prod.splits)
  then show ?thesis
    using oidc.identity_provider_axioms saml.identity_provider_axioms
    by (auto simp: select_provider_def split: if_splits option.splits sum.splits prod.splits
        dest!: sym [of _ "sv_idp sv"])
qed

lemma serving_parts:
  assumes "broker_run fuel ctxDone OX SX newClient getenv readFile fl w = Some (Serving sv, w')"
  obtains auth trusted nets where "parseClientAuthTokens (bf_clientAuthTokens fl) = Inr auth"
    "parseCIDRList (bf_trustedProxies fl) = Inr trusted" "parseCIDRList (bf_allowedClientCIDRs fl) = Inr nets"
    "sv_cfg sv = broker_config fl auth trusted nets" "sv_store sv = newSessionStore getenv newClient (bf_redisAddr fl)"
  using assms by (auto simp: broker_run_def split: if_splits option.splits sum.splits prod.splits)

text \<open>The exits before the server starts.\<close>

lemma provider_exit_code:
  "select_provider fuel ctxDone OX SX getenv readFile protocol baseURL w = Some (Inl c, w') \<Longrightarrow>
    c \<in> {1, 2} \<and> (protocol \<notin> {''oidc'', ''saml''} \<longrightarrow> c = 2)"
  by (auto simp: select_provider_def newOIDCProvider_def newSAMLProvider_def Let_def
      split: if_splits option.splits prod.splits sum.splits)

lemma run_exit_code:
  assumes "broker_run fuel ctxDone OX SX newClient getenv readFile fl w = Some (ExitCode c, w')"
  shows "c \<in> {1, 2} \<and> (bf_baseURL fl = '''' \<or> bf_protocol fl \<notin> {''oidc'', ''saml''} \<longrightarrow> c = 2)"
  using assms provider_exit_code
  by (fastforce simp: broker_run_def split: if_splits option.splits prod.splits sum.splits)

lemma served_flags:
  assumes "broker_run fuel ctxDone OX SX newClient getenv readFile fl w = Some (Serving sv, w')"
  shows "bf_baseURL fl \<noteq> '''' \<and> bf_protocol fl \<in> {''oidc'', ''saml''}"
  using assms
  by (auto simp: broker_run_def select_provider_def split: if_splits option.splits prod.splits sum.splits)

text \<open>Retrying ends: after enough waits the deadline has passed.\<close>

fun total_wait :: "nat \<Rightarrow> duration \<Rightarrow> duration" where
  "total_wait 0 b = 0"
| "total_wait (Suc n) b = b + total_wait n (if b < 5 * second then wrap64 (b * 2) else b)"

definition keeps_clock :: "(world \<Rightarrow> (string + 'v) \<times> world) \<Rightarrow> bool" where
  "keeps_clock fn \<longleftrightarrow> (\<forall>w r w'. fn w = (r, w') \<longrightarrow> w_clock w' = w_clock w \<and> w_tick w \<le> w_tick w')"

lemma retry_loop_ends:
  assumes "keeps_clock fn"
  shows "\<forall>t \<ge> w_tick w. start + waited \<le> w_clock w t \<Longrightarrow> 30 * second < waited + total_wait n backoff \<Longrightarrow>
    \<exists>r w'. \<forall>m. retry_loop (Suc n + m) fn ctxDone (start + 30 * second) i backoff w = Some (r, w')"
proof (induction n arbitrary: w waited backoff i)
  case 0
  obtain r w1 where f: "fn w = (r, w1)" by force
  have "w_clock w1 = w_clock w" "w_tick w \<le> w_tick w1" using assms f by (auto simp: keeps_clock_def)
  then have "start + 30 * second < w_clock w1 (w_tick w1)" using 0 by fastforce
  then show ?case using f by (cases r) (auto simp: time_Now_def time_After_def)
next
  case (Suc n)
  obtain r w1 where f: "fn w = (r, w1)" by force
  have c: "w_clock w1 = w_clock w" "w_tick w \<le> w_tick w1" using assms f by (auto simp: keeps_clock_def)
  let ?b = "if backoff < 5 * second then wrap64 (backoff * 2) else backoff"
  let ?w3 = "sleep backoff (w1\<lparr>w_tick := Suc (w_tick w1)\<rparr>)"
  have "\<forall>t \<ge> w_tick ?w3. start + (waited + backoff) \<le> w_clock ?w3 t"
    using Suc.prems(1) c by (auto simp: sleep_def)
  moreover have "30 * second < (waited + backoff) + total_wait n ?b" using Suc.prems(2) by simp
  ultimately obtain r' w' where
      "\<And>m. retry_loop (Suc n + m) fn ctxDone (start + 30 * second) (Suc i) ?b ?w3 = Some (r', w')"
    using Suc.IH by blast
  moreover have "retry_loop (Suc (Suc n) + m) fn ctxDone (start + 30 * second) i backoff w =
      (case r of Inr v \<Rightarrow> Some (Inr v, w1)
       | Inl err \<Rightarrow> if time_After (w_clock w1 (w_tick w1)) (start + 30 * second)
           then Some (Inl err, w1\<lparr>w_tick := Suc (w_tick w1)\<rparr>)
           else if ctxDone i then Some (Inl ''context done'', w1\<lparr>w_tick := Suc (w_tick w1)\<rparr>)
           else retry_loop (Suc n + m) fn ctxDone (start + 30 * second) (Suc i) ?b ?w3)" for m
    by (subst add_Suc, subst retry_loop.simps(2)) (cases r; simp only: f time_Now_def prod.case Let_def sum.case)
  ultimately show ?case 
    by (cases r; cases "ctxDone i"; cases "time_After (w_clock w1 (w_tick w1)) (start + 30 * second)") (auto simp del: retry_loop.simps add_Suc)
qed

lemma total_wait_8: "total_wait 7 (second div 2) = 31 * second + second div 2"
  by (simp add: numeral_eq_Suc wrap64_def)

section \<open>The brokers the program can be\<close>

text \<open>
  With either protocol the program's broker on the in-memory store meets what the run properties ask of a broker's
  surroundings, whatever the limiter, the Unicode tables and the URL parser.
\<close>

interpretation oidc_broker: broker_env
  "\<lparr>e_store = Memory, e_idp = oidc_ops X p, e_rate = R, e_unicode = u, e_urlParses = f\<rparr>" m_sessions for X p R u f
  using oidc.identity_provider_axioms mem.reliable_store_axioms by (simp add: broker_env_def)

interpretation saml_broker: broker_env
  "\<lparr>e_store = Memory, e_idp = saml_ops X p, e_rate = R, e_unicode = u, e_urlParses = f\<rparr>" m_sessions for X p R u f
  using saml.identity_provider_axioms mem.reliable_store_axioms by (simp add: broker_env_def)

text \<open>Brokers that share a Redis server are a group of brokers in the sense of theory \<open>Cluster\<close>.\<close>

interpretation oidc_redis: broker_cluster
  "\<lparr>e_store = Redis ref_codec ref_store, e_idp = oidc_ops X p, e_rate = R, e_unicode = u, e_urlParses = f\<rparr>"
  "ref_redis.decoded ref_store" json_claims for X p R u f
  by (rule ref_redis.redis_cluster) (simp_all add: ref_store_def NewRedis_def oidc.identity_provider_axioms)

interpretation saml_redis: broker_cluster
  "\<lparr>e_store = Redis ref_codec ref_store, e_idp = saml_ops X p, e_rate = R, e_unicode = u, e_urlParses = f\<rparr>"
  "ref_redis.decoded ref_store" json_claims for X p R u f
  by (rule ref_redis.redis_cluster) (simp_all add: ref_store_def NewRedis_def saml.identity_provider_axioms)

section \<open>Properties\<close>

text \<open>C34: Discovery does not hang. If the clock never runs backwards, retrying a discovery ends after at most eight attempts,
  whatever each of them answers: the waits in between add up to 31.5 seconds, past the deadline.\<close>

theorem retry_discovery_returns:
  assumes "keeps_clock fn" and "\<forall>i j. i \<le> j \<longrightarrow> w_clock w i \<le> w_clock w j"
  shows "\<exists>r w'. \<forall>m. retryDiscovery (8 + m) ctxDone fn w = Some (r, w')"
proof -
  let ?w1 = "w\<lparr>w_tick := Suc (w_tick w)\<rparr>" and ?start = "w_clock w (w_tick w)"
  have "\<forall>t \<ge> w_tick ?w1. ?start + 0 \<le> w_clock ?w1 t" using assms(2) by simp
  moreover have "30 * second < 0 + total_wait 7 (second div 2)" unfolding total_wait_8 by simp
  ultimately have "\<exists>r w'. \<forall>m. retry_loop (Suc 7 + m) fn ctxDone (?start + 30 * second) 0 (second div 2) ?w1 = Some (r, w')"
    by (rule retry_loop_ends [OF assms(1)])
  then show ?thesis
    by (simp add: retryDiscovery_def time_Now_def time_Add_def Let_def del: retry_loop.simps)
qed

theorem retry_discovery_returns_witness:
  "\<exists>r w'. \<forall>m. retryDiscovery (8 + m) (\<lambda>_. False) (\<lambda>w. (Inl ''connection refused'', w) :: (string + unit) \<times> world)
     \<lparr>w_rand = (\<lambda>i. 7), w_rfail = (\<lambda>_. False), w_rpos = 0, w_clock = int, w_tick = 0\<rparr> = Some (r, w')"
  by (rule retry_discovery_returns) (simp_all add: keeps_clock_def)

text \<open>The token list. A list is accepted exactly when every entry is a key and a value joined by an equals sign, both
  not empty; the resulting authenticator then lets in exactly the bearers of a listed key, as the last client id
  listed with it.\<close>

theorem token_list_parsed:
  assumes "raw \<noteq> ''''"
  shows "case parseClientAuthTokens raw of
      Inl err \<Rightarrow> \<nexists>ps. list_all2 (\<lambda>e (k, v). token_entry e k v) (strings_Split (CHR '','') raw) ps
    | Inr None \<Rightarrow> False
    | Inr (Some a) \<Rightarrow> \<exists>ps. list_all2 (\<lambda>e (k, v). token_entry e k v) (strings_Split (CHR '','') raw) ps \<and>
        (\<forall>r cid. static_Authenticate a r = Some cid \<longleftrightarrow>
          (\<exists>token. header_Get r ''Authorization'' = ''Bearer '' @ token \<and> map_of (rev ps) token = Some cid))"
proof (cases "parseClientAuthTokens raw")
  case (Inl err)
  then show ?thesis using parseClientAuthTokens_ok [OF assms] by fastforce
next
  case (Inr b)
  then obtain ps where ps: "list_all2 (\<lambda>e (k, v). token_entry e k v) (strings_Split (CHR '','') raw) ps"
      "b = Some \<lparr>sa_Tokens = AList.updates (map fst ps) (map snd ps) []\<rparr>"
    using parseClientAuthTokens_ok [OF assms] by blast
  then have "\<forall>r cid. static_Authenticate (the b) r = Some cid \<longleftrightarrow>
      (\<exists>token. header_Get r ''Authorization'' = ''Bearer '' @ token \<and> map_of (rev ps) token = Some cid)"
    by (simp add: static_Authenticate_map updates_map_of)
  then show ?thesis using Inr ps by auto
qed

theorem token_list_parsed_witness:
  "case parseClientAuthTokens ''t1=ci,t2=cli'' of
      Inl err \<Rightarrow> \<nexists>ps. list_all2 (\<lambda>e (k, v). token_entry e k v) (strings_Split (CHR '','') ''t1=ci,t2=cli'') ps
    | Inr None \<Rightarrow> False
    | Inr (Some a) \<Rightarrow> \<exists>ps. list_all2 (\<lambda>e (k, v). token_entry e k v) (strings_Split (CHR '','') ''t1=ci,t2=cli'') ps \<and>
        (\<forall>r cid. static_Authenticate a r = Some cid \<longleftrightarrow>
          (\<exists>token. header_Get r ''Authorization'' = ''Bearer '' @ token \<and> map_of (rev ps) token = Some cid))"
  by (rule token_list_parsed) simp

text \<open>A CIDR list is accepted exactly when every entry, without surrounding space, is a prefix, and then gives those
  prefixes in order; a list that is not empty never gives an empty one, so a configured restriction stays one.\<close>

theorem cidr_list_parsed:
  assumes "raw \<noteq> ''''"
  shows "parseCIDRList raw = Inr nets \<longleftrightarrow>
      nets \<noteq> [] \<and> list_all2 (\<lambda>part p. netip_ParsePrefix (strings_TrimSpace part) = Some p) (strings_Split (CHR '','') raw) nets"
  using assms by (auto simp: parseCIDRList_def cidr_parts_ok)

theorem cidr_list_parsed_witness:
  "parseCIDRList ''10.0.0.0/8, 192.168.0.0/16'' = Inr [\<lparr>pf_addr = IP4 0x0A000000, pf_bits = 8\<rparr>, \<lparr>pf_addr = IP4 0xC0A80000, pf_bits = 16\<rparr>]"
proof -
  have "strings_Split (CHR '','') ''10.0.0.0/8, 192.168.0.0/16'' = [''10.0.0.0/8'', '' 192.168.0.0/16'']" by code_simp
  moreover have "netip_ParsePrefix (strings_TrimSpace ''10.0.0.0/8'') = Some \<lparr>pf_addr = IP4 0x0A000000, pf_bits = 8\<rparr>"
    by code_simp
  moreover have "netip_ParsePrefix (strings_TrimSpace '' 192.168.0.0/16'') = Some \<lparr>pf_addr = IP4 0xC0A80000, pf_bits = 16\<rparr>"
    by code_simp
  ultimately show ?thesis by (subst cidr_list_parsed) simp_all
qed

text \<open>A token list with an entry that is none, and a network list with an entry that is no prefix.\<close>

definition malformed_tokens :: "string \<Rightarrow> bool" where
  "malformed_tokens raw \<longleftrightarrow> raw \<noteq> '''' \<and> (\<exists>e \<in> set (strings_Split (CHR '','') raw). \<nexists>k v. token_entry e k v)"

definition malformed_networks :: "string \<Rightarrow> bool" where
  "malformed_networks raw \<longleftrightarrow>
     raw \<noteq> '''' \<and> (\<exists>part \<in> set (strings_Split (CHR '','') raw). netip_ParsePrefix (strings_TrimSpace part) = None)"

text \<open>The bearer token of a request is on the list; an address lies in one of the listed networks.\<close>

definition listed_bearer :: "string \<Rightarrow> request \<Rightarrow> bool" where
  "listed_bearer raw r \<longleftrightarrow> (\<exists>e \<in> set (strings_Split (CHR '','') raw). \<exists>k v. token_entry e k v \<and>
     header_Get r ''Authorization'' = ''Bearer '' @ k)"

definition listed_address :: "string \<Rightarrow> string \<Rightarrow> bool" where
  "listed_address raw ip \<longleftrightarrow> (\<exists>part \<in> set (strings_Split (CHR '','') raw). \<exists>p addr.
     netip_ParsePrefix (strings_TrimSpace part) = Some p \<and> netip_ParseAddr ip = Some addr \<and> netip_Contains p addr)"

lemma list_all2_mem1: "list_all2 P xs ys \<Longrightarrow> x \<in> set xs \<Longrightarrow> \<exists>y. P x y"
  by (metis in_set_conv_nth list_all2_conv_all_nth)

lemma malformed_refused:
  "malformed_tokens raw \<Longrightarrow> parseClientAuthTokens raw \<noteq> Inr a" "malformed_networks raw \<Longrightarrow> parseCIDRList raw \<noteq> Inr nets"
proof -
  assume m: "malformed_tokens raw"
  then obtain e where e: "raw \<noteq> ''''" "e \<in> set (strings_Split (CHR '','') raw)" "\<nexists>k v. token_entry e k v"
    by (auto simp: malformed_tokens_def)
  then show "parseClientAuthTokens raw \<noteq> Inr a"
    using parseClientAuthTokens_ok [OF e(1), of a] list_all2_mem1 [OF _ e(2), of "\<lambda>e (k, v). token_entry e k v"] by fastforce
next
  assume "malformed_networks raw"
  then show "parseCIDRList raw \<noteq> Inr nets"
    by (auto simp: malformed_networks_def parseCIDRList_def cidr_parts_ok dest: list_all2_mem1)
qed

text \<open>Of the lists that parse: who passes the gates made of them.\<close>

lemma token_gate:
  assumes "raw \<noteq> ''''" and "parseClientAuthTokens raw = Inr auth" and "\<not> listed_bearer raw r"
    and "cfg_ClientAuthenticator (b_cfg b) = map_option static_Authenticate auth"
  shows "handleStart env r b w = (Reply (writeJSONError 401 ''invalid_client'' ''client authentication failed''), b, w)"
proof -
  obtain ps where ps: "list_all2 (\<lambda>e (k, v). token_entry e k v) (strings_Split (CHR '','') raw) ps"
      "auth = Some \<lparr>sa_Tokens = AList.updates (map fst ps) (map snd ps) []\<rparr>"
    using assms(2) parseClientAuthTokens_ok [OF assms(1)] by blast
  have listed: "\<exists>e. e \<in> set (strings_Split (CHR '','') raw) \<and> token_entry e k v" if "(k, v) \<in> set ps" for k v
    using list_all2_mem2 [OF ps(1) that] by auto
  have "static_Authenticate (the auth) r \<noteq> Some cid" for cid
  proof
    assume "static_Authenticate (the auth) r = Some cid"
    then obtain token where tk: "header_Get r ''Authorization'' = ''Bearer '' @ token" "map_of (rev ps) token = Some cid"
      using ps(2) by (auto simp: static_Authenticate_map updates_map_of)
    then have "(token, cid) \<in> set ps" using map_of_SomeD by fastforce
    then show False using listed assms(3) tk(1) by (auto simp: listed_bearer_def)
  qed
  then have "static_Authenticate (the auth) r = None" by (cases "static_Authenticate (the auth) r") auto
  then show ?thesis using assms(4) ps(2) by (simp add: handleStart_def client_gate_def)
qed

lemma network_gate:
  assumes "raw \<noteq> ''''" and "parseCIDRList raw = Inr nets" and "cfg_AllowedClientCIDRs (b_cfg b) = nets"
    and "\<not> listed_address raw (resolveClientIP r (cfg_TrustedProxies (b_cfg b)))"
    and "handleStart env r b w = (rep, b', w')"
  shows "reply_start rep = None \<and> b_store b' = b_store b"
proof -
  have l: "list_all2 (\<lambda>part p. netip_ParsePrefix (strings_TrimSpace part) = Some p) (strings_Split (CHR '','') raw) nets" "nets \<noteq> []"
    using assms(1,2) by (auto simp: parseCIDRList_def cidr_parts_ok)
  have "\<not> isAllowedClient (resolveClientIP r (cfg_TrustedProxies (b_cfg b))) nets"
    using assms(4) l(2) list_all2_mem2 [OF l(1)]
    by (fastforce simp: listed_address_def isAllowedClient_def any_contains_iff split: option.splits)
  then show ?thesis using assms(3,5) by (auto simp: handleStart_def Let_def split: option.splits prod.splits if_splits)
qed

text \<open>C30: Configured gates are enforced. A token list or a network list (of trusted proxies or of allowed clients) with a
  malformed entry makes the program exit with a code other than 0 before it serves. If it goes on to serve, a
  configured token list refuses every start request whose bearer token is not listed, with 401 and without any
  effect, and a configured network list refuses every start request whose client address, as resolved behind the trusted
  proxies, lies in none of its networks: no session is handed out and none is stored.\<close>

theorem configured_gates_enforced:
  assumes "broker_run fuel ctxDone OX SX newClient getenv readFile fl w = Some (out, w')"
  shows "(malformed_tokens (bf_clientAuthTokens fl) \<or> malformed_networks (bf_trustedProxies fl) \<or>
      malformed_networks (bf_allowedClientCIDRs fl) \<longrightarrow> (\<exists>c. out = ExitCode c \<and> c \<noteq> 0)) \<and>
    (\<forall>sv b r w2 rep b' w3. out = Serving sv \<and> b_cfg b = applyDefaults (sv_cfg sv) \<and> handleStart env r b w2 = (rep, b', w3) \<longrightarrow>
      (bf_clientAuthTokens fl \<noteq> '''' \<and> \<not> listed_bearer (bf_clientAuthTokens fl) r \<longrightarrow>
        rep = Reply (writeJSONError 401 ''invalid_client'' ''client authentication failed'') \<and> b' = b \<and> w3 = w2) \<and>
      (bf_allowedClientCIDRs fl \<noteq> '''' \<and>
         \<not> listed_address (bf_allowedClientCIDRs fl) (resolveClientIP r (cfg_TrustedProxies (b_cfg b))) \<longrightarrow>
        reply_start rep = None \<and> b_store b' = b_store b))"
proof (cases out)
  case (ExitCode c)
  then show ?thesis using run_exit_code [OF assms [unfolded ExitCode]] by auto
next
  case (Serving sv)
  obtain auth trusted nets where parsed: "parseClientAuthTokens (bf_clientAuthTokens fl) = Inr auth"
      "parseCIDRList (bf_trustedProxies fl) = Inr trusted" "parseCIDRList (bf_allowedClientCIDRs fl) = Inr nets"
      "sv_cfg sv = broker_config fl auth trusted nets"
    using assms unfolding Serving by (rule serving_parts)
  have cfg: "cfg_ClientAuthenticator (applyDefaults (sv_cfg sv)) = map_option static_Authenticate auth"
    "cfg_AllowedClientCIDRs (applyDefaults (sv_cfg sv)) = nets"
    using parsed(4) by (simp_all add: applyDefaults_def broker_config_def Let_def)
  have "rep = Reply (writeJSONError 401 ''invalid_client'' ''client authentication failed'') \<and> b' = b \<and> w3 = w2"
    if "b_cfg b = applyDefaults (sv_cfg sv)" "handleStart env r b w2 = (rep, b', w3)" "bf_clientAuthTokens fl \<noteq> ''''"
      "\<not> listed_bearer (bf_clientAuthTokens fl) r" for b r w2 rep b' w3
    using token_gate [OF that(3) parsed(1) that(4) cfg(1) [folded that(1)], of env w2] that(2) by simp
  moreover have "reply_start rep = None \<and> b_store b' = b_store b"
    if "b_cfg b = applyDefaults (sv_cfg sv)" "handleStart env r b w2 = (rep, b', w3)" "bf_allowedClientCIDRs fl \<noteq> ''''"
      "\<not> listed_address (bf_allowedClientCIDRs fl) (resolveClientIP r (cfg_TrustedProxies (b_cfg b)))" for b r w2 rep b' w3
    using network_gate [OF that(3) parsed(3) cfg(2) [folded that(1)] that(4,2)] .
  ultimately show ?thesis using parsed(1-3) malformed_refused Serving by blast
qed

text \<open>A broker configured for OpenID Connect, with one client token and one network.\<close>

definition demo_vars :: "string \<Rightarrow> string" where
  "demo_vars key =
     (if key = ''XDAUTH_ISSUER_URL'' then ''https://idp.example'' else if key = ''XDAUTH_CLIENT_ID'' then ''xd''
      else if key = ''XDAUTH_CLIENT_SECRET'' then ''sec'' else if key = ''XDAUTH_BASE_URL'' then ''https://auth.example/''
      else if key = ''XDAUTH_CLIENT_AUTH_TOKENS'' then ''t1=ci''
      else if key = ''XDAUTH_ALLOWED_CLIENT_CIDRS'' then ''10.0.0.0/8'' else '''')"

lemma demo_run_serves:
  obtains sv where "broker_run (Suc 0) (\<lambda>_. False) demo_oidc_ext demo_saml_ext (\<lambda>_ _. ref_client) demo_vars (\<lambda>_. Inl '''')
    (flag_defaults demo_vars) demo_world = Some (Serving sv, demo_world\<lparr>w_tick := 1\<rparr>)"
proof -
  have vars: "demo_vars ''XDAUTH_ISSUER_URL'' = ''https://idp.example''" "demo_vars ''XDAUTH_CLIENT_ID'' = ''xd''"
    "demo_vars ''XDAUTH_CLIENT_SECRET'' = ''sec''" "demo_vars ''XDAUTH_CLIENT_SECRET_FILE'' = ''''"
    by (simp_all add: demo_vars_def)
  have fl: "bf_baseURL (flag_defaults demo_vars) = ''https://auth.example/''" "bf_protocol (flag_defaults demo_vars) = ''oidc''"
    "bf_clientAuthTokens (flag_defaults demo_vars) = ''t1=ci''" "bf_trustedProxies (flag_defaults demo_vars) = ''''"
    "bf_allowedClientCIDRs (flag_defaults demo_vars) = ''10.0.0.0/8''"
    by (simp_all add: flag_defaults_def envOr_def demo_vars_def)
  have tick: "w_tick demo_world = 0" by (simp add: demo_world_def)
  obtain p where "newOIDCProvider (Suc 0) (\<lambda>_. False) demo_oidc_ext demo_vars (\<lambda>_. Inl '''')
      (strings_TrimRight (CHR ''/'') ''https://auth.example/'') demo_world = Some (Inr p, demo_world\<lparr>w_tick := 1\<rparr>)"
    by (simp add: newOIDCProvider_def vars retryDiscovery_def time_Now_def oidc_New_def demo_oidc_ext_def Let_def tick)
  note provider = this
  have "parseClientAuthTokens ''t1=ci'' = Inr (Some \<lparr>sa_Tokens = [(''t1'', ''ci'')]\<rparr>)" by code_simp
  moreover have "parseCIDRList ''10.0.0.0/8'' = Inr [\<lparr>pf_addr = IP4 0x0A000000, pf_bits = 8\<rparr>]" by code_simp
  ultimately show ?thesis
    using that provider by (simp add: broker_run_def fl select_provider_def parseCIDRList_def)
qed

text \<open>A start request without a token, one with the token from another network, and a network list that is none.\<close>

definition outside_start :: request where
  "outside_start = demo_start\<lparr>r_RemoteAddr := ''192.168.1.5:4711'', r_Header := [(''Authorization'', ''Bearer t1'')]\<rparr>"

lemma outside_parts:
  "resolveClientIP outside_start [] = ''192.168.1.5''" "\<not> listed_address ''10.0.0.0/8'' ''192.168.1.5''"
proof -
  have "peer_host outside_start = ''192.168.1.5''"
    by (simp add: outside_start_def demo_start_def blank_request_def peer_host_def net_SplitHostPort_def split_last_def split_first_def)
  then show "resolveClientIP outside_start [] = ''192.168.1.5''" by (simp add: resolveClientIP_untrusted_peer)
  have "strings_Split (CHR '','') ''10.0.0.0/8'' = [''10.0.0.0/8'']"
    "netip_ParsePrefix (strings_TrimSpace ''10.0.0.0/8'') = Some \<lparr>pf_addr = IP4 0x0A000000, pf_bits = 8\<rparr>"
    "netip_ParseAddr ''192.168.1.5'' = Some (IP4 0xC0A80105)"
    "netip_Contains \<lparr>pf_addr = IP4 0x0A000000, pf_bits = 8\<rparr> (IP4 0xC0A80105) = False"
    by code_simp+
  then show "\<not> listed_address ''10.0.0.0/8'' ''192.168.1.5''" by (simp add: listed_address_def)
qed

lemma demo_malformed: "malformed_networks ''10.0.0.0/8,intranet''"
proof -
  have "strings_Split (CHR '','') ''10.0.0.0/8,intranet'' = [''10.0.0.0/8'', ''intranet'']"
    "netip_ParsePrefix (strings_TrimSpace ''intranet'') = None"
    by code_simp+
  then show ?thesis by (simp add: malformed_networks_def)
qed

theorem configured_gates_enforced_witness:
  "\<exists>sv c w1 rep b' w3.
    broker_run (Suc 0) (\<lambda>_. False) demo_oidc_ext demo_saml_ext (\<lambda>_ _. ref_client) demo_vars (\<lambda>_. Inl '''')
      (flag_defaults demo_vars) demo_world = Some (Serving sv, demo_world\<lparr>w_tick := 1\<rparr>) \<and>
    handleStart demo_env demo_start (New demo_env (sv_cfg sv) NewMemory) demo_world =
      (Reply (writeJSONError 401 ''invalid_client'' ''client authentication failed''),
       New demo_env (sv_cfg sv) NewMemory, demo_world) \<and>
    handleStart demo_env outside_start (New demo_env (sv_cfg sv) NewMemory) demo_world = (rep, b', w3) \<and>
    reply_start rep = None \<and> b_store b' = NewMemory \<and>
    broker_run (Suc 0) (\<lambda>_. False) demo_oidc_ext demo_saml_ext (\<lambda>_ _. ref_client) demo_vars (\<lambda>_. Inl '''')
      ((flag_defaults demo_vars)\<lparr>bf_allowedClientCIDRs := ''10.0.0.0/8,intranet''\<rparr>) demo_world = Some (ExitCode c, w1) \<and> c \<noteq> 0"
proof -
  obtain sv where s: "broker_run (Suc 0) (\<lambda>_. False) demo_oidc_ext demo_saml_ext (\<lambda>_ _. ref_client) demo_vars (\<lambda>_. Inl '''')
    (flag_defaults demo_vars) demo_world = Some (Serving sv, demo_world\<lparr>w_tick := 1\<rparr>)"
    by (rule demo_run_serves)
  let ?b = "New demo_env (sv_cfg sv) NewMemory"
  have fl: "bf_clientAuthTokens (flag_defaults demo_vars) = ''t1=ci''" "bf_allowedClientCIDRs (flag_defaults demo_vars) = ''10.0.0.0/8''"
    "bf_trustedProxies (flag_defaults demo_vars) = ''''"
    by (simp_all add: flag_defaults_def demo_vars_def)
  have "cfg_TrustedProxies (b_cfg ?b) = []"
    using s by (rule serving_parts) (simp add: fl parseCIDRList_def applyDefaults_def broker_config_def Let_def)
  then have outside: "\<not> listed_address ''10.0.0.0/8'' (resolveClientIP outside_start (cfg_TrustedProxies (b_cfg ?b)))"
    by (simp add: outside_parts)
  have gates: "(\<not> listed_bearer ''t1=ci'' r \<longrightarrow>
        rep = Reply (writeJSONError 401 ''invalid_client'' ''client authentication failed'') \<and> b' = ?b \<and> w3 = demo_world) \<and>
      (\<not> listed_address ''10.0.0.0/8'' (resolveClientIP r (cfg_TrustedProxies (b_cfg ?b))) \<longrightarrow>
        reply_start rep = None \<and> b_store b' = NewMemory)"
    if "handleStart demo_env r ?b demo_world = (rep, b', w3)" for r rep b' w3
    using configured_gates_enforced [OF s, of demo_env, THEN conjunct2, rule_format, of sv ?b r demo_world rep b' w3] that fl by simp
  have "header_Get demo_start ''Authorization'' = ''''"
    by (simp add: demo_start_def blank_request_def header_Get_def first_value_def)
  then have "\<not> listed_bearer ''t1=ci'' demo_start" by (simp add: listed_bearer_def)
  moreover obtain rep0 b0 w0 where h0: "handleStart demo_env demo_start ?b demo_world = (rep0, b0, w0)" by (metis prod_cases3)
  ultimately have one: "handleStart demo_env demo_start ?b demo_world =
      (Reply (writeJSONError 401 ''invalid_client'' ''client authentication failed''), ?b, demo_world)"
    using gates [OF h0] by simp
  obtain rep b' w3 where h: "handleStart demo_env outside_start ?b demo_world = (rep, b', w3)" by (metis prod_cases3)
  then have two: "reply_start rep = None \<and> b_store b' = NewMemory" using gates [OF h] outside by simp
  let ?bad = "(flag_defaults demo_vars)\<lparr>bf_allowedClientCIDRs := ''10.0.0.0/8,intranet''\<rparr>"
  obtain out w1 where out: "broker_run (Suc 0) (\<lambda>_. False) demo_oidc_ext demo_saml_ext (\<lambda>_ _. ref_client) demo_vars (\<lambda>_. Inl '''')
      ?bad demo_world = Some (out, w1)"
    using s by (cases "parseCIDRList ''10.0.0.0/8,intranet''")
      (auto simp: broker_run_def split: if_splits option.splits sum.splits prod.splits)
  then obtain c where m: "out = ExitCode c" "c \<noteq> 0"
    using configured_gates_enforced [OF out, THEN conjunct1] demo_malformed by auto
  show ?thesis using s one h two out m by blast
qed

end
