(* ===== verification/Lifecycle.thy ===== *)
theory Lifecycle
  imports BrokerCmd "HOL-Library.Multiset"
begin

text \<open>
  The end of \<open>run\<close> in \<open>cmd/xdauth-broker/main.go\<close>: the HTTP server around the broker, the goroutine that shuts it down
  on a signal, and the exit of the process. \<open>net/http\<close> serves requests in goroutines of their own, so the requests that
  were read, those whose handler has read its session and not yet written it back, the answers that are not yet sent, and
  the two goroutines of \<open>run\<close> are parts of one state that a step relation advances. Handlers overlap as in theory
  \<open>Cluster\<close>.
\<close>

section \<open>The process\<close>

text \<open>
  Where \<open>run\<close> is: in \<open>ListenAndServe\<close>, returned from it with the exit code to return, past the deferred
  \<open>sessionStore.Close()\<close>, and past the deferred \<open>cancel()\<close> and \<open>os.Exit\<close>. The goroutine waits for the context, is in
  \<open>Shutdown\<close> until a deadline, or has ended. \<open>p_err\<close> is what \<open>ListenAndServe\<close> returned.
\<close>

datatype main_phase = Listening | Returned int | StoreClosed int | Exited int

datatype shutdown_phase = AwaitDone | Draining time | ShutdownDone

type_synonym session_read = "string \<Rightarrow> store_error + session"

record ('st, 'l) process =
  p_main :: main_phase
  p_err :: "serve_error option"
  p_signal :: bool
  p_shutdown :: shutdown_phase
  p_clock :: time
  p_accepted :: "(endpoint \<times> request) list"
  p_reading :: "(endpoint \<times> request \<times> session_read) list"
  p_pending :: "exchange list"
  p_sent :: "exchange list"
  p_handled :: "exchange list"
  p_broker :: "('st, 'l) broker"

definition running :: "('st, 'l) process \<Rightarrow> bool" where
  "running p \<longleftrightarrow> (\<forall>c. p_main p \<noteq> Exited c)"

definition start_process :: "time \<Rightarrow> ('st, 'l) broker \<Rightarrow> ('st, 'l) process" where
  "start_process now b = \<lparr>p_main = Listening, p_err = None, p_signal = False, p_shutdown = AwaitDone, p_clock = now,
     p_accepted = [], p_reading = [], p_pending = [], p_sent = [], p_handled = [], p_broker = b\<rparr>"

text \<open>\<open>shutdownCtx\<close>: ten seconds after the context is done.\<close>

definition shutdownTimeout :: duration where
  "shutdownTimeout = 10 * second"

text \<open>
  The steps. A handler reads its session (\<open>read\<close>) and at any later time does the rest (\<open>handle\<close>); in between others run.
  The limiters and the detector, each behind a lock of its own, may then be in any state, and the clock a handler
  reads is any. \<open>Shutdown\<close> closes the listener and idle connections first, so no request is read any more, and makes
  \<open>ListenAndServe\<close> return \<open>ErrServerClosed\<close> at once, as \<open>net/http\<close> documents; it returns itself when no connection is
  active any more or when its context ends. A listener that fails before makes \<open>ListenAndServe\<close> return that error.
  \<open>background\<close> is what the store does on its own, such as the sweeper.
\<close>

inductive process_step ::
  "('st, 'l) env \<Rightarrow> (time \<Rightarrow> 'st \<Rightarrow> 'st) \<Rightarrow> ('st, 'l) process \<Rightarrow> ('st, 'l) process \<Rightarrow> bool"
  for env background where
  elapse: "running p \<Longrightarrow> p_clock p \<le> now \<Longrightarrow> process_step env background p (p\<lparr>p_clock := now\<rparr>)"
| signal: "running p \<Longrightarrow> process_step env background p (p\<lparr>p_signal := True\<rparr>)"
| accept: "running p \<Longrightarrow> p_shutdown p = AwaitDone \<Longrightarrow>
    process_step env background p (p\<lparr>p_accepted := (ep, r) # p_accepted p\<rparr>)"
| read: "running p \<Longrightarrow> p_accepted p = xs @ (ep, r) # ys \<Longrightarrow>
    process_step env background p (p\<lparr>p_accepted := xs @ ys,
      p_reading := (ep, r, \<lambda>sid. st_Get (e_store env) sid t (b_store (p_broker p))) # p_reading p\<rparr>)"
| handle: "running p \<Longrightarrow> p_reading p = xs @ (ep, r, rd) # ys \<Longrightarrow>
    b_store b = b_store (p_broker p) \<Longrightarrow> b_cfg b = b_cfg (p_broker p) \<Longrightarrow>
    serve (reading rd env) ep r b w = (rep, b', w') \<Longrightarrow>
    process_step env background p (p\<lparr>p_reading := xs @ ys, p_pending := (ep, r, rep) # p_pending p,
      p_handled := (ep, r, rep) # p_handled p, p_broker := b'\<rparr>)"
| answer: "running p \<Longrightarrow> p_pending p = xs @ x # ys \<Longrightarrow>
    process_step env background p (p\<lparr>p_pending := xs @ ys, p_sent := x # p_sent p\<rparr>)"
| hang_up: "running p \<Longrightarrow> p_pending p = xs @ x # ys \<Longrightarrow>
    process_step env background p (p\<lparr>p_pending := xs @ ys\<rparr>)"
| shutdown: "running p \<Longrightarrow> p_shutdown p = AwaitDone \<Longrightarrow> p_signal p \<Longrightarrow>
    process_step env background p (p\<lparr>p_shutdown := Draining (time_Add (p_clock p) shutdownTimeout)\<rparr>)"
| drained: "running p \<Longrightarrow> p_shutdown p = Draining deadline \<Longrightarrow>
    p_accepted p = [] \<and> p_reading p = [] \<and> p_pending p = [] \<or> deadline \<le> p_clock p \<Longrightarrow>
    process_step env background p (p\<lparr>p_shutdown := ShutdownDone\<rparr>)"
| closed: "p_main p = Listening \<Longrightarrow> p_shutdown p \<noteq> AwaitDone \<Longrightarrow>
    process_step env background p (p\<lparr>p_err := Some ErrServerClosed, p_main := Returned (serve_exit (Some ErrServerClosed))\<rparr>)"
| failed: "p_main p = Listening \<Longrightarrow> p_shutdown p = AwaitDone \<Longrightarrow>
    process_step env background p (p\<lparr>p_err := Some (ServeErr e), p_main := Returned (serve_exit (Some (ServeErr e)))\<rparr>)"
| close_store: "p_main p = Returned c \<Longrightarrow> st_Close (e_store env) (b_store (p_broker p)) = Some st' \<Longrightarrow>
    process_step env background p (p\<lparr>p_main := StoreClosed c, p_broker := (p_broker p)\<lparr>b_store := st'\<rparr>\<rparr>)"
| exit: "p_main p = StoreClosed c \<Longrightarrow> process_step env background p (p\<lparr>p_main := Exited c\<rparr>)"
| tick: "running p \<Longrightarrow> process_step env background p
    (p\<lparr>p_broker := (p_broker p)\<lparr>b_store := background (p_clock p) (b_store (p_broker p))\<rparr>\<rparr>)"

abbreviation process_reach ::
  "('st, 'l) env \<Rightarrow> (time \<Rightarrow> 'st \<Rightarrow> 'st) \<Rightarrow> time \<Rightarrow> ('st, 'l) broker \<Rightarrow> ('st, 'l) process \<Rightarrow> bool" where
  "process_reach env background now b \<equiv> (process_step env background)\<^sup>*\<^sup>* (start_process now b)"

text \<open>What the memory store does on its own: the sweeper, until it is stopped.\<close>

definition memory_background :: "time \<Rightarrow> memory \<Rightarrow> memory" where
  "memory_background now m = memory_sweepLoop [if m_stopped m then SweepStop else SweepTick now] m"



text \<open>Nothing happens after the exit.\<close>

lemma no_step_after_exit: "process_step env background p p' \<Longrightarrow> p_main p \<noteq> Exited c"
  by (cases rule: process_step.cases) (auto simp: running_def)

section \<open>Runs of the process are runs with overlapping requests\<close>

text \<open>What the handlers in progress have read.\<close>

definition reads_of :: "('st, 'l) process \<Rightarrow> (string \<times> session) set" where
  "reads_of p = {(sid, s). \<exists>(ep, r, rd) \<in> set (p_reading p). rd sid = Inr s}"

text \<open>The four checks behind an artifact sent in answer to \<open>r\<close>, in the exchanges before.\<close>

definition checked_release ::
  "('st, 'l) env \<Rightarrow> normalizer option \<Rightarrow> (claims \<Rightarrow> claims) \<Rightarrow> request \<Rightarrow> Artifact \<Rightarrow> exchange list \<Rightarrow> bool" where
  "checked_release env nz cn r a tr \<longleftrightarrow>
     (\<exists>sid v hint code secret ident n t1 x2 t2 x1 x0.
        decode_pollRequest (r_Body r) = Some \<lparr>pq_SessionID = sid, pq_CodeVerifier = v\<rparr> \<and> v \<noteq> '''' \<and>
        x0 \<in> set tr \<and> start_attempt sid hint (S256 v) code x0 \<and>
        tr = t1 @ x2 # t2 \<and> approval_exchange (e_unicode env) sid code secret x2 \<and>
        x1 \<in> set t2 \<and> login_exchange (e_idp env) sid ident secret x1 \<and>
        normalizer_or_default (e_unicode env) nz (id_Value ident) = normalizer_or_default (e_unicode env) nz hint \<and>
        a_Identity a = id_Value ident \<and> a_Subject a = id_Subject ident \<and> a_Claims a = (cn ^^ n) (id_Claims ident))"

locale broker_process = broker_cluster env stored cn
  for env :: "('st, 'l) env" and stored :: "'st \<Rightarrow> string \<rightharpoonup> session" and cn :: "claims \<Rightarrow> claims" +
  fixes background :: "time \<Rightarrow> 'st \<Rightarrow> 'st"
  assumes background_forgets: "stored (background now st) \<subseteq>\<^sub>m stored st"
    and close_forgets: "st_Close (e_store env) st = Some st' \<Longrightarrow> stored st' \<subseteq>\<^sub>m stored st"
begin

text \<open>A step of the process is a step of such a run.\<close>

lemma process_run:
  assumes "process_reach env background now0 (New env cfg st0) p" and "stored st0 = Map.empty"
  shows "b_cfg (p_broker p) = applyDefaults cfg \<and>
    cluster_reach env stored (cfg_IdentityNormalizer cfg) (p_handled p) (reads_of p) (b_store (p_broker p)) \<and>
    mset (p_sent p @ p_pending p) \<subseteq># mset (p_handled p)"
  using assms(1)
proof (induction rule: rtranclp_induct)
  case base
  then show ?case
    using cluster_reach.init [of stored st0 env "cfg_IdentityNormalizer cfg", OF assms(2)]
    by (simp add: start_process_def reads_of_def)
next
  case (step p p')
  let ?run = "cluster_reach env stored (cfg_IdentityNormalizer cfg)"
  from step.hyps(2) show ?case
  proof cases
    case (read xs ep r ys t)
    have "?run (p_handled p) (reads_of p') (b_store (p_broker p))"
      using step.IH read(1) by (auto simp: reads_of_def elim!: cluster_reach.reads)
    then show ?thesis using step.IH read by simp
  next
    case (handle xs ep r rd ys b w rep b' w')
    have "?run ((ep, r, rep) # p_handled p) (reads_of p) (b_store b')"
      using step.IH handle(3-6) by (intro cluster_reach.served [OF _ handle(4) _ _ handle(6)]) (auto simp: reads_of_def)
    then have "?run (p_handled p') (reads_of p') (b_store b')"
      using handle(1,3) by (auto simp: reads_of_def elim!: cluster_reach.reads)
    moreover have "b_cfg b' = b_cfg b" using serve_cfg [OF handle(6)] by simp
    ultimately show ?thesis using step.IH handle by simp
  next
    case (answer xs x ys)
    then show ?thesis using step.IH by (simp add: reads_of_def)
  next
    case (hang_up xs x ys)
    then show ?thesis using step.IH by (auto simp: reads_of_def intro: subset_mset.trans [rotated])
  next
    case (close_store c st')
    have "?run (p_handled p) (reads_of p) st'"
      by (rule cluster_reach.evicted [OF _ close_forgets [OF close_store(3)]]) (use step.IH in blast)
    then show ?thesis using step.IH close_store(1) by (simp add: reads_of_def)
  next
    case tick
    have "?run (p_handled p) (reads_of p) (b_store (p_broker p))" using step.IH by blast
    then have "?run (p_handled p) (reads_of p) (background (p_clock p) (b_store (p_broker p)))"
      by (rule cluster_reach.evicted) (rule background_forgets)
    then show ?thesis using step.IH tick(1) by (simp add: reads_of_def)
  qed (use step.IH in \<open>simp_all add: reads_of_def\<close>)
qed

text \<open>Only polls are answered with an artifact, and only after the checks.\<close>

lemma process_releases:
  assumes "process_reach env background now0 (New env cfg st0) p" and "stored st0 = Map.empty"
  shows "p_handled p = t1 @ (ep, r, rep) # t2 \<Longrightarrow> reply_artifact rep = Some a \<Longrightarrow>
    ep = EpPoll \<and> checked_release env (cfg_IdentityNormalizer cfg) cn r a t2"
  using assms(1)
proof (induction arbitrary: t1 rule: rtranclp_induct)
  case base
  then show ?case by (simp add: start_process_def)
next
  case (step p p')
  from step.hyps(2) show ?case
  proof cases
    case (handle xs ep' r' rd ys b w rep' b' w')
    note run = process_run [OF step.hyps(1) assms(2)]
    have rd: "rd sid = Inr s \<Longrightarrow> (sid, s) \<in> reads_of p" for sid s using handle(3) by (auto simp: reads_of_def)
    have nz: "cfg_IdentityNormalizer (b_cfg b) = cfg_IdentityNormalizer cfg" using run handle(5) by simp
    show ?thesis
    proof (cases t1)
      case Nil
      then have x: "ep' = ep" "r' = r" "rep' = rep" "t2 = p_handled p" using step.prems(1) handle(1) by simp_all
      have "ep = EpPoll"
        using cluster_artifact_poll [OF conjunct1 [OF conjunct2 [OF run]] handle(4) nz rd handle(6)] step.prems(2) x by simp
      moreover from this have "serve (reading rd env) EpPoll r b w = (rep, b', w')" using handle(6) x by simp
      ultimately show ?thesis
        using cluster_release [OF conjunct1 [OF conjunct2 [OF run]] handle(4) nz rd _ step.prems(2)] x
        unfolding checked_release_def by blast
    next
      case (Cons y t1')
      then show ?thesis using step.IH [of t1'] step.prems handle(1) by simp
    qed
  qed (use step in auto)
qed

end

section \<open>The process on its own memory\<close>

text \<open>Serving a request does not close the store.\<close>

lemma serve_keeps_open:
  assumes "identity_provider (e_idp env)" and "e_store env = Memory" and "\<And>sid s. rd sid = Inr s \<Longrightarrow> s_ID s = sid"
    and "serve (reading rd env) ep r b w = (rep, b', w')"
  shows "m_stopped (b_store b') = m_stopped (b_store b)"
proof -
  have "get_ids (e_store (reading rd env)) (b_store b)" using assms(3) by (simp add: get_ids_def)
  with assms(1) have "serve_calls (reading rd env) b (ep, r, rep) (b_store b')"
    by (intro serve_makes_calls [OF _ assms(4)]) simp_all
  then show ?thesis
    by cases (use assms(2) in \<open>auto simp: memory_defs split: option.splits dest!: arg_cong [where f = m_stopped]\<close>)
qed

lemma memory_background_simps [simp]:
  "m_stopped (memory_background now m) = m_stopped m"
  "m_sessions (memory_background now m) \<subseteq>\<^sub>m m_sessions m"
  by (auto simp: memory_background_def memory_sweep_def map_le_def dom_def split: option.splits if_splits)

lemma memory_process:
  assumes "identity_provider (e_idp env)" and "e_store env = Memory"
  shows "broker_process env m_sessions (\<lambda>c. c) memory_background"
proof (intro broker_process.intro broker_process_axioms.intro)
  show "broker_cluster env m_sessions (\<lambda>c. c)"
    using assms mem.session_store_axioms by (simp add: broker_cluster_def)
  show "st_Close (e_store env) st = Some st' \<Longrightarrow> m_sessions st' \<subseteq>\<^sub>m m_sessions st" for st st'
    using assms(2) by (auto simp: Memory_def memory_Close_def split: if_splits)
qed simp

interpretation demo_process: broker_process demo_env m_sessions "\<lambda>c. c" memory_background
  by (rule memory_process) (simp_all add: demo_env_def demo_idp_contract)

text \<open>The store is closed once, by the deferred call.\<close>

lemma store_open:
  assumes "identity_provider (e_idp env)" and "e_store env = Memory"
    and "process_reach env memory_background now0 (New env cfg NewMemory) p"
  shows "m_stopped (b_store (p_broker p)) \<longleftrightarrow> (\<exists>c. p_main p = StoreClosed c \<or> p_main p = Exited c)"
  using assms(3)
proof (induction rule: rtranclp_induct)
  case base
  then show ?case by (simp add: start_process_def NewMemory_def)
next
  case (step p p')
  note bp = memory_process [OF assms(1,2)]
  have bc: "broker_cluster env m_sessions (\<lambda>c. c)" using bp by (simp add: broker_process_def)
  have "m_sessions NewMemory = Map.empty" by (simp add: NewMemory_def)
  then have ids: "(sid, s) \<in> reads_of p \<Longrightarrow> s_ID s = sid" for sid s
    using broker_process.process_run [OF bp step.hyps(1)] broker_cluster.cluster_inv [OF bc]
    by (fastforce simp: version_ok_def)
  from step.hyps(2) show ?case
  proof cases
    case (handle xs ep r rd ys b w rep b' w')
    have "rd sid = Inr s \<Longrightarrow> s_ID s = sid" for sid s using ids handle(3) by (auto simp: reads_of_def)
    then show ?thesis using step.IH handle serve_keeps_open [OF assms(1,2) _ handle(6)] by auto
  next
    case (close_store c st')
    then show ?thesis using step.IH assms(2) by (auto simp: Memory_def memory_Close_def split: if_splits)
  qed (use step.IH in \<open>auto simp: running_def\<close>)
qed

text \<open>A request that is read and handled, and then answered.\<close>

lemma steps3: "R a b \<Longrightarrow> R b c \<Longrightarrow> R c d \<Longrightarrow> R\<^sup>*\<^sup>* a d"
  by (meson r_into_rtranclp rtranclp.rtrancl_into_rtrancl)

lemma request_handled:
  assumes "running p" and "p_shutdown p = AwaitDone" and "p_broker p = b" and "serve env ep r b w = (rep, b', w')"
  shows "(process_step env background)\<^sup>*\<^sup>* p (p\<lparr>p_pending := (ep, r, rep) # p_pending p,
    p_handled := (ep, r, rep) # p_handled p, p_broker := b'\<rparr>)"
proof -
  let ?rd = "\<lambda>sid. st_Get (e_store env) sid (instant w) (b_store b)"
  let ?p1 = "p\<lparr>p_accepted := (ep, r) # p_accepted p\<rparr>"
  let ?p2 = "?p1\<lparr>p_accepted := [] @ p_accepted p, p_reading := (ep, r, ?rd) # p_reading p\<rparr>"
  let ?p3 = "?p2\<lparr>p_reading := [] @ p_reading p, p_pending := (ep, r, rep) # p_pending p, p_handled := (ep, r, rep) # p_handled p,
    p_broker := b'\<rparr>"
  have s: "serve (reading ?rd env) ep r b w = (rep, b', w')"
    using serve_reading_now [of env w b ep r] assms(4) by (simp add: b_Get_def del: serve.simps)
  have "process_step env background p ?p1" using assms by (intro process_step.accept)
  moreover have "process_step env background ?p1 ?p2"
    using process_step.read [of ?p1 "[]" ep r "p_accepted p" env background "instant w"] assms by (simp add: running_def)
  moreover have "process_step env background ?p2 ?p3"
    using process_step.handle [OF _ _ _ _ s, of ?p2 "[]" "p_reading p" background] assms by (simp add: running_def)
  ultimately show ?thesis using steps3 [of "process_step env background" p ?p1 ?p2 ?p3] by simp
qed

lemma request_answered:
  assumes "running p" and "p_shutdown p = AwaitDone" and "p_broker p = b" and "serve env ep r b w = (rep, b', w')"
  shows "(process_step env background)\<^sup>*\<^sup>* p
    (p\<lparr>p_handled := (ep, r, rep) # p_handled p, p_broker := b', p_sent := (ep, r, rep) # p_sent p\<rparr>)"
proof -
  let ?q = "p\<lparr>p_pending := (ep, r, rep) # p_pending p, p_handled := (ep, r, rep) # p_handled p, p_broker := b'\<rparr>"
  have "process_step env background ?q (?q\<lparr>p_pending := [] @ p_pending p, p_sent := (ep, r, rep) # p_sent ?q\<rparr>)"
    using assms by (intro process_step.answer) (simp_all add: running_def)
  with request_handled [OF assms, of background] show ?thesis by (simp add: rtranclp.rtrancl_into_rtrancl)
qed

text \<open>Once \<open>ListenAndServe\<close> has returned, the process can end: closing the store never panics, since nothing closed it
  before.\<close>

lemma returned_exits:
  assumes "identity_provider (e_idp env)" and "e_store env = Memory"
    and "process_reach env memory_background now0 (New env cfg NewMemory) p" and "p_main p = Returned c"
  shows "\<exists>m. (process_step env memory_background)\<^sup>*\<^sup>* p (p\<lparr>p_broker := (p_broker p)\<lparr>b_store := m\<rparr>, p_main := Exited c\<rparr>)"
proof -
  let ?m = "(b_store (p_broker p))\<lparr>m_stopped := True\<rparr>"
  let ?q = "p\<lparr>p_main := StoreClosed c, p_broker := (p_broker p)\<lparr>b_store := ?m\<rparr>\<rparr>"
  have "\<not> m_stopped (b_store (p_broker p))" using store_open [OF assms(1-3)] assms(4) by auto
  then have "process_step env memory_background p ?q"
    using assms(2,4) by (intro process_step.close_store) (simp_all add: Memory_def memory_Close_def)
  moreover have "process_step env memory_background ?q (?q\<lparr>p_main := Exited c\<rparr>)" by (rule process_step.exit) simp
  ultimately have "(process_step env memory_background)\<^sup>*\<^sup>* p (?q\<lparr>p_main := Exited c\<rparr>)"
    by (meson r_into_rtranclp rtranclp.rtrancl_into_rtrancl)
  then show ?thesis by (intro exI [of _ ?m]) simp
qed

text \<open>A signal at any moment, and what happens if nothing else does until the process ends; and a listener that fails.\<close>

lemma interrupted:
  assumes "identity_provider (e_idp env)" and "e_store env = Memory"
    and "process_reach env memory_background now0 (New env cfg NewMemory) p" and "p_main p = Listening"
    and "p_shutdown p = AwaitDone"
  shows "\<exists>m. (process_step env memory_background)\<^sup>*\<^sup>* p
    (p\<lparr>p_signal := True, p_shutdown := Draining (p_clock p + 10 * second), p_err := Some ErrServerClosed,
       p_broker := (p_broker p)\<lparr>b_store := m\<rparr>, p_main := Exited 0\<rparr>)"
proof -
  let ?step = "process_step env memory_background"
  let ?p1 = "p\<lparr>p_signal := True\<rparr>"
  let ?p2 = "?p1\<lparr>p_shutdown := Draining (time_Add (p_clock ?p1) shutdownTimeout)\<rparr>"
  let ?p3 = "?p2\<lparr>p_err := Some ErrServerClosed, p_main := Returned (serve_exit (Some ErrServerClosed))\<rparr>"
  have "?step p ?p1" using assms(4) by (intro process_step.signal) (simp add: running_def)
  moreover have "?step ?p1 ?p2" using assms(4,5) by (intro process_step.shutdown) (simp_all add: running_def)
  moreover have "?step ?p2 ?p3" using assms(4) by (intro process_step.closed) simp_all
  ultimately have s: "?step\<^sup>*\<^sup>* p ?p3" by (rule steps3)
  obtain m where "?step\<^sup>*\<^sup>* ?p3 (?p3\<lparr>p_broker := (p_broker ?p3)\<lparr>b_store := m\<rparr>, p_main := Exited 0\<rparr>)"
    using returned_exits [OF assms(1,2) rtranclp_trans [OF assms(3) s], of 0] by (auto simp: serve_exit_def)
  then have "?step\<^sup>*\<^sup>* p (?p3\<lparr>p_broker := (p_broker ?p3)\<lparr>b_store := m\<rparr>, p_main := Exited 0\<rparr>)" using s by (rule rtranclp_trans [rotated])
  then show ?thesis by (intro exI [of _ m]) (simp add: shutdownTimeout_def time_Add_def)
qed



section \<open>A login in a process\<close>

text \<open>The login of theory \<open>Broker_Demo\<close>: its answers are sent but for the last one, which is ready.\<close>

definition demo_life :: "(memory, unit) process" where
  "demo_life = (start_process 0 demo_broker)\<lparr>p_sent := demo_trace, p_pending := [(EpPoll, demo_poll_request, fst demo_out5)],
     p_handled := (EpPoll, demo_poll_request, fst demo_out5) # demo_trace, p_broker := fst (snd demo_out5)\<rparr>"

lemma demo_life_reach: "process_reach demo_env memory_background 0 (New demo_env demo_cfg NewMemory) demo_life"
proof -
  let ?at = "\<lambda>n b. (start_process 0 demo_broker)\<lparr>p_handled := drop n demo_trace, p_broker := b, p_sent := drop n demo_trace\<rparr>"
  let ?steps = "(process_step demo_env memory_background)\<^sup>*\<^sup>*"
  note [simp] = running_def start_process_def demo_trace_def
  have "?steps (start_process 0 demo_broker) (?at 3 (fst (snd demo_out1)))"
    using request_answered [OF _ _ _ demo_outs(1), of "start_process 0 demo_broker"] by simp
  also have "?steps \<dots> (?at 2 (fst (snd demo_out2)))"
    using request_answered [OF _ _ _ demo_outs(2), of "?at 3 (fst (snd demo_out1))"] by simp
  also have "?steps \<dots> (?at 1 (fst (snd demo_out3)))"
    using request_answered [OF _ _ _ demo_outs(3), of "?at 2 (fst (snd demo_out2))"] by simp
  also have "?steps \<dots> (?at 0 (fst (snd demo_out4)))"
    using request_answered [OF _ _ _ demo_outs(4), of "?at 1 (fst (snd demo_out3))"] by simp
  also have "?steps \<dots> demo_life"
    using request_handled [OF _ _ _ demo_outs(5), of "?at 0 (fst (snd demo_out4))"] by (simp add: demo_life_def)
  finally show ?thesis by (simp add: demo_broker_def)
qed

lemma demo_env_memory: "identity_provider (e_idp demo_env)" "e_store demo_env = Memory"
  by (simp_all add: demo_env_def demo_idp_contract)

lemma demo_life_parts: "p_main demo_life = Listening" "p_shutdown demo_life = AwaitDone" "p_clock demo_life = 0"
  by (simp_all add: demo_life_def start_process_def)

section \<open>Properties\<close>

text \<open>C8: What the process sends. Let the server of \<open>xdauth-broker\<close> run on its in-memory store, with requests read, handled
  and answered in any order and overlapping in any way, the sweeper at work, clients that hang up, up to and
  during the shutdown. Every answer that was sent or is ready was made for one request that was handled, and no
  request has two. If it carries an artifact, then the request was a poll, and of the requests handled before it, in
  this order: a start request brought the S256 challenge of the poll's verifier; a browser with the session's cookie
  completed a login whose verified identity equals the login hint of that start request after normalisation, and got an
  approval cookie; a browser with that session's cookie and an approval cookie of the same hash approved with the session's
  code. The artifact carries exactly the verified identity.\<close>

theorem process_releases_after_checks:
  assumes "identity_provider (e_idp env)" and "e_store env = Memory"
    and "process_reach env memory_background now0 (New env cfg NewMemory) p"
  shows "mset (p_sent p @ p_pending p) \<subseteq># mset (p_handled p) \<and>
    (\<forall>ep r rep a. (ep, r, rep) \<in> set (p_sent p @ p_pending p) \<and> reply_artifact rep = Some a \<longrightarrow>
      ep = EpPoll \<and>
      (\<exists>later sooner. p_handled p = later @ (ep, r, rep) # sooner \<and>
        checked_release env (cfg_IdentityNormalizer cfg) (\<lambda>c. c) r a sooner))"
proof -
  note bp = memory_process [OF assms(1,2)]
  have empty: "m_sessions NewMemory = Map.empty" by (simp add: NewMemory_def)
  have sub: "mset (p_sent p @ p_pending p) \<subseteq># mset (p_handled p)"
    using broker_process.process_run [OF bp assms(3) empty] by blast
  have "ep = EpPoll \<and> (\<exists>later sooner. p_handled p = later @ (ep, r, rep) # sooner \<and>
      checked_release env (cfg_IdentityNormalizer cfg) (\<lambda>c. c) r a sooner)"
    if x: "(ep, r, rep) \<in> set (p_sent p @ p_pending p)" and a: "reply_artifact rep = Some a" for ep r rep a
  proof -
    have "(ep, r, rep) \<in> set (p_handled p)" using set_mset_mono [OF sub] x by auto
    then obtain later sooner where h: "p_handled p = later @ (ep, r, rep) # sooner" by (meson split_list)
    then show ?thesis using broker_process.process_releases [OF bp assms(3) empty h a] by blast
  qed
  with sub show ?thesis by blast
qed

theorem process_releases_after_checks_witness:
  "\<exists>r a sooner. (EpPoll, r, fst demo_out5) \<in> set (p_pending demo_life) \<and> reply_artifact (fst demo_out5) = Some a \<and>
    checked_release demo_env None (\<lambda>c. c) r a sooner"
proof -
  have x: "(EpPoll, demo_poll_request, fst demo_out5) \<in> set (p_sent demo_life @ p_pending demo_life)"
    by (simp add: demo_life_def)
  obtain sooner where "checked_release demo_env (cfg_IdentityNormalizer demo_cfg) (\<lambda>c. c) demo_poll_request demo_artifact sooner"
    using process_releases_after_checks [OF demo_env_memory demo_life_reach] x demo_released by blast
  then show ?thesis using demo_released by (auto simp: demo_life_def demo_cfg_def)
qed

text \<open>So it is for the program as configured by its flags and environment, whichever protocol it speaks: the identity behind an
  artifact equals the login hint up to surrounding space and case.\<close>

corollary shipped_process_releases:
  assumes "broker_run fuel ctxDone OX SX newClient getenv readFile fl w0 = Some (Serving sv, w0')"
    and "e_idp env = sv_idp sv" and "e_store env = Memory"
    and "process_reach env memory_background now0 (New env (sv_cfg sv) NewMemory) p"
    and "p_handled p = later @ (ep, r, rep) # sooner" and "reply_artifact rep = Some a"
  shows "ep = EpPoll \<and> checked_release env None (\<lambda>c. c) r a sooner"
proof -
  have bp: "broker_process env m_sessions (\<lambda>c. c) memory_background"
    using serving_provider [OF assms(1)] assms(2,3) by (simp add: memory_process)
  have nz: "cfg_IdentityNormalizer (sv_cfg sv) = None"
    using assms(1) by (rule serving_parts) (simp add: broker_config_def)
  show ?thesis using broker_process.process_releases [OF bp assms(4) _ assms(5,6)] nz by (simp add: NewMemory_def)
qed



text \<open>C33: The shutdown waits for nothing. \<open>ListenAndServe\<close> returns as soon as \<open>Shutdown\<close> is called and \<open>run\<close> returns with
  it: from any moment at which the server is listening, a signal can end the process with code 0 at that very instant, with
  \<open>Shutdown\<close> still draining and ten seconds left, and with every request that was read, every handler in progress and
  every answer that was ready as they were. Nothing happens after that, so those answers are never sent.\<close>

theorem shutdown_does_not_drain:
  assumes "identity_provider (e_idp env)" and "e_store env = Memory"
    and "process_reach env memory_background now0 (New env cfg NewMemory) p" and "p_main p = Listening"
    and "p_shutdown p = AwaitDone"
  shows "\<exists>p'. (process_step env memory_background)\<^sup>*\<^sup>* p p' \<and> p_main p' = Exited 0 \<and> p_clock p' = p_clock p \<and>
    p_shutdown p' = Draining (p_clock p + 10 * second) \<and>
    p_accepted p' = p_accepted p \<and> p_reading p' = p_reading p \<and> p_pending p' = p_pending p \<and> p_sent p' = p_sent p \<and>
    (\<forall>p''. (process_step env memory_background)\<^sup>*\<^sup>* p' p'' \<longrightarrow> p'' = p')"
proof -
  obtain p' where p': "(process_step env memory_background)\<^sup>*\<^sup>* p p'" "p_main p' = Exited 0" "p_clock p' = p_clock p"
      "p_shutdown p' = Draining (p_clock p + 10 * second)" "p_accepted p' = p_accepted p" "p_reading p' = p_reading p"
      "p_pending p' = p_pending p" "p_sent p' = p_sent p"
    using interrupted [OF assms] by fastforce
  then have "\<forall>p''. (process_step env memory_background)\<^sup>*\<^sup>* p' p'' \<longrightarrow> p'' = p'"
    using no_step_after_exit converse_rtranclpE by metis
  with p' show ?thesis by blast
qed

theorem shutdown_does_not_drain_witness:
  "\<exists>p'. (process_step demo_env memory_background)\<^sup>*\<^sup>* demo_life p' \<and> p_main p' = Exited 0 \<and> p_clock p' = 0 \<and>
    artifact_for demo_sid (hd (p_pending p')) \<and> p_sent p' = demo_trace"
proof -
  have "artifact_for demo_sid (hd (p_pending demo_life))" "p_sent demo_life = demo_trace"
    by (simp_all add: demo_life_def demo_released demo_poll_decoded)
  then show ?thesis
    using shutdown_does_not_drain [OF demo_env_memory demo_life_reach demo_life_parts(1,2)] demo_life_parts(3) by metis
qed

end
