(* ===== verification/Handler_Props.thy ===== *)
theory Handler_Props
  imports Broker_Demo
begin

text \<open>
  Properties of single handlers: the gates of \<open>/auth/start\<close>, who is shown the approval page's token,
  what a form without it does, what a poll of an unknown session learns, and the headers and cookies
  of every answer.
\<close>

section \<open>Inversion of handleStart\<close>

lemma handleStart_session:
  assumes "handleStart env r b w = (rep, b', w')" and "reply_start rep \<noteq> None"
  obtains vc q ipL hintL w1 w2 w3 b3 where
    "client_gate (b_cfg b) r = Some vc" "decode_startRequest (r_Body r) = Some q"
    "sq_LoginHint q \<noteq> ''''" "sq_CodeChallenge q \<noteq> ''''"
    "sq_CodeChallengeMethod q = '''' \<or> sq_CodeChallengeMethod q = ''S256''"
    "isAllowedClient (resolveClientIP r (cfg_TrustedProxies (b_cfg b))) (cfg_AllowedClientCIDRs (b_cfg b))"
    "limiter_Allow (e_rate env) (resolveClientIP r (cfg_TrustedProxies (b_cfg b))) (b_ipLimiter b) w1 = (True, ipL, w2)"
    "limiter_Allow (e_rate env) (sq_LoginHint q) (b_hintLimiter b) w2 = (True, hintL, w3)"
    "b_cfg b3 = b_cfg b" "b_store b3 = b_store b"
    "start_session env q vc (resolveClientIP r (cfg_TrustedProxies (b_cfg b))) b3 w3 = (rep, b', w')"
proof -
  obtain vc where vc: "client_gate (b_cfg b) r = Some vc"
    using assms by (cases "client_gate (b_cfg b) r") (auto simp: handleStart_def)
  obtain q where q: "decode_startRequest (r_Body r) = Some q"
    using assms vc by (cases "decode_startRequest (r_Body r)") (auto simp: handleStart_def)
  define ip where "ip = resolveClientIP r (cfg_TrustedProxies (b_cfg b))"
  obtain now w1 where t: "time_Now w = (now, w1)" by fastforce
  define b1 where "b1 = detector_Observe EventRepeatedStart (sq_LoginHint q) '''' now b"
  obtain ok1 ipL w2 where l1: "limiter_Allow (e_rate env) ip (b_ipLimiter b) w1 = (ok1, ipL, w2)"
    by (metis prod_cases3)
  obtain ok2 hintL w3 where l2: "limiter_Allow (e_rate env) (sq_LoginHint q) (b_hintLimiter b) w2 = (ok2, hintL, w3)"
    by (metis prod_cases3)
  define b3 where "b3 = b1\<lparr>b_ipLimiter := ipL, b_hintLimiter := hintL\<rparr>"
  have present: "sq_LoginHint q \<noteq> '''' \<and> sq_CodeChallenge q \<noteq> ''''"
    using assms vc q by (auto simp: handleStart_def)
  have meth: "sq_CodeChallengeMethod q = '''' \<or> sq_CodeChallengeMethod q = ''S256''"
    using assms vc q by (auto simp: handleStart_def split: if_splits)
  note h = assms(1) [unfolded handleStart_def vc q t option.case prod.case Let_def ip_def [symmetric] b1_def [symmetric]]
  have net: "isAllowedClient ip (cfg_AllowedClientCIDRs (b_cfg b))"
    using h present meth assms(2) by (auto split: if_splits)
  have ok: "ok1" "ok2"
    using h present meth net assms(2) l1 l2 by (auto simp: b1_def split: if_splits)
  have "start_session env q vc ip b3 w3 = (rep, b', w')"
    using h present meth net l1 l2 ok by (auto simp: b3_def b1_def)
  moreover have "b_cfg b3 = b_cfg b" "b_store b3 = b_store b" by (simp_all add: b3_def b1_def)
  ultimately show ?thesis
    using that [of vc q w1 ipL w2 hintL w3 b3] vc q present meth net l1 l2 ok by (simp add: ip_def)
qed

lemma start_session_created:
  assumes "start_session env q vc ip b w = (rep, b', w')" and "reply_start rep = Some sr"
  obtains s0 w1 where
    "newSession \<lparr>sp_LoginHint = sq_LoginHint q, sp_CodeChallenge = sq_CodeChallenge q,
       sp_ClientKind = sq_ClientKind q, sp_ClientHost = sq_ClientHost q, sp_ClientIP = ip,
       sp_VerifiedClient = vc\<rparr> (cfg_SessionTTL (b_cfg b)) (cfg_PollInterval (b_cfg b)) w = (Some s0, w1)"
    "b_store b' = b_store (snd (b_Create env s0 w1 b))"
    "sr = \<lparr>sr_SessionID = s_ID s0, sr_VerificationURI = cfg_BaseURL (b_cfg b) @ ''/auth/verify/'' @ s_ID s0,
       sr_UserCode = s_UserCode s0, sr_ExpiresIn = duration_Seconds (cfg_SessionTTL (b_cfg b)),
       sr_Interval = duration_Seconds (cfg_PollInterval (b_cfg b))\<rparr>"
  using assms by (auto simp: start_session_def split: prod.splits option.splits)

section \<open>Properties\<close>

text \<open>C14: The gates of \<open>/auth/start\<close>. A start request is answered with a session only if the client
  authenticator (when configured) accepted it, the login hint and the challenge are present, the
  challenge method is S256 or absent, the client address lies in an allowed network, and both rate
  limiters, the one of the address first, let it pass. The stored session then has the resolved
  address, the verified client and the configured lifetimes, and the answer its id, code and link.\<close>

theorem start_requires_all_gates:
  assumes "e_store env = Memory" and "serve env EpStart r b w = (rep, b', w')" and "reply_start rep = Some sr"
  defines "ip \<equiv> resolveClientIP r (cfg_TrustedProxies (b_cfg b))"
  shows "\<exists>vc q s0 w1 w2.
    client_gate (b_cfg b) r = Some vc \<and> decode_startRequest (r_Body r) = Some q \<and>
    sq_LoginHint q \<noteq> '''' \<and> sq_CodeChallenge q \<noteq> '''' \<and>
    (sq_CodeChallengeMethod q = '''' \<or> sq_CodeChallengeMethod q = ''S256'') \<and>
    isAllowedClient ip (cfg_AllowedClientCIDRs (b_cfg b)) \<and>
    fst (limiter_Allow (e_rate env) ip (b_ipLimiter b) w1) \<and>
    fst (limiter_Allow (e_rate env) (sq_LoginHint q) (b_hintLimiter b) w2) \<and>
    m_sessions (b_store b') = (m_sessions (b_store b))(sr_SessionID sr \<mapsto> s0) \<and>
    s_State s0 = StatePending \<and> s_LoginHint s0 = sq_LoginHint q \<and> s_CodeChallenge s0 = sq_CodeChallenge q \<and>
    s_ClientIP s0 = ip \<and> s_VerifiedClient s0 = vc \<and>
    s_ExpiresAt s0 = s_CreatedAt s0 + cfg_SessionTTL (b_cfg b) \<and> s_Interval s0 = cfg_PollInterval (b_cfg b) \<and>
    sr_UserCode sr = s_UserCode s0 \<and> wf_code (sr_UserCode sr) \<and>
    sr_VerificationURI sr = cfg_BaseURL (b_cfg b) @ ''/auth/verify/'' @ sr_SessionID sr"
proof -
  from assms(2,3) have "handleStart env r b w = (rep, b', w')" "reply_start rep \<noteq> None" by simp_all
  then obtain vc q ipL hintL w1 w2 w3 b3 where g:
    "client_gate (b_cfg b) r = Some vc" "decode_startRequest (r_Body r) = Some q"
    "sq_LoginHint q \<noteq> ''''" "sq_CodeChallenge q \<noteq> ''''"
    "sq_CodeChallengeMethod q = '''' \<or> sq_CodeChallengeMethod q = ''S256''"
    "isAllowedClient ip (cfg_AllowedClientCIDRs (b_cfg b))"
    "limiter_Allow (e_rate env) ip (b_ipLimiter b) w1 = (True, ipL, w2)"
    "limiter_Allow (e_rate env) (sq_LoginHint q) (b_hintLimiter b) w2 = (True, hintL, w3)"
    "b_cfg b3 = b_cfg b" "b_store b3 = b_store b" "start_session env q vc ip b3 w3 = (rep, b', w')"
    unfolding ip_def by (rule handleStart_session)
  obtain s0 w4 where s0: "newSession \<lparr>sp_LoginHint = sq_LoginHint q, sp_CodeChallenge = sq_CodeChallenge q,
       sp_ClientKind = sq_ClientKind q, sp_ClientHost = sq_ClientHost q, sp_ClientIP = ip,
       sp_VerifiedClient = vc\<rparr> (cfg_SessionTTL (b_cfg b3)) (cfg_PollInterval (b_cfg b3)) w3 = (Some s0, w4)"
    "b_store b' = b_store (snd (b_Create env s0 w4 b3))"
    "sr = \<lparr>sr_SessionID = s_ID s0, sr_VerificationURI = cfg_BaseURL (b_cfg b3) @ ''/auth/verify/'' @ s_ID s0,
       sr_UserCode = s_UserCode s0, sr_ExpiresIn = duration_Seconds (cfg_SessionTTL (b_cfg b3)),
       sr_Interval = duration_Seconds (cfg_PollInterval (b_cfg b3))\<rparr>"
    using g(11) assms(3) by (rule start_session_created)
  have "m_sessions (b_store b') = (m_sessions (b_store b))(s_ID s0 \<mapsto> s0)"
    using s0(2) g(10) assms(1) by (simp add: b_Create_def Memory_def memory_Create_def)
  moreover from s0(1) have "s_State s0 = StatePending" "s_LoginHint s0 = sq_LoginHint q"
    "s_CodeChallenge s0 = sq_CodeChallenge q" "s_ClientIP s0 = ip" "s_VerifiedClient s0 = vc"
    "s_ExpiresAt s0 = s_CreatedAt s0 + cfg_SessionTTL (b_cfg b)" "s_Interval s0 = cfg_PollInterval (b_cfg b)"
    "wf_code (s_UserCode s0)"
    using g(9) by (auto elim!: newSession_Some)
  moreover have "fst (limiter_Allow (e_rate env) ip (b_ipLimiter b) w1)"
    "fst (limiter_Allow (e_rate env) (sq_LoginHint q) (b_hintLimiter b) w2)" using g(7,8) by simp_all
  moreover have "sr_SessionID sr = s_ID s0" "sr_UserCode sr = s_UserCode s0"
    "sr_VerificationURI sr = cfg_BaseURL (b_cfg b) @ ''/auth/verify/'' @ sr_SessionID sr"
    using s0(3) g(9) by simp_all
  ultimately show ?thesis using g(1-6) by metis
qed

theorem start_requires_all_gates_witness:
  "\<exists>vc q s0. client_gate (b_cfg demo_broker) demo_start = Some vc \<and>
     decode_startRequest (r_Body demo_start) = Some q \<and>
     m_sessions (b_store (fst (snd demo_out1))) = (m_sessions (b_store demo_broker))(sr_SessionID demo_sr \<mapsto> s0) \<and>
     s_LoginHint s0 = sq_LoginHint q \<and> s_VerifiedClient s0 = vc \<and> wf_code (sr_UserCode demo_sr)"
proof -
  have "reply_start (fst demo_out1) = Some demo_sr" using demo_started by blast
  from start_requires_all_gates [OF demo_env_parts(2) demo_outs(1) this] show ?thesis by blast
qed

text \<open>C15: A form without the token does nothing. A submission to \<open>/auth/approve\<close> whose token is not the
  session's, or for a session that has none yet, is answered with an error page and changes neither the
  store nor anything else of the broker.\<close>

theorem approve_without_token_is_inert:
  assumes "e_store env = Memory" and "readSessionCookie r = Some sid" and "m_sessions (b_store b) sid = Some s"
    and "s_CSRFToken s = '''' \<or> r_FormValue r ''csrf_token'' \<noteq> s_CSRFToken s"
  shows "\<exists>page. serve env EpApprove r b w = (Reply page, b, w) \<and> (rs_Status page = 400 \<or> rs_Status page = 403) \<and>
    rs_Cookies page = []"
proof -
  have "b_Get env sid w b = Inr s" using assms(1,3) by (simp add: b_Get_def memory_defs)
  then show ?thesis
    using assms(2,4)
    by (auto simp: handleApprove_def constantTimeStringEqual_iff Let_def renderResult_def)
qed

theorem approve_without_token_is_inert_witness:
  "\<exists>page. serve demo_env EpApprove demo_callback (demo_broker\<lparr>b_store := snd (memory_Create
       (demo_stored\<lparr>s_ID := demo_sid\<rparr>) 0 NewMemory)\<rparr>) demo_world =
     (Reply page, demo_broker\<lparr>b_store := snd (memory_Create (demo_stored\<lparr>s_ID := demo_sid\<rparr>) 0 NewMemory)\<rparr>, demo_world) \<and>
     (rs_Status page = 400 \<or> rs_Status page = 403) \<and> rs_Cookies page = []"
  by (rule approve_without_token_is_inert [OF demo_env_parts(2) demo_session_cookie(1),
        where s = "demo_stored\<lparr>s_ID := demo_sid\<rparr>"])
    (simp_all add: memory_Create_def NewMemory_def demo_stored_def)

text \<open>An unknown session looks like an expired one. A poll of an id that is not stored and a poll of a
  session whose time ran out before it was decided get the same answer, so polling does not tell ids that
  never existed from expired ones.\<close>

theorem unknown_session_looks_expired:
  assumes "e_store env = Memory" and "decode_pollRequest (r_Body r) = Some q" and "pq_SessionID q \<noteq> ''''"
    and "m_sessions (b_store b1) (pq_SessionID q) = None"
    and "m_sessions (b_store b2) (pq_SessionID q) = Some s"
    and "s_State s \<noteq> StateApproved" and "s_State s \<noteq> StateDenied" and "s_ExpiresAt s < instant w"
  shows "fst (serve env EpPoll r b1 w) = fst (serve env EpPoll r b2 w)"
proof -
  obtain now w1 where t: "time_Now w = (now, w1)" "now = instant w" by (simp add: time_Now_def instant_def)
  have "\<exists>s1. poll v now ttl s = (poll_status PollExpired, s1)" for v ttl
    using assms(6-8) t(2) by (cases rule: expireIfNeeded_cases [of s now]) (auto simp: poll_def)
  then obtain s1 where p: "poll (pq_CodeVerifier q) now (cfg_ArtifactTTL (b_cfg b2)) s = (poll_status PollExpired, s1)"
    by blast
  have g: "\<exists>e. b_Get env (pq_SessionID q) w b1 = Inl e" "b_Get env (pq_SessionID q) w b2 = Inr s"
    using assms(1,4,5) by (simp_all add: b_Get_def memory_defs)
  show ?thesis
    using assms(2,3) g t(1) p
    by (auto simp: handlePoll_def Let_def poll_status_def poll_reply_def split: prod.splits)
qed

theorem unknown_session_looks_expired_witness:
  "(let old = demo_broker\<lparr>b_store := snd (memory_Create (demo_stored\<lparr>s_ID := demo_sid\<rparr>) 0 NewMemory)\<rparr>;
        late = demo_world\<lparr>w_clock := (\<lambda>i. 2000 * second)\<rparr>
    in fst (serve demo_env EpPoll demo_poll_request demo_broker late) =
       fst (serve demo_env EpPoll demo_poll_request old late))"
  unfolding Let_def
  by (rule unknown_session_looks_expired [OF demo_env_parts(2) demo_poll_decoded,
        where s = "demo_stored\<lparr>s_ID := demo_sid\<rparr>"])
    (use demo_sid_nonempty in \<open>simp_all add: memory_Create_def NewMemory_def demo_stored_def demo_broker_def instant_def\<close>)

text \<open>Every answer under \<open>/auth\<close> forbids caching, scripts and framing: whatever route matched below
  \<open>/auth\<close>, the answer carries the no-store, content-security, no-sniff and no-referrer headers.\<close>

theorem auth_answers_carry_security_headers:
  assumes "chi_match (map (\<lambda>(m, p, ep). (m, p)) routes) r = Some i" and "0 < i" and "i < length routes"
    and "fst (Router env chi_match chi_none r b w) = Reply x"
  shows "{(''Cache-Control'', ''no-store''),
     (''Content-Security-Policy'', ''default-src 'none'; style-src 'unsafe-inline'; base-uri 'none'; form-action 'self'; frame-ancestors 'none'' @ [CHR 0x27]),
     (''X-Content-Type-Options'', ''nosniff''), (''Referrer-Policy'', ''no-referrer'')} \<subseteq> set (rs_Header x)"
proof -
  have "i \<in> {1, 2, 3, 4, 5, 6}" using assms(2,3) by (auto simp: routes_def)
  then have ep: "snd (snd (routes ! i)) \<noteq> EpHealthz" by (auto simp: routes_def)
  obtain rep b' w' where s: "serve env (snd (snd (routes ! i))) r b w = (rep, b', w')" by (metis prod_cases3)
  show ?thesis
    using assms(1,3,4) ep s
    by (cases rep) (auto simp: Router_def noStoreMiddleware_def cspMiddleware_def add_headers_def Let_def)
qed

theorem auth_answers_carry_security_headers_witness:
  "(''Cache-Control'', ''no-store'') \<in> set (rs_Header (case fst (Router demo_env (\<lambda>rs r. Some 3) (\<lambda>_. Panicked)
     blank_request demo_broker demo_world) of Reply x \<Rightarrow> x))"
proof -
  have "\<exists>x. fst (Router demo_env (\<lambda>rs r. Some 3) (\<lambda>_. Panicked) blank_request demo_broker demo_world) = Reply x"
    by (simp add: Router_def routes_def noStoreMiddleware_def cspMiddleware_def add_headers_def
        handleIdPResponse_def readSessionCookie_def r_Cookie_def blank_request_def eval_nat_numeral)
  then obtain x where x: "fst (Router demo_env (\<lambda>rs r. Some 3) (\<lambda>_. Panicked) blank_request demo_broker demo_world) = Reply x"
    by blast
  then show ?thesis
    using auth_answers_carry_security_headers [of "\<lambda>rs r. Some 3" blank_request 3 demo_env "\<lambda>_. Panicked" demo_broker demo_world x]
    by (simp add: routes_def)
qed

definition hardened :: "request \<Rightarrow> cookie \<Rightarrow> bool" where
  "hardened r c \<longleftrightarrow> c_HttpOnly c \<and> (c_Path c = ''/'' \<or> c_MaxAge c < 0 \<and> c_Value c = '''') \<and>
     (r_TLS r \<noteq> None \<longrightarrow> c_Secure c) \<and> (c_SameSite c = SameSiteNoneMode \<longrightarrow> c_Secure c)"

lemma cookies_of_pages [simp]:
  "rs_Cookies (renderResult st ti ms) = []" "rs_Cookies (renderApprove s url) = []"
  "rs_Cookies (writeJSON st v) = []" "rs_Cookies (writeJSONError st cd ms) = []"
  "rs_Cookies (http_Redirect u st) = []" "rs_Cookies (with_cookies cs x) = cs @ rs_Cookies x"
  by (simp_all add: renderResult_def renderApprove_def writeJSON_def writeJSONError_def http_Redirect_def
      with_cookies_def)

lemma set_cookies_hardened:
  "c \<in> set (setSessionCookie r sid) \<Longrightarrow> hardened r c" "c \<in> set (setApprovalCookie r secret) \<Longrightarrow> hardened r c"
  by (auto simp: setSessionCookie_def setApprovalCookie_def hardened_def request_secure_def cookie_same_site_def
      Let_def split: if_splits)

text \<open>C19: Every cookie the broker sets is HTTP-only, has the root path or is the clearing of an old one, is
  secure whenever the request came over TLS, and is sent cross-site only when it is secure.\<close>

theorem cookies_are_hardened:
  assumes "serve env ep r b w = (Reply x, b', w')"
  shows "list_all (hardened r) (rs_Cookies x)"
proof -
  have "c \<in> set (rs_Cookies x) \<Longrightarrow> hardened r c" for c
  proof (cases ep)
    case EpStart
    then show "c \<in> set (rs_Cookies x) \<Longrightarrow> hardened r c" using assms
      by (auto simp: handleStart_def start_session_def Let_def split: option.splits prod.splits if_splits)
  next
    case EpVerify
    then show "c \<in> set (rs_Cookies x) \<Longrightarrow> hardened r c" using assms set_cookies_hardened
      by (auto simp: handleVerify_def begin_login_def Let_def
          split: sum.splits prod.splits if_splits option.splits state.splits)
  next
    case EpIdPResponse
    then show "c \<in> set (rs_Cookies x) \<Longrightarrow> hardened r c" using assms set_cookies_hardened
      by (auto simp: handleIdPResponse_def finish_login_def Let_def
          split: sum.splits prod.splits if_splits option.splits)
  next
    case EpApprove
    then show "c \<in> set (rs_Cookies x) \<Longrightarrow> hardened r c" using assms
      by (auto simp: handleApprove_def approve_reply_def Let_def
          split: sum.splits prod.splits if_splits option.splits)
  next
    case EpPoll
    then show "c \<in> set (rs_Cookies x) \<Longrightarrow> hardened r c" using assms
      by (auto simp: handlePoll_def poll_reply_def Let_def
          split: sum.splits prod.splits if_splits option.splits poll_outcome.splits)
  qed (use assms in auto)
  then show ?thesis by (simp add: list_all_iff)
qed

theorem cookies_are_hardened_witness:
  "(case fst demo_out3 of Reply x \<Rightarrow> list_all (hardened demo_callback) (rs_Cookies x) | Panicked \<Rightarrow> False)"
proof -
  have "reply_cookies (fst demo_out3) \<noteq> []" using demo_approval_page by auto
  then obtain x where x: "fst demo_out3 = Reply x" by (cases "fst demo_out3") auto
  have "list_all (hardened demo_callback) (rs_Cookies x)"
    using cookies_are_hardened [OF demo_outs(3) [unfolded x]] .
  then show ?thesis using x by simp
qed

section \<open>Who sees the token of the approval page\<close>

lemma approve_keeps_token: "s_CSRFToken (snd (approve u c d now p s)) = s_CSRFToken s"
proof -
  obtain e s1 where a: "approve u c d now p s = (e, s1)" by fastforce
  then show ?thesis by (cases rule: approve_cases) (use a in simp_all)
qed

lemma reply_csrf_simps [simp]:
  "reply_csrf Panicked = None" "reply_csrf (Reply (renderResult st ti ms)) = None"
  "reply_csrf (Reply (writeJSON st (BodyStart q))) = None" "reply_csrf (Reply (writeJSON st (BodyPoll p))) = None"
  "reply_csrf (Reply (writeJSONError st cd ms)) = None" "reply_csrf (Reply (http_Redirect u st)) = None"
  "reply_csrf (Reply (with_cookies cs x)) = reply_csrf (Reply x)"
  "reply_csrf (Reply (renderApprove s url)) = Some (s_CSRFToken s)"
  by (simp_all add: reply_csrf_def renderResult_def writeJSON_def writeJSONError_def http_Redirect_def
      with_cookies_def renderApprove_def)

text \<open>A completed login that shows a page: the session of the browser's cookie was pending, the provider verified an identity
  that equals its login hint after normalisation, and what is stored is that session with the identity, the page's token
  and the hash of the one cookie the answer sets.\<close>

definition completed_login ::
  "('st, 'l) env \<Rightarrow> request \<Rightarrow> ('st, 'l) broker \<Rightarrow> world \<Rightarrow> reply \<Rightarrow> ('st, 'l) broker \<Rightarrow> string \<Rightarrow> bool" where
  "completed_login env r b w rep b' token \<longleftrightarrow>
     (\<exists>sid s ident secret w1 w2 s1 w3.
        readSessionCookie r = Some sid \<and> b_Get env sid w b = Inr s \<and> s_State s = StatePending \<and>
        idp_CompleteLogin (e_idp env) r s w1 = (Inr ident, w2) \<and>
        normalizer_or_default (e_unicode env) (cfg_IdentityNormalizer (b_cfg b)) (id_Value ident) =
          normalizer_or_default (e_unicode env) (cfg_IdentityNormalizer (b_cfg b)) (s_LoginHint s) \<and>
        reply_cookies rep = [(approvalCookieName, secret)] \<and>
        s1 = s\<lparr>s_Identity := Some ident, s_IdentityAt := instant w, s_CSRFToken := token,
          s_ApprovalBindingHash := hashBinding secret, s_State := StateAwaitingApproval\<rparr> \<and>
        b_store b' = b_store (snd (b_Update env s1 w3 b)))"

lemma bindIdentity_None:
  assumes "bindIdentity u nz ident now h s w = (None, s1, w1)"
  shows "s_State s = StatePending \<and> normalizer_or_default u nz (id_Value ident) = normalizer_or_default u nz (s_LoginHint s) \<and>
    (\<exists>token. s1 = s\<lparr>s_Identity := Some ident, s_IdentityAt := now, s_CSRFToken := token, s_ApprovalBindingHash := h,
      s_State := StateAwaitingApproval\<rparr>)"
  using assms by (auto simp: bindIdentity_def Let_def expireIfNeeded_def split: if_splits prod.splits option.splits)

lemma finish_login_page:
  assumes "finish_login env r s ident now b w = (rep, b', w')" and "reply_csrf rep = Some token"
  obtains secret w0 s1 w2 where "bindIdentity (e_unicode env) (cfg_IdentityNormalizer (b_cfg b)) ident now (hashBinding secret) s w0 =
      (None, s1, w2)" "token = s_CSRFToken s1" "reply_cookies rep = [(approvalCookieName, secret)]"
    "b_store b' = b_store (snd (b_Update env s1 w2 b))"
proof -
  obtain secret w0 where sec: "newApprovalSecret w = (Some secret, w0)"
    using assms by (auto simp: finish_login_def split: option.splits prod.splits)
  obtain e s1 w2 where bi: "bindIdentity (e_unicode env) (cfg_IdentityNormalizer (b_cfg b)) ident now (hashBinding secret) s w0 =
      (e, s1, w2)" by (metis prod_cases3)
  have "e = None" using assms sec bi by (cases e) (auto simp: finish_login_def Let_def split: if_splits)
  then show ?thesis
    using that [of secret w0 s1 w2] assms sec bi
    by (auto simp: finish_login_def reply_cookies_def setApprovalCookie_def Let_def)
qed

lemma callback_page:
  assumes "handleIdPResponse env r b w = (rep, b', w')" and "reply_csrf rep = Some token"
  shows "completed_login env r b w rep b' token"
proof -
  obtain sid where sid: "readSessionCookie r = Some sid"
    using assms by (cases "readSessionCookie r") (auto simp: handleIdPResponse_def)
  obtain s where s: "b_Get env sid w b = Inr s"
    using assms sid by (cases "b_Get env sid w b") (auto simp: handleIdPResponse_def)
  obtain w1 where t: "time_Now w = (instant w, w1)" by (simp add: time_Now_def instant_def)
  obtain ex s' where x: "expireIfNeeded s (instant w) = (ex, s')" by fastforce
  have "\<not> ex" using assms sid s t x by (auto simp: handleIdPResponse_def)
  then have s': "s' = s" using x by (auto dest: expireIfNeeded_False)
  have st: "s_State s = StatePending" using assms sid s t x s' \<open>\<not> ex\<close> by (auto simp: handleIdPResponse_def split: if_splits)
  obtain res w2 where cl: "idp_CompleteLogin (e_idp env) r s w1 = (res, w2)" by fastforce
  then obtain ident where res: "res = Inr ident"
    using assms sid s t x s' st \<open>\<not> ex\<close> by (cases res) (auto simp: handleIdPResponse_def)
  have "finish_login env r s ident (instant w) b w2 = (rep, b', w')"
    using assms(1) sid s t x s' st cl res \<open>\<not> ex\<close> by (simp add: handleIdPResponse_def)
  then obtain secret w0 s1 w3 where f: "bindIdentity (e_unicode env) (cfg_IdentityNormalizer (b_cfg b)) ident (instant w)
      (hashBinding secret) s w0 = (None, s1, w3)" "token = s_CSRFToken s1" "reply_cookies rep = [(approvalCookieName, secret)]"
      "b_store b' = b_store (snd (b_Update env s1 w3 b))"
    using assms(2) by (rule finish_login_page)
  show ?thesis
    unfolding completed_login_def
    using sid s st cl res f bindIdentity_None [OF f(1)] by fastforce
qed

text \<open>C16: The token of the approval page goes only to the browser that logged in. It is shown by the link
  page only to a request with the approval cookie whose hash the session holds; by the answer to a login that was completed
  for the session of the browser's cookie, whose answer sets the one cookie with the stored hash; and again to a
  form that already carries it, for the session of the browser's cookie.\<close>

theorem token_only_to_bound_browser:
  assumes "serve env ep r b w = (rep, b', w')" and "reply_csrf rep = Some token"
  shows "ep = EpVerify \<and> (\<exists>s secret. b_Get env (r_PathID r) w b = Inr s \<and> s_State s = StateAwaitingApproval \<and>
       token = s_CSRFToken s \<and> readApprovalCookie r = Some secret \<and>
       hashBinding secret = s_ApprovalBindingHash s) \<or>
     ep = EpIdPResponse \<and> completed_login env r b w rep b' token \<or>
     ep = EpApprove \<and> r_FormValue r ''csrf_token'' = token \<and>
       (\<exists>sid s. readSessionCookie r = Some sid \<and> b_Get env sid w b = Inr s \<and> s_CSRFToken s = token)"
proof (cases ep)
  case EpStart
  then show ?thesis using assms
    by (auto simp: handleStart_def start_session_def Let_def split: option.splits prod.splits if_splits)
next
  case EpVerify
  obtain s where g: "b_Get env (r_PathID r) w b = Inr s"
    using assms EpVerify by (cases "b_Get env (r_PathID r) w b") (auto simp: handleVerify_def)
  obtain now w1 where t: "time_Now w = (now, w1)" by fastforce
  obtain ex s1 where x: "expireIfNeeded s now = (ex, s1)" by fastforce
  have "\<not> ex" using assms EpVerify g t x by (auto simp: handleVerify_def)
  then have "s1 = s" using x by (auto dest: expireIfNeeded_False)
  with \<open>\<not> ex\<close> show ?thesis
    using assms EpVerify g t x approvalBindingMatches_iff [of r s]
    by (auto simp: handleVerify_def begin_login_def split: state.splits if_splits prod.splits sum.splits option.splits)
next
  case EpIdPResponse
  then show ?thesis using assms callback_page by auto
next
  case EpApprove
  then show ?thesis using assms
    by (auto simp: handleApprove_def approve_reply_def Let_def constantTimeStringEqual_iff
        split: sum.splits prod.splits if_splits option.splits
        dest!: arg_cong [where f = "\<lambda>x. s_CSRFToken (snd x)"] simp: approve_keeps_token)
next
  case EpPoll
  then show ?thesis using assms
    by (auto simp: handlePoll_def poll_reply_def Let_def
        split: sum.splits prod.splits if_splits option.splits poll_outcome.splits)
qed (use assms in \<open>auto simp: reply_csrf_def\<close>)

text \<open>A session that awaits approval, its link opened again by the browser that logged in, and its form sent with a wrong code.\<close>

definition shown_session :: session where
  "shown_session = demo_stored\<lparr>s_State := StateAwaitingApproval, s_CSRFToken := ''t'', s_ApprovalBindingHash := hashBinding ''secret''\<rparr>"

definition shown_broker :: "(memory, unit) broker" where
  "shown_broker = demo_broker\<lparr>b_store := \<lparr>m_sessions = [''s1'' \<mapsto> shown_session], m_stopped = False\<rparr>\<rparr>"

definition shown_request :: request where
  "shown_request = blank_request\<lparr>r_PathID := ''s1'', r_Cookies := [(sessionCookieName, ''s1''), (approvalCookieName, ''secret'')],
     r_PostForm := [(''user_code'', ''WRONG''), (''csrf_token'', ''t''), (''decision'', ''approve'')]\<rparr>"

lemma shown_parts:
  "b_Get demo_env ''s1'' demo_world shown_broker = Inr shown_session" "readApprovalCookie shown_request = Some ''secret''"
  "readSessionCookie shown_request = Some ''s1''" "r_PathID shown_request = ''s1''" "\<not> r_FormErr shown_request"
  "r_FormValue shown_request ''csrf_token'' = ''t''" "r_FormValue shown_request ''decision'' = ''approve''"
  "r_FormValue shown_request ''user_code'' = ''WRONG''"
  "expireIfNeeded shown_session 1000000000000 = (False, shown_session)"
  by (simp_all add: b_Get_def demo_env_parts memory_defs shown_broker_def shown_request_def blank_request_def readSessionCookie_def
      readApprovalCookie_def r_Cookie_def r_FormValue_def first_value_def sessionCookieName_def approvalCookieName_def
      shown_session_def demo_stored_def expireIfNeeded_def isExpired_def time_After_def instant_def demo_world_def)

theorem token_only_to_bound_browser_witness:
  "(\<exists>token. reply_csrf (fst demo_out3) = Some token \<and>
      completed_login demo_env demo_callback (fst (snd demo_out2)) demo_world (fst demo_out3) (fst (snd demo_out3)) token) \<and>
   (\<exists>s secret. b_Get demo_env ''s1'' demo_world shown_broker = Inr s \<and> readApprovalCookie shown_request = Some secret \<and>
      hashBinding secret = s_ApprovalBindingHash s \<and>
      reply_csrf (fst (serve demo_env EpVerify shown_request shown_broker demo_world)) = Some (s_CSRFToken s)) \<and>
   reply_csrf (fst (serve demo_env EpApprove shown_request shown_broker demo_world)) = Some (r_FormValue shown_request ''csrf_token'')"
proof -
  obtain token where page: "reply_csrf (fst demo_out3) = Some token" using demo_approval_page by blast
  have one: "completed_login demo_env demo_callback (fst (snd demo_out2)) demo_world (fst demo_out3) (fst (snd demo_out3)) token"
    using token_only_to_bound_browser [OF demo_outs(3) page] by simp
  obtain rep b' w' where v: "serve demo_env EpVerify shown_request shown_broker demo_world = (rep, b', w')" by (metis prod_cases3)
  have bound: "approvalBindingMatches shown_request shown_session" "s_State shown_session = StateAwaitingApproval" "s_CSRFToken shown_session = ''t''"
    using approvalBindingMatches_iff by (simp_all add: shown_parts shown_session_def)
  have c1: "reply_csrf rep = Some ''t''"
    using v bound by (auto simp: handleVerify_def shown_parts time_Now_instant)
  have two: "\<exists>s secret. b_Get demo_env ''s1'' demo_world shown_broker = Inr s \<and> readApprovalCookie shown_request = Some secret \<and>
      hashBinding secret = s_ApprovalBindingHash s \<and>
      reply_csrf (fst (serve demo_env EpVerify shown_request shown_broker demo_world)) = Some (s_CSRFToken s)"
    using token_only_to_bound_browser [OF v c1] shown_parts(4) c1 v by (auto simp del: serve.simps)
  obtain rep2 b2 w2 where a: "serve demo_env EpApprove shown_request shown_broker demo_world = (rep2, b2, w2)" by (metis prod_cases3)
  have "approve (e_unicode demo_env) ''WRONG'' True 1000000000000 ''secret'' shown_session =
      (Some ErrIncorrectCode, shown_session\<lparr>s_ApproveAttempts := 1\<rparr>)"
    using demo_wrong_code shown_parts(9)
    by (simp add: approve_def shown_session_def demo_stored_def codesEqual_iff demo_env_def wrap64_def maxApproveAttempts_def)
  then have c2: "reply_csrf rep2 = Some ''t''"
    using a bound by (auto simp: handleApprove_def shown_parts time_Now_instant constantTimeStringEqual_iff approve_reply_def Let_def
        split: prod.splits)
  have "reply_csrf (fst (serve demo_env EpApprove shown_request shown_broker demo_world)) =
      Some (r_FormValue shown_request ''csrf_token'')"
    using token_only_to_bound_browser [OF a c2] c2 a by (auto simp del: serve.simps)
  with page one two show ?thesis by blast
qed

end
