(* ===== verification/Pages.thy ===== *)
theory Pages
  imports Broker_Demo Handler_Props GoTime
begin

text \<open>
  The pages of the broker: \<open>web/templates/approve.html\<close> and \<open>result.html\<close>, which \<open>web/fs.go\<close> embeds and
  \<open>templates.go\<close> parses, and their execution by \<open>html/template\<close>. A template is a list of literal text, fields with
  the escaping that \<open>html/template\<close> chooses for the place they stand at, and conditionals. The lemmas read the output
  back the way a browser does and show that no field can add markup: whatever the fields hold, the page has the same
  elements, the details of the request are shown as they are, and the form sends the session's token.
\<close>

section \<open>Escaping\<close>

text \<open>
  The contexts of the fields: text between tags, text in a title, a quoted attribute, and a quoted attribute that holds
  a URL. The first three escape alike for strings; the last one also filters the scheme and percent-encodes.
\<close>

datatype escape_ctx = HTMLText | RCData | Attr | URLAttr

definition html_char :: "char \<Rightarrow> string" where
  "html_char c =
     (if c = CHR 0x00 then rune_error
      else if c = CHR 0x22 then ''&#34;''
      else if c = CHR ''&'' then ''&amp;''
      else if c = CHR 0x27 then ''&#39;''
      else if c = CHR ''+'' then ''&#43;''
      else if c = CHR ''<'' then ''&lt;''
      else if c = CHR ''>'' then ''&gt;''
      else [c])"

definition html_escape :: "string \<Rightarrow> string" where
  "html_escape s = concat (map html_char s)"

text \<open>
  \<open>isSafeURL\<close>: a scheme, if there is one, is http, https or mailto up to case (\<open>strings.EqualFold\<close>, which is \<open>json_fold\<close>
  against ASCII names). \<open>processURLOnto\<close> with normalization keeps reserved and unreserved bytes and valid escapes.
\<close>

definition isSafeURL :: "string \<Rightarrow> bool" where
  "isSafeURL s =
     (let protocol = takeWhile (\<lambda>c. c \<noteq> CHR '':'') s in
      if CHR '':'' \<in> set s \<and> CHR ''/'' \<notin> set protocol
      then json_fold protocol = ''HTTP'' \<or> json_fold protocol = ''HTTPS'' \<or> json_fold protocol = ''MAILTO''
      else True)"

definition is_hex :: "char \<Rightarrow> bool" where
  "is_hex c \<longleftrightarrow> c \<in> set ''0123456789abcdefABCDEF''"

definition url_kept :: "char \<Rightarrow> bool" where
  "url_kept c \<longleftrightarrow> c \<in> set ''!#$&*+,/:;=?@[]-._~''
     \<or> c \<in> set ''abcdefghijklmnopqrstuvwxyzABCDEFGHIJKLMNOPQRSTUVWXYZ0123456789''"

fun url_normalize :: "string \<Rightarrow> string" where
  "url_normalize [] = []"
| "url_normalize (c # s) =
     (if url_kept c \<or> c = CHR ''%'' \<and> 2 \<le> length s \<and> is_hex (s ! 0) \<and> is_hex (s ! 1)
      then c # url_normalize s
      else CHR ''%'' # hex_byte (of_char c) @ url_normalize s)"

fun escape :: "escape_ctx \<Rightarrow> string \<Rightarrow> string" where
  "escape URLAttr s = html_escape (url_normalize (if isSafeURL s then s else ''#ZgotmplZ''))"
| "escape _ s = html_escape s"

section \<open>Templates\<close>

text \<open>Text, tags, a tag with a field in one of its attributes, fields in the text, and conditionals.\<close>

datatype 'f tnode =
    Lit string
  | Tag string
  | TagPut string escape_ctx 'f string
  | Put escape_ctx 'f
  | When 'f "'f tnode list"

fun execute :: "('f \<Rightarrow> string) \<Rightarrow> 'f tnode list \<Rightarrow> string" where
  "execute v [] = ''''"
| "execute v (Lit s # ns) = s @ execute v ns"
| "execute v (Tag g # ns) = CHR ''<'' # g @ CHR ''>'' # execute v ns"
| "execute v (TagPut g ctx f g' # ns) = CHR ''<'' # g @ escape ctx (v f) @ g' @ CHR ''>'' # execute v ns"
| "execute v (Put ctx f # ns) = escape ctx (v f) @ execute v ns"
| "execute v (When f body # ns) = (if v f \<noteq> '''' then execute v body else '''') @ execute v ns"

fun unlines :: "string list \<Rightarrow> string" where
  "unlines [] = ''''"
| "unlines [l] = l"
| "unlines (l # ls) = l @ CHR 0x0A # unlines ls"

definition indent :: "nat \<Rightarrow> string" where
  "indent n = CHR 0x0A # replicate n (CHR '' '')"

definition em_dash :: string where
  "em_dash = [CHR 0xE2, CHR 0x80, CHR 0x94]"

datatype approve_field =
    AP_Identity | AP_ClientHost | AP_ClientKind | AP_ClientIP | AP_VerifiedClient | AP_StartedAt
  | AP_CSRFToken | AP_ApproveAction

datatype result_field = RP_Title | RP_Message

definition approve_tmpl :: "approve_field tnode list" where
  \<open>approve_tmpl = [
     Tag ''!doctype html'', Lit (indent 0),
     Tag ''html lang="en"'', Lit (indent 0),
     Tag ''head'', Lit (indent 0),
     Tag ''meta charset="utf-8"'', Lit (indent 0),
     Tag ''title'', Lit (''xdauth '' @ em_dash @ '' approve sign-in''), Tag ''/title'', Lit (indent 0),
     Tag ''style'',
       Lit (unlines [
       '''',
       ''  body { font-family: system-ui, sans-serif; max-width: 32rem; margin: 3rem auto; padding: 0 1rem; color: #1a1a1a; }'',
       ''  .context { background: #f4f4f5; border: 1px solid #d4d4d8; border-radius: 8px; padding: 1rem; margin: 1rem 0; }'',
       ''  .context dt { font-weight: 600; }'',
       ''  .context dd { margin: 0 0 0.5rem 0; }'',
       ''  input[type=text] { font-size: 1.5rem; letter-spacing: 0.1em; text-transform: uppercase; padding: 0.5rem; width: 12rem; }'',
       ''  button { font-size: 1rem; padding: 0.6rem 1.2rem; margin-right: 0.5rem; cursor: pointer; }'',
       ''  .deny { background: #fee2e2; }'',
       ''  .approve { background: #dcfce7; }'',
       '''']),
     Tag ''/style'', Lit (indent 0),
     Tag ''/head'', Lit (indent 0),
     Tag ''body'', Lit (indent 2),
     Tag ''h1'', Lit ''Approve sign-in?'', Tag ''/h1'', Lit (indent 2),
     Tag ''p'', Lit ''Someone is trying to sign in as '', Tag ''strong'', Put HTMLText AP_Identity, Tag ''/strong'',
       Lit '' using the details below. If this is not you, or you did not start this, choose '', Tag ''em'',
       Lit ''Deny'', Tag ''/em'', Lit ''.'', Tag ''/p'', Lit (indent 2),
     Tag ''dl class="context"'', Lit (indent 4),
     Tag ''dt'', Lit ''Client host'', Tag ''/dt'', Tag ''dd'', Put HTMLText AP_ClientHost, Tag ''/dd'',
       Lit (indent 4),
     Tag ''dt'', Lit ''Client kind'', Tag ''/dt'', Tag ''dd'', Put HTMLText AP_ClientKind, Tag ''/dd'',
       Lit (indent 4),
     Tag ''dt'', Lit ''Source IP'', Tag ''/dt'', Tag ''dd'', Put HTMLText AP_ClientIP, Tag ''/dd'', Lit (indent 4),
     When AP_VerifiedClient [Tag ''dt'', Lit ''Verified client'', Tag ''/dt'', Tag ''dd'',
       Put HTMLText AP_VerifiedClient, Lit '' (authenticated)'', Tag ''/dd''],  Lit (indent 4),
     Tag ''dt'', Lit ''Started at'', Tag ''/dt'', Tag ''dd'', Put HTMLText AP_StartedAt, Tag ''/dd'',
       Lit (indent 4),
     Tag ''dt'', Lit ''Identity'', Tag ''/dt'', Tag ''dd'', Put HTMLText AP_Identity, Tag ''/dd'', Lit (indent 2),
     Tag ''/dl'', Lit (indent 2),
     Tag ''p'', Lit ''Enter the code shown on the client's screen to approve:'', Tag ''/p'', Lit (indent 2),
     TagPut ''form method="POST" action="'' URLAttr AP_ApproveAction ''"'', Lit (indent 4),
     TagPut ''input type="hidden" name="csrf_token" value="'' Attr AP_CSRFToken ''"'', Lit (indent 4),
     Tag ''p'',
       Tag ''input type="text" name="user_code" placeholder="XXXX-XXXX" maxlength="9" autocomplete="off" required autofocus'',
       Tag ''/p'', Lit (indent 4),
     Tag ''button class="approve" type="submit" name="decision" value="approve"'', Lit ''Approve'', Tag ''/button'',
       Lit (indent 4),
     Tag ''button class="deny" type="submit" name="decision" value="deny"'', Lit ''Deny'', Tag ''/button'',
       Lit (indent 2),
     Tag ''/form'', Lit (indent 0),
     Tag ''/body'', Lit (indent 0),
     Tag ''/html'', Lit (indent 0)]\<close>

definition result_tmpl :: "result_field tnode list" where
  \<open>result_tmpl = [
     Tag ''!doctype html'', Lit (indent 0),
     Tag ''html lang="en"'', Lit (indent 0),
     Tag ''head'', Lit (indent 0),
     Tag ''meta charset="utf-8"'', Lit (indent 0),
     Tag ''title'', Lit (''xdauth '' @ em_dash @ '' ''), Put RCData RP_Title, Tag ''/title'', Lit (indent 0),
     Tag ''style'',
       Lit (unlines [
       '''',
       ''  body { font-family: system-ui, sans-serif; max-width: 32rem; margin: 3rem auto; padding: 0 1rem; color: #1a1a1a; }'',
       '''']),
     Tag ''/style'', Lit (indent 0),
     Tag ''/head'', Lit (indent 0),
     Tag ''body'', Lit (indent 2),
     Tag ''h1'', Put HTMLText RP_Title, Tag ''/h1'', Lit (indent 2),
     Tag ''p'', Put HTMLText RP_Message, Tag ''/p'', Lit (indent 2),
     Tag ''p'', Lit ''You may close this window.'', Tag ''/p'', Lit (indent 0),
     Tag ''/body'', Lit (indent 0),
     Tag ''/html'', Lit (indent 0)]\<close>

text \<open>The start is printed in the location it carries: the local zone of the broker that created the session, or the
  offset read back from Redis.\<close>

fun approve_value :: "zone \<Rightarrow> approvePage \<Rightarrow> approve_field \<Rightarrow> string" where
  "approve_value z p AP_Identity = ap_Identity p"
| "approve_value z p AP_ClientHost = ap_ClientHost p"
| "approve_value z p AP_ClientKind = ap_ClientKind p"
| "approve_value z p AP_ClientIP = ap_ClientIP p"
| "approve_value z p AP_VerifiedClient = ap_VerifiedClient p"
| "approve_value z p AP_StartedAt = format_RFC1123 z (ap_StartedAt p)"
| "approve_value z p AP_CSRFToken = ap_CSRFToken p"
| "approve_value z p AP_ApproveAction = ap_ApproveAction p"

fun result_value :: "resultPage \<Rightarrow> result_field \<Rightarrow> string" where
  "result_value p RP_Title = rp_Title p"
| "result_value p RP_Message = rp_Message p"

definition approve_html :: "zone \<Rightarrow> approvePage \<Rightarrow> string" where
  "approve_html z p = execute (approve_value z p) approve_tmpl"

definition result_html :: "resultPage \<Rightarrow> string" where
  "result_html p = execute (result_value p) result_tmpl"

text \<open>
  The embedded files, parsed once into \<open>templates\<close>, and \<open>ExecuteTemplate\<close>. The answer \<open>renderApprove\<close> and \<open>renderResult\<close>
  write is the page of its body. \<open>z\<close> is the location the session's start carries.
\<close>

datatype page_template = ApproveTemplate "approve_field tnode list" | ResultTemplate "result_field tnode list"

definition Templates :: "(string \<times> page_template) list" where
  "Templates = [(''approve.html'', ApproveTemplate approve_tmpl), (''result.html'', ResultTemplate result_tmpl)]"

definition templates :: "string \<Rightarrow> page_template option" where
  "templates = map_of Templates"

definition ExecuteTemplate :: "zone \<Rightarrow> string \<Rightarrow> body \<Rightarrow> string option" where
  "ExecuteTemplate z name data =
     (case (templates name, data) of
        (Some (ApproveTemplate t), BodyApprove p) \<Rightarrow> Some (execute (approve_value z p) t)
      | (Some (ResultTemplate t), BodyResult p) \<Rightarrow> Some (execute (result_value p) t)
      | _ \<Rightarrow> None)"

definition body_html :: "zone \<Rightarrow> body \<Rightarrow> string option" where
  "body_html z v =
     (case v of
        BodyApprove p \<Rightarrow> ExecuteTemplate z ''approve.html'' v
      | BodyResult p \<Rightarrow> ExecuteTemplate z ''result.html'' v
      | _ \<Rightarrow> None)"

section \<open>Reading a page\<close>

text \<open>
  A document as its tags, each with the text before it. A tag ends at the next \<open>>\<close> outside double quotes.
\<close>

datatype lex_mode = InText | InTag | InQuote

type_synonym lex_state = "lex_mode \<times> string \<times> string \<times> (string \<times> string) list"

text \<open>The mode, the text before the current tag and what was read last (both reversed), and the tags so far (newest first).\<close>

fun lex_step :: "char \<Rightarrow> lex_state \<Rightarrow> lex_state" where
  "lex_step c (InText, txt, cur, ts) =
     (if c = CHR ''<'' then (InTag, cur, [], ts) else (InText, [], c # cur, ts))"
| "lex_step c (InTag, txt, cur, ts) =
     (if c = CHR ''>'' then (InText, [], [], (rev txt, rev cur) # ts)
      else if c = CHR 0x22 then (InQuote, txt, c # cur, ts)
      else (InTag, txt, c # cur, ts))"
| "lex_step c (InQuote, txt, cur, ts) =
     (if c = CHR 0x22 then (InTag, txt, c # cur, ts) else (InQuote, txt, c # cur, ts))"

definition html_tags :: "string \<Rightarrow> (string \<times> string) list" where
  "html_tags doc = (case fold lex_step doc (InText, [], [], []) of (_, _, _, ts) \<Rightarrow> rev ts)"

definition tag_name :: "string \<Rightarrow> string" where
  "tag_name tag = takeWhile (\<lambda>c. c \<noteq> CHR '' '') tag"

text \<open>Character references.\<close>

function unref :: "string \<Rightarrow> string" where
  "unref s =
     (if s = [] then []
      else if take 5 s = ''&#34;'' then CHR 0x22 # unref (drop 5 s)
      else if take 5 s = ''&amp;'' then CHR ''&'' # unref (drop 5 s)
      else if take 5 s = ''&#39;'' then CHR 0x27 # unref (drop 5 s)
      else if take 5 s = ''&#43;'' then CHR ''+'' # unref (drop 5 s)
      else if take 4 s = ''&lt;'' then CHR ''<'' # unref (drop 4 s)
      else if take 4 s = ''&gt;'' then CHR ''>'' # unref (drop 4 s)
      else hd s # unref (tl s))"
  by pat_completeness auto

termination
  by (relation "measure length") auto

declare unref.simps [simp del]

text \<open>The list of descriptions, and an attribute and an input of a form.\<close>

fun descriptions :: "(string \<times> string) list \<Rightarrow> (string \<times> string) list" where
  "descriptions ((t1, a) # (l, b) # (t2, c) # (v, d) # ts) =
     (if a = ''dt'' \<and> b = ''/dt'' \<and> c = ''dd'' \<and> d = ''/dd'' then (unref l, unref v) # descriptions ts
      else descriptions ((l, b) # (t2, c) # (v, d) # ts))"
| "descriptions _ = []"

fun after :: "string \<Rightarrow> string \<Rightarrow> string option" where
  "after [] s = Some s"
| "after (c # p) (d # s) = (if c = d then after p s else None)"
| "after (c # p) [] = None"

fun attribute :: "string \<Rightarrow> string \<Rightarrow> string option" where
  "attribute a [] = None"
| "attribute a (c # s) =
     (case after (CHR '' '' # a @ [CHR ''='', CHR 0x22]) (c # s) of
        Some v \<Rightarrow> Some (unref (takeWhile (\<lambda>x. x \<noteq> CHR 0x22) v))
      | None \<Rightarrow> attribute a s)"

fun form_input :: "string \<Rightarrow> (string \<times> string) list \<Rightarrow> string option" where
  "form_input name [] = None"
| "form_input name ((txt, tag) # ts) =
     (if tag_name tag \<noteq> ''input'' then form_input name ts
      else if attribute ''name'' tag = Some name then attribute ''value'' tag
      else form_input name ts)"

fun form_action :: "(string \<times> string) list \<Rightarrow> string option" where
  "form_action [] = None"
| "form_action ((txt, tag) # ts) =
     (if tag_name tag = ''form'' then attribute ''action'' tag else form_action ts)"

text \<open>The heading of a page and the paragraph below it.\<close>

fun heading :: "(string \<times> string) list \<Rightarrow> (string \<times> string) option" where
  "heading ((t1, a) # (t2, b) # (t3, c) # (t4, d) # ts) =
     (if a = ''h1'' \<and> b = ''/h1'' \<and> c = ''p'' \<and> d = ''/p'' then Some (unref t2, unref t4)
      else heading ((t2, b) # (t3, c) # (t4, d) # ts))"
| "heading _ = None"

text \<open>The elements of the two pages, in order; the approval page has two more descriptions with a verified client.\<close>

definition approve_page_elements :: "bool \<Rightarrow> string list" where
  "approve_page_elements verified =
     [''!doctype'', ''html'', ''head'', ''meta'', ''title'', ''/title'', ''style'', ''/style'', ''/head'', ''body'',
      ''h1'', ''/h1'', ''p'', ''strong'', ''/strong'', ''em'', ''/em'', ''/p'', ''dl'',
      ''dt'', ''/dt'', ''dd'', ''/dd'', ''dt'', ''/dt'', ''dd'', ''/dd'', ''dt'', ''/dt'', ''dd'', ''/dd''] @
     (if verified then [''dt'', ''/dt'', ''dd'', ''/dd''] else []) @
     [''dt'', ''/dt'', ''dd'', ''/dd'', ''dt'', ''/dt'', ''dd'', ''/dd'', ''/dl'', ''p'', ''/p'',
      ''form'', ''input'', ''p'', ''input'', ''/p'', ''button'', ''/button'', ''button'', ''/button'', ''/form'',
      ''/body'', ''/html'']"

definition result_page_elements :: "string list" where
  "result_page_elements =
     [''!doctype'', ''html'', ''head'', ''meta'', ''title'', ''/title'', ''style'', ''/style'', ''/head'', ''body'',
      ''h1'', ''/h1'', ''p'', ''/p'', ''p'', ''/p'', ''/body'', ''/html'']"

section \<open>Lemmas\<close>

text \<open>An escaped field holds no character that the reader acts on.\<close>

definition inert :: "string \<Rightarrow> bool" where
  "inert s \<longleftrightarrow> CHR ''<'' \<notin> set s \<and> CHR ''>'' \<notin> set s \<and> CHR 0x22 \<notin> set s \<and> CHR 0x27 \<notin> set s"

lemma inert_html_escape [simp]: "inert (html_escape s)"
  by (auto simp: inert_def html_escape_def html_char_def rune_error_def split: if_splits)

lemma inert_lt: "inert s \<Longrightarrow> CHR ''<'' \<notin> set s"
  by (simp add: inert_def)

lemma inert_escape [simp]: "inert (escape ctx s)"
  by (cases ctx) simp_all

text \<open>Reading text, and reading a tag from or to a place inside its quotes.\<close>

lemma lex_text:
  assumes "CHR ''<'' \<notin> set s"
  shows "fold lex_step s (InText, [], cur, ts) = (InText, [], rev s @ cur, ts)"
  using assms by (induction s arbitrary: cur) auto

fun tag_scan :: "bool \<Rightarrow> string \<Rightarrow> bool option" where
  "tag_scan q [] = Some q"
| "tag_scan q (c # s) =
     (if q then tag_scan (c \<noteq> CHR 0x22) s
      else if c = CHR ''>'' then None else tag_scan (c = CHR 0x22) s)"

fun tag_mode :: "bool \<Rightarrow> lex_mode" where
  "tag_mode True = InQuote"
| "tag_mode False = InTag"

lemma lex_tag:
  "tag_scan q s = Some q' \<Longrightarrow>
    fold lex_step s (tag_mode q, txt, cur, ts) = (tag_mode q', txt, rev s @ cur, ts)"
proof (induction q s arbitrary: cur rule: tag_scan.induct)
  case (2 q c s)
  then show ?case by (cases q; cases "c = CHR 0x22") (auto split: if_splits)
qed simp

lemma tag_scan_inert: "inert s \<Longrightarrow> tag_scan True s = Some True"
  by (induction s) (auto simp: inert_def)

lemma tag_scan_append: "tag_scan q (s @ t) = (case tag_scan q s of None \<Rightarrow> None | Some q' \<Rightarrow> tag_scan q' t)"
  by (induction q s rule: tag_scan.induct) auto

lemma lex_whole_tag:
  assumes "tag_scan False g = Some False"
  shows "fold lex_step (CHR ''<'' # g @ [CHR ''>'']) (InText, [], cur, ts) = (InText, [], [], (rev cur, g) # ts)"
  using lex_tag [OF assms, of cur "[]" ts] by simp

text \<open>
  A template whose text has no \<open><\<close> and whose tags are complete, with fields only between quotes. The tags of what it
  executes to are then its own, whatever the fields hold.
\<close>

fun wf_template :: "'f tnode list \<Rightarrow> bool" where
  "wf_template [] = True"
| "wf_template (Lit s # ns) = (CHR ''<'' \<notin> set s \<and> wf_template ns)"
| "wf_template (Tag g # ns) = (tag_scan False g = Some False \<and> wf_template ns)"
| "wf_template (TagPut g ctx f g' # ns) =
     (tag_scan False g = Some True \<and> tag_scan True g' = Some False \<and> wf_template ns)"
| "wf_template (Put ctx f # ns) = wf_template ns"
| "wf_template (When f body # ns) = (wf_template body \<and> wf_template ns)"

text \<open>The template with its conditionals resolved, and the tags of such a template with the text before each.\<close>

fun expand :: "('f \<Rightarrow> string) \<Rightarrow> 'f tnode list \<Rightarrow> 'f tnode list" where
  "expand v [] = []"
| "expand v (When f body # ns) = (if v f \<noteq> '''' then expand v body @ expand v ns else expand v ns)"
| "expand v (n # ns) = n # expand v ns"

fun template_tags :: "('f \<Rightarrow> string) \<Rightarrow> string \<Rightarrow> 'f tnode list \<Rightarrow> (string \<times> string) list" where
  "template_tags v u [] = []"
| "template_tags v u (Lit s # ns) = template_tags v (u @ s) ns"
| "template_tags v u (Put ctx f # ns) = template_tags v (u @ escape ctx (v f)) ns"
| "template_tags v u (Tag g # ns) = (u, g) # template_tags v [] ns"
| "template_tags v u (TagPut g ctx f g' # ns) = (u, g @ escape ctx (v f) @ g') # template_tags v [] ns"
| "template_tags v u (When f body # ns) = []"

fun flat :: "'f tnode list \<Rightarrow> bool" where
  "flat [] = True"
| "flat (When f body # ns) = False"
| "flat (n # ns) = flat ns"

lemma flat_append [simp]: "flat (ns @ ms) \<longleftrightarrow> flat ns \<and> flat ms"
  by (induction ns rule: flat.induct) auto

lemma wf_append [simp]: "wf_template (ns @ ms) \<longleftrightarrow> wf_template ns \<and> wf_template ms"
  by (induction ns rule: wf_template.induct) auto

lemma execute_append [simp]: "execute v (ns @ ms) = execute v ns @ execute v ms"
  by (induction v ns rule: execute.induct) auto

lemma expand_ok:
  "execute v (expand v ns) = execute v ns" "wf_template ns \<Longrightarrow> wf_template (expand v ns)" "flat (expand v ns)"
  by (induction v ns rule: expand.induct) auto

lemma lex_template:
  assumes "wf_template ns" and "flat ns"
  obtains e where "fold lex_step (execute v ns) (InText, [], rev u, acc) = (InText, [], e, rev (template_tags v u ns) @ acc)"
  using assms
proof (induction v u ns arbitrary: acc thesis rule: template_tags.induct)
  case (4 v u g ns)
  obtain e where "fold lex_step (execute v ns) (InText, [], rev [], (u, g) # acc) =
      (InText, [], e, rev (template_tags v [] ns) @ (u, g) # acc)"
    by (rule "4.IH") (use 4 in simp_all)
  then show ?case using 4 lex_whole_tag [of g "rev u" acc] by simp
next
  case (5 v u g ctx f g' ns)
  let ?t = "g @ escape ctx (v f) @ g'"
  have t: "tag_scan False ?t = Some False" using 5 by (simp add: tag_scan_append tag_scan_inert)
  obtain e where "fold lex_step (execute v ns) (InText, [], rev [], (u, ?t) # acc) =
      (InText, [], e, rev (template_tags v [] ns) @ (u, ?t) # acc)"
    by (rule "5.IH") (use 5 in simp_all)
  then show ?case using 5 lex_whole_tag [OF t, of "rev u" acc] by simp
qed (auto simp: lex_text inert_lt)

lemma html_tags_template:
  assumes "wf_template ns"
  shows "html_tags (execute v ns) = template_tags v [] (expand v ns)"
proof -
  obtain e where "fold lex_step (execute v (expand v ns)) (InText, [], rev [], []) =
      (InText, [], e, rev (template_tags v [] (expand v ns)) @ [])"
    using lex_template expand_ok assms by blast
  then show ?thesis by (simp add: html_tags_def expand_ok)
qed

text \<open>What a browser shows for an escaped field: the field, with a replacement character for each NUL.\<close>

definition shown :: "string \<Rightarrow> string" where
  "shown s = concat (map (\<lambda>c. if c = CHR 0x00 then rune_error else [c]) s)"

lemma shown_id: "CHR 0x00 \<notin> set s \<Longrightarrow> shown s = s"
  by (induction s) (auto simp: shown_def)

lemma unref_plain: "c \<noteq> CHR ''&'' \<Longrightarrow> unref (c # s) = c # unref s"
  by (subst unref.simps) simp

lemma unref_Nil [simp]: "unref [] = []"
  by (subst unref.simps) simp

lemma unref_html_char: "unref (html_char c @ s) = (if c = CHR 0x00 then rune_error else [c]) @ unref s"
proof (cases "c \<in> {CHR 0x22, CHR ''&'', CHR 0x27, CHR ''+'', CHR ''<'', CHR ''>''}")
  case True
  then show ?thesis by (auto simp: html_char_def unref.simps [of "_ # _"])
next
  case False
  then show ?thesis by (auto simp: html_char_def rune_error_def unref_plain)
qed

lemma unref_html_escape: "unref (html_escape s @ t) = shown s @ unref t"
  by (induction s) (simp_all add: html_escape_def shown_def unref_html_char)

lemma unref_html_escape_all [simp]: "unref (html_escape s) = shown s"
  using unref_html_escape [of s "[]"] by simp

lemma unref_no_ref: "CHR ''&'' \<notin> set s \<Longrightarrow> unref s = s"
  by (induction s) (auto simp: unref_plain)

lemma unlines_set: "CHR ''<'' \<notin> set (unlines ls) \<longleftrightarrow> (\<forall>l \<in> set ls. CHR ''<'' \<notin> set l)"
  by (induction ls rule: unlines.induct) auto

lemma approve_wf: "wf_template approve_tmpl"
  by (simp add: approve_tmpl_def unlines_set indent_def em_dash_def del: unlines.simps)

lemma result_wf: "wf_template result_tmpl"
  by (simp add: result_tmpl_def unlines_set indent_def em_dash_def del: unlines.simps)

lemma takeWhile_inert: "inert s \<Longrightarrow> takeWhile (\<lambda>x. x \<noteq> CHR 0x22) (s @ CHR 0x22 # t) = s"
  by (induction s) (auto simp: inert_def)

lemma approve_html_tags:
  "html_tags (approve_html z p) = template_tags (approve_value z p) [] (expand (approve_value z p) approve_tmpl)"
  by (simp add: approve_html_def html_tags_template approve_wf)

lemma approve_descriptions:
  "descriptions (html_tags (approve_html z p)) =
     [(''Client host'', shown (ap_ClientHost p)), (''Client kind'', shown (ap_ClientKind p)),
      (''Source IP'', shown (ap_ClientIP p))] @
     (if ap_VerifiedClient p = '''' then []
      else [(''Verified client'', shown (ap_VerifiedClient p) @ '' (authenticated)'')]) @
     [(''Started at'', shown (format_RFC1123 z (ap_StartedAt p))), (''Identity'', shown (ap_Identity p))]"
  by (cases "ap_VerifiedClient p = ''''")
    (simp_all add: approve_html_tags approve_tmpl_def unref_no_ref unref_html_escape del: unlines.simps)

lemma approve_elements:
  "map (tag_name \<circ> snd) (html_tags (approve_html z p)) = approve_page_elements (ap_VerifiedClient p \<noteq> '''')"
  by (cases "ap_VerifiedClient p = ''''")
    (simp_all add: approve_html_tags approve_tmpl_def tag_name_def approve_page_elements_def del: unlines.simps)

lemma approve_token: "form_input ''csrf_token'' (html_tags (approve_html z p)) = Some (shown (ap_CSRFToken p))"
  by (cases "ap_VerifiedClient p = ''''")
    (simp_all add: approve_html_tags approve_tmpl_def tag_name_def unref_no_ref takeWhile_inert del: unlines.simps)

lemma approve_action:
  "form_action (html_tags (approve_html z p)) =
     Some (shown (url_normalize (if isSafeURL (ap_ApproveAction p) then ap_ApproveAction p else ''#ZgotmplZ'')))"
  by (cases "ap_VerifiedClient p = ''''")
    (simp_all add: approve_html_tags approve_tmpl_def tag_name_def takeWhile_inert del: unlines.simps)

lemma result_html_tags: "html_tags (result_html p) = template_tags (result_value p) [] (expand (result_value p) result_tmpl)"
  by (simp add: result_html_def html_tags_template result_wf)

lemma result_heading: "heading (html_tags (result_html p)) = Some (shown (rp_Title p), shown (rp_Message p))"
  by (simp add: result_html_tags result_tmpl_def del: unlines.simps)

lemma result_elements: "map (tag_name \<circ> snd) (html_tags (result_html p)) = result_page_elements"
  by (simp add: result_html_tags result_tmpl_def tag_name_def result_page_elements_def del: unlines.simps)

lemma body_html_simps [simp]:
  "body_html z (BodyApprove p) = Some (approve_html z p)" "body_html z (BodyResult q) = Some (result_html q)"
  "body_html z BodyEmpty = None" "body_html z (BodyStart sr) = None" "body_html z (BodyPoll pr) = None"
  "body_html z (BodyRedirect url) = None"
  by (simp_all add: body_html_def ExecuteTemplate_def templates_def Templates_def approve_html_def result_html_def)

section \<open>The pages of the handlers\<close>

definition reply_page :: "reply \<Rightarrow> approvePage option" where
  "reply_page rep =
     (case rep of Panicked \<Rightarrow> None | Reply x \<Rightarrow> (case rs_Body x of BodyApprove p \<Rightarrow> Some p | _ \<Rightarrow> None))"

definition page_of :: "session \<Rightarrow> string \<Rightarrow> approvePage" where
  "page_of s baseURL =
     \<lparr>ap_Identity = (case s_Identity s of None \<Rightarrow> '''' | Some i \<Rightarrow> id_Value i), ap_ClientHost = s_ClientHost s,
      ap_ClientKind = s_ClientKind s, ap_ClientIP = s_ClientIP s, ap_VerifiedClient = s_VerifiedClient s,
      ap_StartedAt = s_CreatedAt s, ap_CSRFToken = s_CSRFToken s,
      ap_ApproveAction = baseURL @ ''/auth/approve''\<rparr>"

lemma reply_page_simps [simp]:
  "reply_page Panicked = None" "reply_page (Reply (renderResult st ti ms)) = None"
  "reply_page (Reply (writeJSON st (BodyStart q))) = None" "reply_page (Reply (writeJSON st (BodyPoll p))) = None"
  "reply_page (Reply (writeJSONError st cd ms)) = None" "reply_page (Reply (http_Redirect u st)) = None"
  "reply_page (Reply (with_cookies cs x)) = reply_page (Reply x)"
  "reply_page (Reply (renderApprove s url)) = Some (page_of s url)"
  by (simp_all add: reply_page_def renderResult_def writeJSON_def writeJSONError_def http_Redirect_def
      with_cookies_def renderApprove_def page_of_def)

definition page_session :: "endpoint \<Rightarrow> request \<Rightarrow> string" where
  "page_session ep r = (if ep = EpVerify then r_PathID r else the (readSessionCookie r))"

text \<open>The identity shown: after a login the one the identity provider returned, and later the one of the session.\<close>

definition shown_identity :: "idp_ops \<Rightarrow> endpoint \<Rightarrow> request \<Rightarrow> session \<Rightarrow> string \<Rightarrow> bool" where
  "shown_identity I ep r s iv \<longleftrightarrow>
     (if ep = EpIdPResponse
      then \<exists>ident w1 w2. idp_CompleteLogin I r s w1 = (Inr ident, w2) \<and> iv = id_Value ident
      else iv = (case s_Identity s of None \<Rightarrow> '''' | Some i \<Rightarrow> id_Value i))"

lemma login_page_session:
  assumes "finish_login env r s ident now b w = (rep, b', w')" and "reply_page rep = Some p"
  obtains s' where "same_request s s'" "p = page_of s' (cfg_BaseURL (b_cfg b))" "s_Identity s' = Some ident"
proof -
  obtain secret w1 where sec: "newApprovalSecret w = (Some secret, w1)"
    using assms by (cases "newApprovalSecret w" rule: prod.exhaust [case_product option.exhaust])
      (auto simp: finish_login_def split: option.splits)
  obtain e s' w2 where bd: "bindIdentity (e_unicode env) (cfg_IdentityNormalizer (b_cfg b)) ident now
      (hashBinding secret) s w1 = (e, s', w2)" by (metis prod_cases3)
  have "e = None" "p = page_of s' (cfg_BaseURL (b_cfg b))"
    using assms sec bd by (auto simp: finish_login_def Let_def split: option.splits if_splits)
  moreover from bd have "e = None \<longrightarrow> same_request s s' \<and> s_Identity s' = Some ident"
    by (cases rule: bindIdentity_cases) (simp_all add: same_request_def)
  ultimately show ?thesis using that by blast
qed

lemma approve_page_session:
  assumes "serve env ep r b w = (rep, b', w')" and "reply_page rep = Some p"
  obtains s s' where "b_Get env (page_session ep r) w b = Inr s" "same_request s s'"
    "p = page_of s' (cfg_BaseURL (b_cfg b))" "shown_identity (e_idp env) ep r s (ap_Identity p)"
proof (cases ep)
  case EpStart
  then show ?thesis using assms
    by (auto simp: handleStart_def start_session_def Let_def split: option.splits prod.splits if_splits)
next
  case EpVerify
  obtain s where g: "b_Get env (r_PathID r) w b = Inr s"
    using assms EpVerify by (cases "b_Get env (r_PathID r) w b") (auto simp: handleVerify_def)
  obtain now w1 where t: "time_Now w = (now, w1)" by fastforce
  obtain ex s1 where x: "expireIfNeeded s now = (ex, s1)" by fastforce
  have "\<not> ex" using assms EpVerify g t x by (auto simp: handleVerify_def)
  then have "s1 = s" using x by (auto dest: expireIfNeeded_False)
  with \<open>\<not> ex\<close> have "p = page_of s (cfg_BaseURL (b_cfg b))"
    using assms EpVerify g t x
    by (auto simp: handleVerify_def begin_login_def split: state.splits if_splits prod.splits sum.splits option.splits)
  then show ?thesis using that [of s s] g EpVerify by (simp add: page_session_def shown_identity_def page_of_def)
next
  case EpIdPResponse
  then obtain sid s where g: "readSessionCookie r = Some sid" "b_Get env sid w b = Inr s"
    using assms by (auto simp: handleIdPResponse_def split: option.splits sum.splits)
  obtain now w1 where t: "time_Now w = (now, w1)" by fastforce
  obtain ex s1 where x: "expireIfNeeded s now = (ex, s1)" by fastforce
  have "\<not> ex" using assms EpIdPResponse g t x by (auto simp: handleIdPResponse_def)
  then have "s1 = s" using x by (auto dest: expireIfNeeded_False)
  then obtain ident w2 where l: "idp_CompleteLogin (e_idp env) r s w1 = (Inr ident, w2)"
      "finish_login env r s ident now b w2 = (rep, b', w')"
    using assms EpIdPResponse g t x \<open>\<not> ex\<close>
    by (auto simp: handleIdPResponse_def split: sum.splits prod.splits if_splits)
  obtain s' where "same_request s s'" "p = page_of s' (cfg_BaseURL (b_cfg b))" "s_Identity s' = Some ident"
    by (rule login_page_session [OF l(2) assms(2)])
  then show ?thesis
    using that [of s s'] g l(1) EpIdPResponse by (auto simp: page_session_def shown_identity_def page_of_def)
next
  case EpApprove
  then obtain sid s where g: "readSessionCookie r = Some sid" "b_Get env sid w b = Inr s"
    using assms by (auto simp: handleApprove_def Let_def split: option.splits sum.splits if_splits)
  obtain now w1 where t: "time_Now w = (now, w1)" by fastforce
  obtain e s' where a: "approve (e_unicode env) (r_FormValue r ''user_code'') (r_FormValue r ''decision'' = ''approve'')
      now (case readApprovalCookie r of None \<Rightarrow> '''' | Some v \<Rightarrow> v) s = (e, s')" by fastforce
  then have "same_request s s'" "s_Identity s' = s_Identity s"
    by (cases rule: approve_cases; simp add: same_request_def)+
  moreover have "p = page_of s' (cfg_BaseURL (b_cfg b))"
    using assms EpApprove g t a
    by (auto simp: handleApprove_def approve_reply_def Let_def split: prod.splits if_splits)
  ultimately show ?thesis
    using that [of s s'] g EpApprove by (simp add: page_session_def shown_identity_def page_of_def)
next
  case EpPoll
  then show ?thesis using assms
    by (auto simp: handlePoll_def poll_reply_def Let_def
        split: sum.splits prod.splits if_splits option.splits poll_outcome.splits)
qed (use assms in \<open>auto simp: reply_page_def\<close>)

section \<open>Properties\<close>

text \<open>C17: Whenever the broker answers with the approval page, the page a browser shows lists the host, kind and
  address of the client, its verified identity if there is one, when the request started and who signed in, all of
  the session the link or the cookie names and exactly as they are stored, whatever characters they have; its form
  carries the token and is sent to the broker's own approval endpoint.\<close>

theorem approval_page_shows_the_request:
  assumes "serve env ep r b w = (rep, b', w')" and "reply_page rep = Some p"
  shows "\<exists>s iv. b_Get env (page_session ep r) w b = Inr s \<and> shown_identity (e_idp env) ep r s iv \<and>
     descriptions (html_tags (approve_html z p)) =
       [(''Client host'', shown (s_ClientHost s)), (''Client kind'', shown (s_ClientKind s)),
        (''Source IP'', shown (s_ClientIP s))] @
       (if s_VerifiedClient s = '''' then []
        else [(''Verified client'', shown (s_VerifiedClient s) @ '' (authenticated)'')]) @
       [(''Started at'', shown (format_RFC1123 z (s_CreatedAt s))), (''Identity'', shown iv)] \<and>
     form_input ''csrf_token'' (html_tags (approve_html z p)) = Some (shown (ap_CSRFToken p)) \<and>
     form_action (html_tags (approve_html z p)) =
       (let url = cfg_BaseURL (b_cfg b) @ ''/auth/approve'' in
        Some (shown (url_normalize (if isSafeURL url then url else ''#ZgotmplZ''))))"
proof -
  obtain s s' where s: "b_Get env (page_session ep r) w b = Inr s" "same_request s s'"
    "p = page_of s' (cfg_BaseURL (b_cfg b))" "shown_identity (e_idp env) ep r s (ap_Identity p)"
    by (rule approve_page_session [OF assms])
  then have "ap_ClientHost p = s_ClientHost s" "ap_ClientKind p = s_ClientKind s" "ap_ClientIP p = s_ClientIP s"
    "ap_VerifiedClient p = s_VerifiedClient s" "ap_StartedAt p = s_CreatedAt s"
    "ap_ApproveAction p = cfg_BaseURL (b_cfg b) @ ''/auth/approve''"
    by (simp_all add: page_of_def same_request_def)
  with s(1,4) show ?thesis
    by (intro exI [of _ s] exI [of _ "ap_Identity p"]) (simp add: approve_descriptions approve_token approve_action Let_def)
qed

definition utc :: zone where
  "utc = \<lparr>z_name = ''UTC'', z_offset = 0\<rparr>"

theorem approval_page_shows_the_request_witness:
  "\<exists>p. reply_page (fst demo_out3) = Some p \<and>
     (''Identity'', ''alice'') \<in> set (descriptions (html_tags (approve_html utc p)))"
proof -
  have "reply_csrf (fst demo_out3) \<noteq> None" using demo_approval_page by blast
  then obtain p where p: "reply_page (fst demo_out3) = Some p"
    by (auto simp: reply_csrf_def reply_page_def split: reply.splits body.splits)
  have "shown_identity (e_idp demo_env) EpIdPResponse r s iv \<Longrightarrow> iv = ''alice''" for r s iv
    by (auto simp: shown_identity_def demo_completes demo_identity_def)
  moreover have "shown ''alice'' = ''alice''" by (simp add: shown_id)
  ultimately show ?thesis
    using approval_page_shows_the_request [OF demo_outs(3) p, of utc] p by fastforce
qed

text \<open>C18: No field can add markup to a page: whatever a client calls itself and whatever an identity provider returns,
  the elements of a page are those of its template.\<close>

theorem pages_have_fixed_markup:
  assumes "body_html z v = Some h"
  shows "map (tag_name \<circ> snd) (html_tags h) \<in>
    {approve_page_elements True, approve_page_elements False, result_page_elements}"
proof (cases v)
  case (BodyApprove p)
  then have "h = approve_html z p" using assms by simp
  then show ?thesis by (cases "ap_VerifiedClient p = ''''") (simp_all add: approve_elements [unfolded comp_def] comp_def)
qed (use assms in \<open>auto simp: result_elements\<close>)

theorem pages_have_fixed_markup_witness:
  "map (tag_name \<circ> snd) (html_tags (result_html \<lparr>rp_Title = ''</h1><script>alert(1)</script>'', rp_Message = ''''\<rparr>)) \<in>
    {approve_page_elements True, approve_page_elements False, result_page_elements}"
  by (rule pages_have_fixed_markup [of utc "BodyResult _"]) simp

end
