(* ===== verification/Races.thy ===== *)
theory Races
  imports Cluster
begin

text \<open>
  What is lost when handlers overlap or the store does not write. The four checks survive (theory \<open>Cluster\<close>); single
  use, the finality of a denial and the cap on guesses do not. Each theorem takes requests that all read a session
  before any of them writes it back, which nothing in the code prevents, or a write that fails, whose error the handlers
  drop.
\<close>

section \<open>Requests that read before the others wrote\<close>

text \<open>The writes of a poll, on the in-memory store: the session as the poll computed it from what it read.\<close>

lemma late_poll_writes:
  assumes "e_store env = Memory" and "decode_pollRequest (r_Body r) = Some q" and "pq_SessionID q \<noteq> ''''"
    and "rd (pq_SessionID q) = Inr s"
    and "poll (pq_CodeVerifier q) (instant w) (cfg_ArtifactTTL (b_cfg b)) s = (out, s1)"
    and "out \<noteq> PollPanic" and "m_sessions (b_store b) (s_ID s1) \<noteq> None"
    and "serve (reading rd env) EpPoll r b w = (rep, b', w')"
  shows "m_sessions (b_store b') = (m_sessions (b_store b))(s_ID s1 \<mapsto> s1) \<and> reply_artifact rep = released out"
proof -
  define w1 where "w1 = w\<lparr>w_tick := Suc (w_tick w)\<rparr>"
  have t: "time_Now w = (instant w, w1)" by (simp add: w1_def time_Now_instant)
  have "m_sessions (b_store (snd (b_Update env s1 w1 b))) = (m_sessions (b_store b))(s_ID s1 \<mapsto> s1)"
    using assms(1,7) by (auto simp: b_Update_def memory_defs split: option.splits prod.splits)
  moreover have "b_store b' = b_store (snd (b_Update env s1 w1 b)) \<and> reply_artifact rep = released out"
    using assms(2-6,8) t poll_artifact_status [of "pq_CodeVerifier q" "instant w" "cfg_ArtifactTTL (b_cfg b)" s _ s1]
    by (auto simp: handlePoll_def Let_def released_def dest!: poll_reply_quiet
        split: poll_outcome.splits if_splits prod.splits)
  ultimately show ?thesis by simp
qed

text \<open>A poll with the right verifier that reads an approved session releases its artifact.\<close>

lemma poll_approved_releases:
  assumes "s_State s = StateApproved" and "\<not> s_Consumed s" and "s_Identity s \<noteq> None"
    and "verifyClientPKCE v (s_CodeChallenge s)"
  obtains a where "poll v now ttl s =
    (PollReturn \<lparr>pr_Status = PollApproved, pr_Artifact = Some a\<rparr>, s\<lparr>s_Consumed := True\<rparr>)"
  using assms by (auto simp: poll_def expireIfNeeded_def)

text \<open>The code the browser sends is wrong, and everything else is right.\<close>

definition wrong_guess :: "unicode_tables \<Rightarrow> session \<Rightarrow> request \<Rightarrow> bool" where
  "wrong_guess u s r \<longleftrightarrow>
     readSessionCookie r = Some (s_ID s) \<and> \<not> r_FormErr r \<and>
     constantTimeStringEqual (r_FormValue r ''csrf_token'') (s_CSRFToken s) \<and>
     r_FormValue r ''decision'' = ''approve'' \<and> hashBinding (presented_secret r) = s_ApprovalBindingHash s \<and>
     \<not> codesEqual u (r_FormValue r ''user_code'') (s_UserCode s)"

lemma late_guess_writes:
  assumes "e_store env = Memory" and "rd (s_ID s) = Inr s" and "s_State s = StateAwaitingApproval"
    and "0 \<le> s_ApproveAttempts s" and "s_ApproveAttempts s + 1 < maxApproveAttempts"
    and "wrong_guess (e_unicode env) s r" and "instant w \<le> s_ExpiresAt s" and "m_sessions (b_store b) (s_ID s) \<noteq> None"
    and "serve (reading rd env) EpApprove r b w = (rep, b', w')"
  shows "m_sessions (b_store b') =
    (m_sessions (b_store b))(s_ID s \<mapsto> s\<lparr>s_ApproveAttempts := s_ApproveAttempts s + 1\<rparr>)"
proof -
  let ?s1 = "s\<lparr>s_ApproveAttempts := s_ApproveAttempts s + 1\<rparr>"
  define w1 where "w1 = w\<lparr>w_tick := Suc (w_tick w)\<rparr>"
  have t: "time_Now w = (instant w, w1)" by (simp add: w1_def time_Now_instant)
  note g = assms(6) [unfolded wrong_guess_def]
  have "wrap64 (s_ApproveAttempts s + 1) = s_ApproveAttempts s + 1"
    using assms(4,5) by (intro wrap64_id) (simp_all add: minInt64_def maxInt64_def maxApproveAttempts_def)
  moreover have "s_ApprovalBindingHash s \<noteq> ''''" using g by (metis hashBinding_nonempty(1))
  ultimately have "approve (e_unicode env) (r_FormValue r ''user_code'') True (instant w) (presented_secret r) s =
      (Some ErrIncorrectCode, ?s1)"
    using assms(3,5,7) g by (simp add: approve_def expireIfNeeded_def isExpired_def time_After_def)
  then have "approve_reply env r (Some ErrIncorrectCode) ?s1 (instant w) (snd (b_Update env ?s1 w1 b)) = (rep, b')"
    using assms(2,9) g t
    by (auto simp: handleApprove_def presented_secret_def Let_def
        split: prod.splits option.splits)
  then have "b_store b' = b_store (snd (b_Update env ?s1 w1 b))" by (rule approve_reply_quiet)
  then show ?thesis using assms(1,8) by (auto simp: b_Update_def memory_defs split: option.splits prod.splits)
qed

text \<open>Requests served one after the other, each with what it read before.\<close>

fun serve_all ::
  "('st, 'l) env \<Rightarrow> endpoint \<Rightarrow> (request \<times> world) list \<Rightarrow> ('st, 'l) broker \<Rightarrow> reply list \<times> ('st, 'l) broker" where
  "serve_all env ep [] b = ([], b)"
| "serve_all env ep ((r, w) # rs) b =
     (let (rep, b1, w1) = serve env ep r b w; (reps, b2) = serve_all env ep rs b1 in (rep # reps, b2))"

lemma late_guesses_write:
  assumes "e_store env = Memory" and "rd (s_ID s) = Inr s" and "s_State s = StateAwaitingApproval"
    and "0 \<le> s_ApproveAttempts s" and "s_ApproveAttempts s + 1 < maxApproveAttempts"
  shows "list_all (\<lambda>(r, w). wrong_guess (e_unicode env) s r \<and> instant w \<le> s_ExpiresAt s) rs \<Longrightarrow>
    m_sessions (b_store b) (s_ID s) \<noteq> None \<Longrightarrow> rs \<noteq> [] \<Longrightarrow>
    m_sessions (b_store (snd (serve_all (reading rd env) EpApprove rs b))) (s_ID s) =
      Some (s\<lparr>s_ApproveAttempts := s_ApproveAttempts s + 1\<rparr>)"
proof (induction rs arbitrary: b)
  case (Cons rw rs)
  obtain r w where rw: "rw = (r, w)" by fastforce
  obtain rep b1 w1 where s1: "serve (reading rd env) EpApprove r b w = (rep, b1, w1)" by (metis prod_cases3)
  have "m_sessions (b_store b1) (s_ID s) = Some (s\<lparr>s_ApproveAttempts := s_ApproveAttempts s + 1\<rparr>)"
    using late_guess_writes [OF assms _ _ _ s1] Cons.prems rw by simp
  then show ?case using Cons rw s1 by (cases "rs = []") (simp_all add: case_prod_beta del: serve.simps)
qed simp

section \<open>Properties\<close>

text \<open>C20: Two overlapping polls both release the artifact. If two polls with the right verifier read an
  approved session before either writes it back, each of them is answered with the artifact, although
  \<open>poll\<close> is meant to release it once.\<close>

theorem overlapping_polls_release_twice:
  assumes "e_store env = Memory" and "m_sessions (b_store b) (s_ID s) = Some s" and "s_ID s \<noteq> ''''"
    and "s_State s = StateApproved" and "\<not> s_Consumed s" and "s_Identity s \<noteq> None"
    and "verifyClientPKCE v (s_CodeChallenge s)"
    and "decode_pollRequest (r_Body r) = Some \<lparr>pq_SessionID = s_ID s, pq_CodeVerifier = v\<rparr>"
    and "rd = (\<lambda>sid. b_Get env sid w0 b)"
    and "serve (reading rd env) EpPoll r b w = (rep1, b1, w1)"
    and "serve (reading rd env) EpPoll r b1 w2 = (rep2, b2, w3)"
  shows "reply_artifact rep1 \<noteq> None \<and> reply_artifact rep2 \<noteq> None"
proof -
  have rd: "rd (s_ID s) = Inr s" using assms(1,2,9) by (simp add: b_Get_def memory_defs)
  note late = late_poll_writes [OF assms(1,8), of rd s, simplified, OF assms(3) rd]
  obtain a where a: "poll v (instant w) (cfg_ArtifactTTL (b_cfg b)) s =
      (PollReturn \<lparr>pr_Status = PollApproved, pr_Artifact = Some a\<rparr>, s\<lparr>s_Consumed := True\<rparr>)"
    by (rule poll_approved_releases [OF assms(4-7)])
  obtain a2 where a2: "poll v (instant w2) (cfg_ArtifactTTL (b_cfg b1)) s =
      (PollReturn \<lparr>pr_Status = PollApproved, pr_Artifact = Some a2\<rparr>, s\<lparr>s_Consumed := True\<rparr>)"
    by (rule poll_approved_releases [OF assms(4-7)])
  have "m_sessions (b_store b1) = (m_sessions (b_store b))(s_ID s \<mapsto> s\<lparr>s_Consumed := True\<rparr>)" "reply_artifact rep1 = Some a"
    using late [OF a] assms(2,10) by (simp_all add: released_def)
  moreover from this(1) have "reply_artifact rep2 = Some a2"
    using late [OF a2] assms(11) by (simp add: released_def)
  ultimately show ?thesis by simp
qed

definition race_session :: session where
  "race_session = demo_stored\<lparr>s_ID := ''s1'', s_State := StateApproved, s_Identity := Some demo_identity,
     s_CodeChallenge := S256 demo_verifier\<rparr>"

definition race_broker :: "session \<Rightarrow> (memory, unit) broker" where
  "race_broker s = demo_broker\<lparr>b_store := \<lparr>m_sessions = [s_ID s \<mapsto> s], m_stopped = False\<rparr>\<rparr>"

definition race_request :: request where
  "race_request = blank_request\<lparr>r_Method := ''POST'', r_Body := json_Marshal (JObj [(''session_id'', JStr ''s1''),
     (''code_verifier'', JStr demo_verifier)])\<rparr>"

lemma race_decoded:
  "decode_pollRequest (r_Body race_request) = Some \<lparr>pq_SessionID = ''s1'', pq_CodeVerifier = demo_verifier\<rparr>"
  by (simp add: race_request_def decode_pollRequest_def json_Decode_Marshal maxNestingDepth_def demo_ascii(2) json_string_ascii
      decode_string_def json_members_def fold_names del: json_fold.simps)

definition race_poll :: "session \<Rightarrow> (memory, unit) broker \<Rightarrow> reply \<times> (memory, unit) broker \<times> world" where
  "race_poll s b = serve (reading (\<lambda>sid. b_Get demo_env sid demo_world (race_broker s)) demo_env) EpPoll race_request b
     demo_world"

lemma race_poll_out:
  "serve (reading (\<lambda>sid. b_Get demo_env sid demo_world (race_broker s)) demo_env) EpPoll race_request b demo_world =
     (fst (race_poll s b), fst (snd (race_poll s b)), snd (snd (race_poll s b)))"
  by (simp add: race_poll_def del: serve.simps)

lemmas race_defs = race_broker_def race_session_def demo_stored_def verifyClientPKCE_iff demo_verifier_nonempty
  race_decoded

theorem overlapping_polls_release_twice_witness:
  "(let first = race_poll race_session (race_broker race_session);
        second = race_poll race_session (fst (snd first))
    in reply_artifact (fst first) \<noteq> None \<and> reply_artifact (fst second) \<noteq> None)"
  unfolding Let_def
  by (rule overlapping_polls_release_twice [OF demo_env_parts(2) _ _ _ _ _ _ _ refl race_poll_out race_poll_out,
        where s = race_session and v = demo_verifier]) (simp_all add: race_defs)

text \<open>An overlapping poll undoes a denial. If a poll reads a session that awaits approval, the session is
  denied, and the poll then writes back what it read, the session awaits approval again and can still be
  approved; the denial is lost.\<close>

theorem overlapping_poll_undoes_denial:
  assumes "e_store env = Memory" and "s_State s = StateAwaitingApproval" and "s_LastPollAt s = 0" and "s_ID s \<noteq> ''''"
    and "rd (s_ID s) = Inr s" and "m_sessions (b_store b) (s_ID s) = Some (s\<lparr>s_State := StateDenied\<rparr>)"
    and "verifyClientPKCE v (s_CodeChallenge s)" and "instant w \<le> s_ExpiresAt s"
    and "decode_pollRequest (r_Body r) = Some \<lparr>pq_SessionID = s_ID s, pq_CodeVerifier = v\<rparr>"
    and "serve (reading rd env) EpPoll r b w = (rep, b', w')"
  shows "m_sessions (b_store b') (s_ID s) = Some (s\<lparr>s_LastPollAt := instant w\<rparr>)"
proof -
  have "poll v (instant w) (cfg_ArtifactTTL (b_cfg b)) s = (poll_status PollPending, s\<lparr>s_LastPollAt := instant w\<rparr>)"
    using assms(2,3,7,8)
    by (simp add: poll_def expireIfNeeded_def isExpired_def time_After_def time_IsZero_def)
  from late_poll_writes [OF assms(1,9), of rd s, simplified, OF assms(4,5) this] show ?thesis
    using assms(6,10) by (simp add: poll_status_def)
qed

theorem overlapping_poll_undoes_denial_witness:
  "(let s = race_session\<lparr>s_State := StateAwaitingApproval\<rparr>;
        out = race_poll s (race_broker (s\<lparr>s_State := StateDenied\<rparr>))
    in m_sessions (b_store (fst (snd out))) (s_ID s) = Some (s\<lparr>s_LastPollAt := instant demo_world\<rparr>))"
  unfolding Let_def
  by (rule overlapping_poll_undoes_denial [OF demo_env_parts(2) _ _ _ _ _ _ _ _ race_poll_out, where v = demo_verifier])
    (simp_all add: race_defs b_Get_def demo_env_parts memory_defs)

text \<open>C21: Overlapping guesses are counted once. However many approval forms with a wrong code read a session before any of
  them writes it back, all of them are evaluated, and afterwards the session has one failed attempt more and still
  awaits approval: the cap of five wrong codes binds only forms that do not overlap.\<close>

theorem overlapping_guesses_counted_once:
  assumes "e_store env = Memory" and "rd (s_ID s) = Inr s" and "s_State s = StateAwaitingApproval"
    and "0 \<le> s_ApproveAttempts s" and "s_ApproveAttempts s + 1 < maxApproveAttempts"
    and "list_all (\<lambda>(r, w). wrong_guess (e_unicode env) s r \<and> instant w \<le> s_ExpiresAt s) rs"
    and "m_sessions (b_store b) (s_ID s) \<noteq> None" and "rs \<noteq> []"
  shows "m_sessions (b_store (snd (serve_all (reading rd env) EpApprove rs b))) (s_ID s) =
    Some (s\<lparr>s_ApproveAttempts := s_ApproveAttempts s + 1\<rparr>)"
  using assms by (rule late_guesses_write)

definition guessed_session :: session where
  "guessed_session = race_session\<lparr>s_State := StateAwaitingApproval, s_CSRFToken := ''t'',
     s_ApprovalBindingHash := hashBinding ''secret'', s_UserCode := ''ABCD-2345''\<rparr>"

definition guess_request :: request where
  "guess_request = blank_request\<lparr>r_Cookies := [(sessionCookieName, ''s1''), (approvalCookieName, ''secret'')],
     r_PostForm := [(''user_code'', ''WRONG''), (''csrf_token'', ''t''), (''decision'', ''approve'')]\<rparr>"

lemma guess_is_wrong: "wrong_guess demo_unicode guessed_session guess_request"
  by (simp add: wrong_guess_def guess_request_def blank_request_def readSessionCookie_def readApprovalCookie_def
      r_Cookie_def presented_secret_def r_FormValue_def first_value_def sessionCookieName_def approvalCookieName_def
      guessed_session_def race_session_def codesEqual_iff constantTimeStringEqual_iff demo_wrong_code)

theorem overlapping_guesses_counted_once_witness:
  "m_sessions (b_store (snd (serve_all (reading (\<lambda>_. Inr guessed_session) demo_env) EpApprove
      (replicate 1000 (guess_request, demo_world)) (race_broker guessed_session)))) (s_ID guessed_session) =
    Some (guessed_session\<lparr>s_ApproveAttempts := s_ApproveAttempts guessed_session + 1\<rparr>)"
  by (rule overlapping_guesses_counted_once [OF demo_env_parts(2)])
    (use guess_is_wrong in \<open>simp_all add: list_all_iff demo_env_def guessed_session_def race_session_def demo_stored_def
      race_broker_def maxApproveAttempts_def\<close>)

section \<open>A write that fails\<close>

text \<open>A release that is not written repeats. \<open>handlePoll\<close> drops the error of \<open>Update\<close>: while the store answers reads and
  fails to write, every poll with the right verifier of an approved session is answered with the artifact.\<close>

theorem unwritten_release_repeats:
  assumes "\<And>t. st_Get (e_store env) (s_ID s) t (b_store b) = Inr s"
    and "\<And>x t. snd (st_Update (e_store env) x t (b_store b)) = b_store b" and "s_ID s \<noteq> ''''"
    and "s_State s = StateApproved" and "\<not> s_Consumed s" and "s_Identity s \<noteq> None"
    and "verifyClientPKCE v (s_CodeChallenge s)"
    and "list_all (\<lambda>(r, w). decode_pollRequest (r_Body r) = Some \<lparr>pq_SessionID = s_ID s, pq_CodeVerifier = v\<rparr>) rs"
  shows "list_all (\<lambda>rep. reply_artifact rep \<noteq> None) (fst (serve_all env EpPoll rs b))"
proof -
  have one: "reply_artifact rep \<noteq> None \<and> b_store b1 = b_store b"
    if "serve env EpPoll r b0 w = (rep, b1, w1)" "b_store b0 = b_store b"
      "decode_pollRequest (r_Body r) = Some \<lparr>pq_SessionID = s_ID s, pq_CodeVerifier = v\<rparr>" for r w b0 rep b1 w1
  proof -
    obtain a where "poll v (instant w) (cfg_ArtifactTTL (b_cfg b0)) s =
        (PollReturn \<lparr>pr_Status = PollApproved, pr_Artifact = Some a\<rparr>, s\<lparr>s_Consumed := True\<rparr>)"
      by (rule poll_approved_releases [OF assms(4-7)])
    moreover have "b_store (snd (b_Update env x w0 b0)) = b_store b" for x w0
      using assms(2) [of x "instant w0"] that(2) by (simp add: b_Update_def case_prod_beta)
    ultimately show ?thesis
      using that assms(1,3,5) time_Now_instant [of w]
      by (auto simp: handlePoll_def b_Get_def Let_def dest!: poll_reply_quiet split: prod.splits)
  qed
  have "b_store b0 = b_store b \<Longrightarrow> list_all (\<lambda>rep. reply_artifact rep \<noteq> None) (fst (serve_all env EpPoll rs b0))" for b0
    using assms(8)
  proof (induction rs arbitrary: b0)
    case (Cons rw rs)
    obtain r w where rw: "rw = (r, w)" by fastforce
    obtain rep b1 w1 where s1: "serve env EpPoll r b0 w = (rep, b1, w1)" by (metis prod_cases3)
    show ?case using one [OF s1] Cons rw s1 by (simp add: case_prod_beta del: serve.simps)
  qed simp
  then show ?thesis by blast
qed

definition failing_env :: "(memory, unit) env" where
  "failing_env = demo_env\<lparr>e_store := Memory\<lparr>st_Update := (\<lambda>s t st. (Some (StoreErr ''timeout''), st))\<rparr>\<rparr>"

theorem unwritten_release_repeats_witness:
  "list_all (\<lambda>rep. reply_artifact rep \<noteq> None)
     (fst (serve_all failing_env EpPoll (replicate 3 (race_request, demo_world)) (race_broker race_session)))"
  by (rule unwritten_release_repeats [where s = race_session and v = demo_verifier])
    (simp_all add: failing_env_def memory_defs race_defs list_all_iff)

end
