(* ===== verification/Spec2Isabelle.thy ===== *)
theory Spec2Isabelle
  imports NativePam Lifecycle Pages Races
begin

text \<open>
  \<^bold>\<open>xdauth\<close> signs a person in on a machine that has no browser. A client (an SSH server, a PAM module, a command
  line tool) asks the broker to start a session and shows the user a link and a user code; the user opens the link in
  a browser, logs in at the organisation's identity provider and types the code; the client, which has been polling,
  receives an artifact with the verified identity. The broker releases it only after its \<^emph>\<open>four checks\<close>: the PKCE
  verifier of the poller matches the challenge of the start request, the approving browser typed the session's user
  code, it is the browser that logged in, and the verified identity is the one the client asked for.

  \<^bold>\<open>The parts of the program and the theories that model them.\<close> A handler, like every operation, is a function from
  the state before to its answer and the state after; a Go error is the left side of a sum, a panic a value.

  \<^item> \<open>XPrelude\<close>, \<open>GoCrypto\<close>, \<open>GoNet\<close>, \<open>Http\<close>: what the source uses of Go's standard library. Strings (trimming,
    splitting, lower case over the Unicode tables as an argument), instants and saturating durations, the random source
    and the clock as the record \<open>world\<close>; SHA-256, constant-time comparison, hexadecimal and base64url; host/port and
    address parsing, prefixes; requests, cookies and answers. \<open>GoTime\<close>: the calendar, the printed forms of an instant and a
    duration, RFC 3339.
  \<^item> \<open>Json\<close>, \<open>JsonText\<close>, \<open>GoJson\<close>: \<open>encoding/json\<close>. Documents and their decoding into structs, with the replacement of
    bytes that are not UTF-8; the writer (with its escapes, and indented) and the reader over bytes, with the reader's limit on
    nesting; numbers, times and values of type \<open>any\<close>; the decimal form of floats and the time zone database are arguments.
  \<^item> \<open>Store\<close>: \<open>internal/store/store.go\<close>, with the in-memory store (\<open>Create\<close>, \<open>Get\<close>, \<open>Update\<close>, \<open>Close\<close>, the sweeper). \<open>SessionJson\<close>:
    the JSON form of a session. \<open>Redis\<close>: \<open>internal/store/redis.go\<close>, with the Redis client as an argument.
  \<^item> \<open>Codes\<close>: \<open>usercode.go\<close> and \<open>pkce.go\<close> of \<open>internal/broker\<close>. \<open>Session\<close>: \<open>session.go\<close>, the state machine of one
    session (\<open>newSession\<close>, \<open>bindIdentity\<close>, \<open>approve\<close>, \<open>poll\<close>, \<open>expireIfNeeded\<close>). \<open>Session_Props\<close>: histories of it.
  \<^item> \<open>ClientIP\<close>, \<open>ClientAuth\<close>, \<open>RateLimit\<close>, \<open>Detect\<close>: \<open>clientip.go\<close>, \<open>clientauth.go\<close>, \<open>ratelimit.go\<close>, \<open>detect.go\<close>,
    the gates of the start endpoint and the abuse detector.
  \<^item> \<open>Broker\<close>: \<open>broker.go\<close>, \<open>idp.go\<close>, \<open>log.go\<close>, \<open>templates.go\<close> and the helpers of \<open>handlers.go\<close>. \<open>Handlers\<close>: the
    handlers (\<open>handleStart\<close>, \<open>handleVerify\<close>, \<open>handleIdPResponse\<close>, \<open>handleApprove\<close>, \<open>handlePoll\<close>, \<open>healthz\<close>) and the
    router \<open>serve\<close>.
  \<^item> \<open>Pages\<close>: \<open>web/fs.go\<close>, the templates under \<open>web/templates\<close> and their execution by \<open>html/template\<close>.
  \<^item> \<open>Oidc\<close>, \<open>Saml\<close>: \<open>internal/oidc/oidc.go\<close> and \<open>internal/saml/saml.go\<close>, the two identity providers.
  \<^item> \<open>ClientLib\<close>: \<open>pkg/client/client.go\<close>. \<open>ClientCmds\<close>: \<open>cmd/xdauth-pam\<close>, \<open>cmd/xdauth-login\<close>,
    \<open>cmd/xdauth-pam-native\<close>, \<open>cmd/xdauth-sshd\<close>; \<open>NativePam\<close>: the native module again, over an
    explicit C heap. \<open>BrokerCmd\<close>: \<open>cmd/xdauth-broker\<close> up to the server it starts; \<open>Lifecycle\<close>: that server, its shutdown and the exit of the process.
  \<^item> \<open>Broker_Sim\<close>, \<open>Broker_Props\<close>, \<open>Broker_Live\<close>, \<open>Broker_Demo\<close>, \<open>Handler_Props\<close>, \<open>Cluster\<close>, \<open>Races\<close>, \<open>EndToEnd\<close>
    and this theory hold properties of the parts together.

  \<^bold>\<open>Interfaces.\<close> What one part relies on in another is a locale, and each is interpreted on the code's own definitions.

  \<^item> \<open>session_store\<close> (theory \<open>Store\<close>): what a lookup returns after a create or an update, up to the representation of
    claims; \<open>reliable_store\<close> extends it by operations that do not fail. \<open>Memory\<close> is both; \<open>Redis\<close> is a \<open>session_store\<close> for
    every server that meets \<open>redis_server\<close>, with the codec of the code (\<open>redis_backend\<close>) on sessions of UTF-8 text
    that are not nested too deep to be read back (\<open>text_session_codec\<close>); a small server in that theory does.
  \<^item> \<open>identity_provider\<close> (theory \<open>Broker_Sim\<close>): beginning a login writes only the provider's own fields of a session. The
    OpenID Connect and the SAML provider are interpreted. \<open>broker_env\<close> joins a reliable store and a provider, and
    \<open>broker_cluster\<close> (theory \<open>Cluster\<close>) a store that may fail and a provider, so every \<open>broker_env\<close> is a
    \<open>broker_cluster\<close>; they are interpreted for the shipped combinations, on memory and on Redis (theory \<open>BrokerCmd\<close>).
  \<^item> \<open>broker_process\<close> (theory \<open>Lifecycle\<close>): a \<open>broker_cluster\<close> whose store only forgets on its own and when it is closed.
  \<^item> \<open>token_bucket\<close> (theory \<open>RateLimit\<close>): what \<open>golang.org/x/time/rate\<close> documents of a limiter.

  \<^bold>\<open>What is shown.\<close>

  \<^item> Safety of one session: an artifact is released only after the four checks, at most once, and after fewer than five
    wrong codes; terminal states are final; an expired session is dead; polls are paced; every operation refines the state
    machine of the documentation (\<open>Session_Props\<close>).
  \<^item> Safety of a broker under arbitrary traffic, one request after the other: serving a request changes at most one session and
    by one operation of that machine (\<open>Broker_Sim\<close>), so the properties of histories become properties of the HTTP exchanges
    of a run (\<open>Broker_Props\<close>, this theory). Single use and the cap on wrong codes are properties of such runs only.
  \<^item> The program's configuration: gates that are configured are enforced, and a malformed one stops the program
    (\<open>BrokerCmd\<close>).
  \<^item> Liveness: an honest login, request by request and amid any other traffic, ends with the artifact (\<open>Broker_Live\<close>, this theory).
  \<^item> Single handlers: the gates of a start, what a form without the token does, who sees the token, cookies, what an
    unknown session looks like (\<open>Handler_Props\<close>).
  \<^item> The native PAM module: no undefined behaviour, no leak (\<open>NativePam\<close>).
  \<^item> Pages: read the way a browser reads it, the approval page shows the request it is about, its form carries the token,
    and no field can add an element (\<open>Pages\<close>).
  \<^item> The process, with its requests overlapping: an artifact it sends was released after the four checks, it ends with the
    exit code of its cause, and its shutdown does not wait for requests in progress (\<open>Lifecycle\<close>).
  \<^item> Concurrency and faults: with any number of brokers on one store, requests that overlap in any way and a store that
    fails or forgets, the four checks still stand behind every release (\<open>Cluster\<close>); single use, the finality of a
    denial and the cap on wrong codes do not, since a handler reads and writes a session in two calls and drops the
    error of the second (\<open>Races\<close>).
  \<^item> Providers and stores: which checks a login has passed, that claims are complete, the round trip through Redis, with the
    encoding and decoding of every field (\<open>GoJson\<close>, \<open>SessionJson\<close>, \<open>Redis\<close>).
  \<^item> JSON: what the writer prints, plain or indented, is read back as the document with its strings made UTF-8, exactly if it
    is not nested too deep (\<open>JsonText\<close>); an instant is read back to the nanosecond (\<open>GoTime\<close>).
  \<^item> Clients: the wire formats agree byte by byte in both directions, polling ends and what each end means (\<open>ClientLib\<close>), and each
    program lets a user in only on an approval of the broker (\<open>ClientCmds\<close>); connected to a broker that serves anybody else
    in between, only after a verified login of that very user, and the SSH server's output likewise (\<open>EndToEnd\<close>).
  \<^item> Gates: spoofed proxy hops are ignored, the budget of the limiter, one report per abuse window, uniform user codes, the
    S256 check, and what the sweeper drops.

  \<^bold>\<open>Bounds and fuel.\<close> Durations saturate at the range of a signed 64-bit number as \<open>time.Sub\<close> does. The polling loop of
  the client takes fuel, one unit per round; it is shown that a context that is done at some wait makes it return with
  enough fuel, and the programs' properties speak of runs that returned. The discovery retry of the broker doubles its
  delay, and eight units of fuel are shown to be enough whenever the clock does not run backwards. The loops of trimming
  and of reading an IPv6 address have termination measures, and so have the readers of JSON strings and documents, which are
  shown to consume their input; the other loops are structural.

  \<^bold>\<open>Not modelled.\<close> The byte level of HTTP: a request holds the parsed form of its headers and form, and the bytes of its body. Redis
  brokers are shown to be a \<open>broker_cluster\<close> for sessions of UTF-8 text; what JSON does to other strings is part of the
  property of the store.
  Pattern matching of the chi router, the HTTP server's timeouts, TLS, goroutine scheduling other than
  the interleavings of \<open>Cluster\<close>, \<open>Races\<close>, \<open>Lifecycle\<close> and \<open>EndToEnd\<close>, and the delivery of webhook posts beyond their
  content. The libraries \<open>x/time/rate\<close>, \<open>go-oidc\<close>, \<open>oauth2\<close>, \<open>crewjam/saml\<close>, \<open>go-redis\<close>, \<open>x/crypto/ssh\<close> and PAM are
  arguments. Tests, documentation and deployment files are not code of the program.
\<close>

section \<open>Properties of whole brokers\<close>

text \<open>C1: What must have happened before an artifact leaves the broker. Take any run of a broker on the
  in-memory store: any requests to any endpoint, from anyone, in any order, with any clock and random
  bytes, sessions evicted at will, and no session id drawn twice. If a poll is answered with an
  artifact, then the poller sent a verifier whose S256 challenge came with the start request of that
  session; a browser holding the session cookie completed a login at the identity provider, whose
  verified identity equals the start request's login hint after normalisation, and was given an
  approval cookie; later a browser with the session cookie and an approval cookie of the same hash
  approved with the user code the start request was answered with; and the artifact carries exactly
  the verified identity.\<close>

theorem broker_release_needs_all_checks:
  assumes "identity_provider (e_idp env)" and "e_store env = Memory"
    and "broker_reach env m_sessions cfg tr b" and "distinct (started_ids tr)"
    and "serve env EpPoll r b w = (rep, b', w')" and "reply_artifact rep = Some a"
  shows "\<exists>sid v hint code secret ident t1 x2 t2 x1 x0.
    decode_pollRequest (r_Body r) = Some \<lparr>pq_SessionID = sid, pq_CodeVerifier = v\<rparr> \<and> v \<noteq> '''' \<and>
    x0 \<in> set tr \<and> start_exchange sid hint (S256 v) code x0 \<and>
    tr = t1 @ x2 # t2 \<and> approval_exchange (e_unicode env) sid code secret x2 \<and>
    x1 \<in> set t2 \<and> login_exchange (e_idp env) sid ident secret x1 \<and>
    normalizer_or_default (e_unicode env) (cfg_IdentityNormalizer cfg) (id_Value ident) =
      normalizer_or_default (e_unicode env) (cfg_IdentityNormalizer cfg) hint \<and>
    a_Identity a = id_Value ident \<and> a_Subject a = id_Subject ident \<and> a_Claims a = id_Claims ident"
  by (rule broker_env.release_exchanges [OF memory_broker_env [OF assms(1,2)] assms(3-6)])

theorem broker_release_needs_all_checks_witness:
  "\<exists>sid v hint code secret ident t1 x2 t2 x1 x0.
    decode_pollRequest (r_Body demo_poll_request) = Some \<lparr>pq_SessionID = sid, pq_CodeVerifier = v\<rparr> \<and> v \<noteq> '''' \<and>
    x0 \<in> set demo_trace \<and> start_exchange sid hint (S256 v) code x0 \<and>
    demo_trace = t1 @ x2 # t2 \<and> approval_exchange (e_unicode demo_env) sid code secret x2 \<and>
    x1 \<in> set t2 \<and> login_exchange (e_idp demo_env) sid ident secret x1 \<and>
    normalizer_or_default (e_unicode demo_env) (cfg_IdentityNormalizer demo_cfg) (id_Value ident) =
      normalizer_or_default (e_unicode demo_env) (cfg_IdentityNormalizer demo_cfg) hint \<and>
    a_Identity demo_artifact = id_Value ident \<and> a_Subject demo_artifact = id_Subject ident \<and>
    a_Claims demo_artifact = id_Claims ident"
  by (rule broker_release_needs_all_checks [OF _ _ demo_trace_reach _ demo_outs(5) demo_released])
    (simp_all add: demo_trace_started demo_env_def demo_idp_contract)

text \<open>C5: Single use over HTTP. In any such run, at most one poll of a session is answered with an
  artifact.\<close>

theorem broker_single_use:
  assumes "identity_provider (e_idp env)" and "e_store env = Memory"
    and "broker_reach env m_sessions cfg tr b" and "distinct (started_ids tr)"
  shows "length (filter (artifact_for sid) tr) \<le> 1"
  by (rule broker_env.single_use [OF memory_broker_env [OF assms(1,2)] assms(3,4)])

theorem broker_single_use_witness:
  "length (filter (artifact_for demo_sid) ((EpPoll, demo_poll_request, fst demo_out5) # demo_trace)) \<le> 1 \<and>
   artifact_for demo_sid (EpPoll, demo_poll_request, fst demo_out5)"
proof -
  have "broker_reach demo_env m_sessions demo_cfg ((EpPoll, demo_poll_request, fst demo_out5) # demo_trace)
      (fst (snd demo_out5))"
    using demo_trace_reach demo_outs(5) by (rule broker_reach.served)
  moreover have "reply_start (fst demo_out5) = None" using serve_start_only [OF demo_outs(5)] by simp
  ultimately have "length (filter (artifact_for demo_sid) ((EpPoll, demo_poll_request, fst demo_out5) # demo_trace)) \<le> 1"
    by (intro broker_single_use [of demo_env demo_cfg])
      (simp_all add: demo_env_def demo_idp_contract demo_trace_started)
  then show ?thesis by (simp add: demo_released demo_poll_decoded)
qed

text \<open>C6: The handlers implement the session machine. Serving any request on the in-memory store either
  leaves every session as it is, or creates one fresh session as \<open>newSession\<close> makes it, or performs one
  operation of the session machine on one session, named by the request (the path, the session cookie
  or the poll's session id) and with the request's own arguments; no other session changes, and only a
  poll is answered with an artifact.\<close>

theorem handlers_refine_session_machine:
  assumes "identity_provider (e_idp env)" and "e_store env = Memory"
    and "ids_ok (m_sessions (b_store b))" and "serve env ep r b w = (rep, b', w')"
  shows "exchange_effect (e_idp env) (e_unicode env) (cfg_IdentityNormalizer (b_cfg b))
    (m_sessions (b_store b)) (ep, r, rep) (m_sessions (b_store b'))"
  by (rule broker_env.serve_effect [OF memory_broker_env [OF assms(1,2)] assms(4,3)])

theorem handlers_refine_session_machine_witness:
  "exchange_effect (e_idp demo_env) (e_unicode demo_env) (cfg_IdentityNormalizer (b_cfg demo_broker))
    (m_sessions (b_store demo_broker)) (EpStart, demo_start, fst demo_out1)
    (m_sessions (b_store (fst (snd demo_out1))))"
  by (rule handlers_refine_session_machine [OF _ _ demo_ids demo_outs(1)])
    (simp_all add: demo_env_def demo_idp_contract)

text \<open>C7: An honest login succeeds, whatever else the broker serves meanwhile. A start request is accepted; the browser
  opens the link, is redirected with the session cookie, comes back with a verified identity that matches the login
  hint and gets the approval page; it submits the page's token, the displayed code and its two cookies; the client
  polls with its verifier. Between any two of these steps the broker may serve any requests about other sessions and polls of
  this one, and drop other sessions. If the identity provider and the random source do not fail and the
  browser is in time, the poll is answered with the artifact of that identity.\<close>

theorem honest_login_succeeds:
  assumes "identity_provider (e_idp env)" and "e_store env = Memory" and "ids_ok (m_sessions (b_store b))"
    and "\<And>s w. \<exists>url s' w'. idp_BeginLogin (e_idp env) s w = (Inr url, s', w')"
    and "\<And>w. no_rand_failure w \<Longrightarrow> \<exists>w'. no_rand_failure w' \<and>
      idp_CompleteLogin (e_idp env) r3 (the (m_sessions (b_store c2) sid)) w = (Inr ident, w')"
    and "no_rand_failure w3"
    and "serve env EpStart r1 b w1 = (rep1, b1, w1')" and "reply_start rep1 = Some sr"
    and "decode_startRequest (r_Body r1) = Some q" and "sq_CodeChallenge q = S256 v" and "v \<noteq> ''''"
    and "sid = sr_SessionID sr"
    and "serve env EpVerify r2 c1 w2 = (rep2, b2, w2')" and "r_PathID r2 = sid"
    and "serve env EpIdPResponse r3 c2 w3 = (rep3, b3, w3')" and "readSessionCookie r3 = Some sid"
    and "normalizer_or_default (e_unicode env) (cfg_IdentityNormalizer (b_cfg b)) (id_Value ident) =
      normalizer_or_default (e_unicode env) (cfg_IdentityNormalizer (b_cfg b)) (sq_LoginHint q)"
    and "serve env EpApprove r4 c3 w4 = (rep4, b4, w4')" and "readSessionCookie r4 = Some sid"
    and "\<not> r_FormErr r4" and "reply_cookies rep3 = [(approvalCookieName, presented_secret r4)]"
    and "reply_csrf rep3 = Some (r_FormValue r4 ''csrf_token'')"
    and "r_FormValue r4 ''decision'' = ''approve''" and "r_FormValue r4 ''user_code'' = sr_UserCode sr"
    and "serve env EpPoll r5 c4 w5 = (rep5, b5, w5')"
    and "decode_pollRequest (r_Body r5) = Some \<lparr>pq_SessionID = sid, pq_CodeVerifier = v\<rparr>"
    and "deadline = s_ExpiresAt (the (m_sessions (b_store b1) sid))"
    and "instant w2 \<le> deadline" and "instant w3 \<le> deadline" and "instant w4 \<le> deadline"
    and "meanwhile env m_sessions sid deadline b1 c1" and "meanwhile env m_sessions sid deadline b2 c2"
    and "meanwhile env m_sessions sid deadline b3 c3" and "meanwhile env m_sessions sid deadline b4 c4"
  shows "(sessionCookieName, sid) \<in> set (reply_cookies rep2) \<and>
    reply_artifact rep5 = Some \<lparr>a_Subject = id_Subject ident, a_Identity = id_Value ident,
      a_Claims = id_Claims ident, a_ApprovedAt = instant w3,
      a_ExpiresAt = instant w3 + cfg_ArtifactTTL (b_cfg b)\<rparr>"
  by (rule broker_env.honest_login [OF memory_broker_env [OF assms(1,2)] assms(12,3,4,5,6,7-11,13-34)])

theorem honest_login_succeeds_witness:
  "(sessionCookieName, demo_sid) \<in> set (reply_cookies (fst demo_out2)) \<and>
    reply_artifact (fst demo_out5) = Some \<lparr>a_Subject = ''sub-alice'', a_Identity = ''alice'',
      a_Claims = id_Claims demo_identity, a_ApprovedAt = instant demo_world,
      a_ExpiresAt = instant demo_world + cfg_ArtifactTTL (b_cfg demo_broker)\<rparr>"
proof -
  obtain s0 where s0: "reply_start (fst demo_out1) = Some demo_sr" using demo_started by blast
  note h = honest_login_succeeds [OF _ _ demo_ids demo_begins _ _ demo_outs(1) s0 demo_start_decoded _
      demo_verifier_nonempty demo_sid_def demo_outs(2) _ demo_outs(3) demo_session_cookie(1) _ demo_outs(4)
      demo_session_cookie(2) demo_presented(5,1,2,4,3) demo_outs(5) demo_poll_decoded refl _ _ _
      meanwhile.none meanwhile.none meanwhile.none meanwhile.none, where ident = demo_identity]
  have "(sessionCookieName, demo_sid) \<in> set (reply_cookies (fst demo_out2)) \<and>
    reply_artifact (fst demo_out5) = Some \<lparr>a_Subject = id_Subject demo_identity, a_Identity = id_Value demo_identity,
      a_Claims = id_Claims demo_identity, a_ApprovedAt = instant demo_world,
      a_ExpiresAt = instant demo_world + cfg_ArtifactTTL (b_cfg demo_broker)\<rparr>"
    by (rule h) (use demo_expiry in \<open>simp_all add: demo_completes demo_verify_def demo_normalized [simplified]
        demo_idp_contract demo_env_parts\<close>)
  then show ?thesis by (simp add: demo_identity_def)
qed

end
